theory Spec2Isabelle
  imports Complex_Main "HOL-Library.Sublist" "HOL-Library.AList"
begin

section \<open>Data model of the scene store\<close>

text \<open>
  A shallow embedding of \<^verbatim>\<open>src/stores/InfographicsStore.js\<close>,
  \<^verbatim>\<open>src/stores/commands.js\<close> and of the pointer interaction handlers of the
  editor page (\<^verbatim>\<open>beginInteraction\<close>, \<^verbatim>\<open>handlePointerMove\<close>,
  \<^verbatim>\<open>endInteraction\<close>).

  JavaScript numbers are modelled as \<^typ>\<open>real\<close>: the arithmetic below is the ideal one,
  without rounding. A property that is \<^verbatim>\<open>undefined\<close>, \<^verbatim>\<open>null\<close> or missing is
  \<open>None\<close>. A width or height that is not a number (the sample data has \<^verbatim>\<open>"76%"\<close>) is
  \<open>None\<close> as well: the handlers only ever test \<^verbatim>\<open>typeof w === "number"\<close>.
\<close>

datatype position = Position (pos_x: real) (pos_y: real)

datatype bsize = Size (width: "real option") (height: "real option")

record crop =
  crop_top :: "real option"
  crop_right :: "real option"
  crop_bottom :: "real option"
  crop_left :: "real option"

record block =
  block_id :: string
  block_type :: string
  position :: "position option"
  block_size :: "bsize option"
  rotation :: "real option"
  fontSize :: "real option"
  crop :: "crop option"
  groupId :: "string option"
  locked :: bool

record page =
  page_id :: string
  blocks :: "block list"

text \<open>
  A group as \<^verbatim>\<open>addGroup\<close> normalises it. \<^verbatim>\<open>blockOffsets\<close> is a JavaScript object
  used as a dictionary: an association list whose keys are kept distinct by
  \<^const>\<open>AList.update\<close>. The opaque \<^verbatim>\<open>meta\<close> object is not modelled.
\<close>

record group =
  group_id :: string
  childIds :: "string list"
  blockIds :: "string list"
  g_position :: position
  g_size :: bsize
  g_rotation :: real
  blockOffsets :: "(string \<times> position) list"

text \<open>The argument of \<^verbatim>\<open>addGroup\<close>; every caller in the repository passes an id, so the
  \<^verbatim>\<open>genId\<close> fallback (clock and random numbers) is left out.\<close>

record group_spec =
  gs_id :: string
  gs_childIds :: "string list option"
  gs_blockIds :: "string list option"
  gs_position :: "position option"
  gs_size :: "bsize option"
  gs_rotation :: "real option"
  gs_blockOffsets :: "(string \<times> position) list option"

text \<open>The patch of \<^verbatim>\<open>updateBlock\<close>: \<open>None\<close> is a key the patch does not have. Only
  \<^verbatim>\<open>ResizeCommand\<close> can pass \<^verbatim>\<open>size: null\<close>, hence the nested option.\<close>

record block_patch =
  p_position :: "position option"
  p_size :: "bsize option option"
  p_rotation :: "real option"
  p_fontSize :: "real option"
  p_crop :: "crop option"

record group_patch =
  gp_childIds :: "string list option"
  gp_blockIds :: "string list option"
  gp_position :: "position option"
  gp_size :: "bsize option"
  gp_rotation :: "real option"
  gp_blockOffsets :: "(string \<times> position) list option"

datatype error = TypeError

text \<open>
  The command objects of \<^verbatim>\<open>commands.js\<close> that the interaction handlers and the group
  operations build. The variables a factory closes over and later assigns
  (\<^verbatim>\<open>oldGroups\<close>, \<^verbatim>\<open>createdGroup\<close>) are fields of the constructor, so \<^verbatim>\<open>do\<close> and
  \<^verbatim>\<open>undo\<close> return the command as they leave it.
\<close>

datatype command =
    MoveCommand string position position
  | ResizeCommand string "bsize option" "bsize option" "position option" "position option"
      "real option" "real option"
  | RotateCommand string real real "(string \<times> block_patch) list option"
      "(string \<times> block_patch) list option"
  | CropCommand string crop crop
  | GroupCommand string "string list" "group_spec option"
      "(string \<rightharpoonup> string option) option" bool
  | GroupTransformCommand string "group option" "group option"
      "(string \<times> block_patch) list" "(string \<times> block_patch) list"

record store =
  pages :: "page list"
  activePageId :: "string option"
  groups :: "group list"
  undoStack :: "command list"
  redoStack :: "command list"

section \<open>Lookups\<close>

fun getBlockById_pages :: "page list \<Rightarrow> string \<Rightarrow> block option" where
  "getBlockById_pages [] i = None"
| "getBlockById_pages (p # ps) i =
     (case find (\<lambda>blk. block_id blk = i) (blocks p) of
        Some b \<Rightarrow> Some b
      | None \<Rightarrow> getBlockById_pages ps i)"

definition getBlockById :: "store \<Rightarrow> string \<Rightarrow> block option" where
  "getBlockById s i = getBlockById_pages (pages s) i"

definition activePage :: "store \<Rightarrow> page option" where
  "activePage s = find (\<lambda>p. Some (page_id p) = activePageId s) (pages s)"

definition getGroupById :: "store \<Rightarrow> string \<Rightarrow> group option" where
  "getGroupById s i = find (\<lambda>g. group_id g = i) (groups s)"

text \<open>\<^verbatim>\<open>findIndex\<close>: the index of the first element that satisfies the test.\<close>

fun findIndex :: "('a \<Rightarrow> bool) \<Rightarrow> 'a list \<Rightarrow> nat option" where
  "findIndex P [] = None"
| "findIndex P (a # as) =
     (if P a then Some 0 else map_option Suc (findIndex P as))"

section \<open>Block and group mutation\<close>

text \<open>
  The handlers mutate the object that \<^verbatim>\<open>getBlockById\<close> returned. In the model that is
  the first block with the id, on the first page that has one.
\<close>

fun modify_first :: "string \<Rightarrow> (block \<Rightarrow> block) \<Rightarrow> block list \<Rightarrow> block list" where
  "modify_first i f [] = []"
| "modify_first i f (b # bs) =
     (if block_id b = i then f b # bs else b # modify_first i f bs)"

fun modify_block_pages :: "string \<Rightarrow> (block \<Rightarrow> block) \<Rightarrow> page list \<Rightarrow> page list" where
  "modify_block_pages i f [] = []"
| "modify_block_pages i f (p # ps) =
     (if \<exists>b \<in> set (blocks p). block_id b = i
      then p\<lparr>blocks := modify_first i f (blocks p)\<rparr> # ps
      else p # modify_block_pages i f ps)"

definition modify_block :: "string \<Rightarrow> (block \<Rightarrow> block) \<Rightarrow> store \<Rightarrow> store" where
  "modify_block i f s = s\<lparr>pages := modify_block_pages i f (pages s)\<rparr>"

text \<open>\<^verbatim>\<open>Object.assign(b, patch)\<close>.\<close>

definition assign :: "block_patch \<Rightarrow> block \<Rightarrow> block" where
  "assign p b =
     (let b1 = (case p_position p of None \<Rightarrow> b | Some v \<Rightarrow> b\<lparr>position := Some v\<rparr>);
          b2 = (case p_size p of None \<Rightarrow> b1 | Some v \<Rightarrow> b1\<lparr>block_size := v\<rparr>);
          b3 = (case p_rotation p of None \<Rightarrow> b2 | Some v \<Rightarrow> b2\<lparr>rotation := Some v\<rparr>);
          b4 = (case p_fontSize p of None \<Rightarrow> b3 | Some v \<Rightarrow> b3\<lparr>fontSize := Some v\<rparr>)
      in (case p_crop p of None \<Rightarrow> b4 | Some v \<Rightarrow> b4\<lparr>crop := Some v\<rparr>))"

definition no_patch :: block_patch where
  "no_patch = \<lparr>p_position = None, p_size = None, p_rotation = None, p_fontSize = None,
     p_crop = None\<rparr>"

definition updateBlock :: "string \<Rightarrow> block_patch \<Rightarrow> store \<Rightarrow> store" where
  "updateBlock i patch s = modify_block i (assign patch) s"

definition addGroup :: "group_spec \<Rightarrow> store \<Rightarrow> store" where
  "addGroup gs s =
     (let g = \<lparr>group_id = gs_id gs,
               childIds = (case gs_childIds gs of Some c \<Rightarrow> c
                           | None \<Rightarrow> (case gs_blockIds gs of Some c \<Rightarrow> c | None \<Rightarrow> [])),
               blockIds = (case gs_blockIds gs of Some c \<Rightarrow> c
                           | None \<Rightarrow> (case gs_childIds gs of Some c \<Rightarrow> c | None \<Rightarrow> [])),
               g_position = (case gs_position gs of Some p \<Rightarrow> p | None \<Rightarrow> Position 0 0),
               g_size = (case gs_size gs of Some z \<Rightarrow> z | None \<Rightarrow> Size (Some 0) (Some 0)),
               g_rotation = (case gs_rotation gs of Some r \<Rightarrow> r | None \<Rightarrow> 0),
               blockOffsets = (case gs_blockOffsets gs of Some m \<Rightarrow> m | None \<Rightarrow> [])\<rparr>;
          s1 = s\<lparr>groups := groups s @ [g]\<rparr>
      in fold (\<lambda>bid. modify_block bid (\<lambda>b. b\<lparr>groupId := Some (group_id g)\<rparr>))
           (childIds g) s1)"

text \<open>The iteration order of \<^verbatim>\<open>new Set(xs)\<close>: first occurrences, in order.\<close>

definition set_order :: "'a list \<Rightarrow> 'a list" where
  "set_order xs = rev (remdups (rev xs))"

text \<open>\<^verbatim>\<open>if (b && b.groupId === groupId) delete b.groupId\<close>, on the block with id
  \<open>bid\<close>.\<close>

definition drop_groupId :: "string \<Rightarrow> block \<Rightarrow> block" where
  "drop_groupId gid b = (if groupId b = Some gid then b\<lparr>groupId := None\<rparr> else b)"

definition detach :: "string \<Rightarrow> string \<Rightarrow> store \<Rightarrow> store" where
  "detach gid bid s = modify_block bid (drop_groupId gid) s"

text \<open>The parts of \<^verbatim>\<open>updateGroup\<close>: the \<^verbatim>\<open>blockIds\<close> alias of the patch, the two loops
  that keep \<^verbatim>\<open>block.groupId\<close> in step with a \<^verbatim>\<open>childIds\<close> patch, and the loop over the
  \<^verbatim>\<open>allowed\<close> keys.\<close>

definition normalize_ids :: "group_patch \<Rightarrow> group_patch" where
  "normalize_ids patch =
     (if gp_blockIds patch \<noteq> None \<and> gp_childIds patch = None
      then patch\<lparr>gp_childIds := gp_blockIds patch\<rparr> else patch)"

definition sync_members :: "string \<Rightarrow> string list \<Rightarrow> string list \<Rightarrow> store \<Rightarrow> store" where
  "sync_members gid old new s =
     (let oldChildIds = set_order old;
          newChildIds = set_order new;
          s1 = fold (detach gid) (filter (\<lambda>oldId. oldId \<notin> set newChildIds) oldChildIds) s
      in fold (\<lambda>newId. modify_block newId (\<lambda>b. b\<lparr>groupId := Some gid\<rparr>))
           (filter (\<lambda>newId. newId \<notin> set oldChildIds) newChildIds) s1)"

definition assign_allowed :: "group_patch \<Rightarrow> group \<Rightarrow> group" where
  "assign_allowed patch g =
     (let g1 = (case gp_position patch of None \<Rightarrow> g | Some v \<Rightarrow> g\<lparr>g_position := v\<rparr>);
          g2 = (case gp_size patch of None \<Rightarrow> g1 | Some v \<Rightarrow> g1\<lparr>g_size := v\<rparr>);
          g3 = (case gp_rotation patch of None \<Rightarrow> g2 | Some v \<Rightarrow> g2\<lparr>g_rotation := v\<rparr>)
      in (case gp_blockOffsets patch of None \<Rightarrow> g3 | Some v \<Rightarrow> g3\<lparr>blockOffsets := v\<rparr>))"

definition updateGroup :: "string \<Rightarrow> group_patch \<Rightarrow> store \<Rightarrow> store" where
  "updateGroup gid patch0 s =
     (case findIndex (\<lambda>g. group_id g = gid) (groups s) of
        None \<Rightarrow> s
      | Some gi \<Rightarrow>
         (let g = groups s ! gi;
              patch = normalize_ids patch0;
              s2 = (case gp_childIds patch of
                      None \<Rightarrow> s
                    | Some new \<Rightarrow> sync_members gid (childIds g) new s);
              g2 = (case gp_childIds patch of
                      None \<Rightarrow> g
                    | Some new \<Rightarrow> g\<lparr>childIds := new, blockIds := new\<rparr>)
          in s2\<lparr>groups := (groups s2)[gi := assign_allowed patch g2]\<rparr>))"

definition removeGroup :: "string \<Rightarrow> store \<Rightarrow> store" where
  "removeGroup gid s =
     (case findIndex (\<lambda>g. group_id g = gid) (groups s) of
        None \<Rightarrow> s
      | Some idx \<Rightarrow>
         (let g = groups s ! idx;
              s1 = fold (detach gid) (childIds g) s
          in s1\<lparr>groups := take idx (groups s1) @ drop (Suc idx) (groups s1)\<rparr>))"

section \<open>Commands\<close>

definition modify_activePage :: "(block list \<Rightarrow> block list) \<Rightarrow> store \<Rightarrow> store" where
  "modify_activePage f s =
     (case findIndex (\<lambda>p. Some (page_id p) = activePageId s) (pages s) of
        None \<Rightarrow> s
      | Some k \<Rightarrow> s\<lparr>pages := (pages s)[k := (pages s ! k)\<lparr>blocks := f (blocks (pages s ! k))\<rparr>]\<rparr>)"

definition patch_of_group :: "group \<Rightarrow> group_patch" where
  "patch_of_group g =
     \<lparr>gp_childIds = Some (childIds g), gp_blockIds = Some (blockIds g),
      gp_position = Some (g_position g), gp_size = Some (g_size g),
      gp_rotation = Some (g_rotation g), gp_blockOffsets = Some (blockOffsets g)\<rparr>"

definition updateBlocks :: "(string \<times> block_patch) list \<Rightarrow> store \<Rightarrow> store" where
  "updateBlocks entries s = fold (\<lambda>(i, patch). updateBlock i patch) entries s"

text \<open>
  \<^verbatim>\<open>do(store)\<close> and \<^verbatim>\<open>undo(store)\<close> of each factory. The result is the exception
  thrown, if any, the command with its closed-over variables as the call left them, and
  the store as the call left it. The only statement of these factories that can throw is
  \<^verbatim>\<open>page.blocks\<close> in \<^verbatim>\<open>GroupCommand\<close> when there is no active page.
\<close>

fun cmd_do :: "command \<Rightarrow> store \<Rightarrow> error option \<times> command \<times> store" where
  "cmd_do (MoveCommand bid oldP newP) s =
     (None, MoveCommand bid oldP newP, updateBlock bid (no_patch\<lparr>p_position := Some newP\<rparr>) s)"
| "cmd_do (ResizeCommand bid oldS newS oldP newP oldF newF) s =
     (None, ResizeCommand bid oldS newS oldP newP oldF newF,
      updateBlock bid (no_patch\<lparr>p_size := Some newS, p_position := newP, p_fontSize := newF\<rparr>) s)"
| "cmd_do (RotateCommand bid oldR newR childOld childNew) s =
     (None, RotateCommand bid oldR newR childOld childNew,
      (let s1 = updateBlock bid (no_patch\<lparr>p_rotation := Some newR\<rparr>) s
       in case childNew of None \<Rightarrow> s1 | Some entries \<Rightarrow> updateBlocks entries s1))"
| "cmd_do (CropCommand bid oldC newC) s =
     (None, CropCommand bid oldC newC, updateBlock bid (no_patch\<lparr>p_crop := Some newC\<rparr>) s)"
| "cmd_do (GroupCommand gid ids groupMeta oldGroups createdGroup) s =
     (case activePage s of
        None \<Rightarrow> (Some TypeError, GroupCommand gid ids groupMeta (Some Map.empty) createdGroup, s)
      | Some page \<Rightarrow>
         (let og = fold (\<lambda>b m. if block_id b \<in> set ids then m(block_id b \<mapsto> groupId b) else m)
                     (blocks page) Map.empty;
              s1 = modify_activePage
                     (map (\<lambda>b. if block_id b \<in> set ids then b\<lparr>groupId := Some gid\<rparr> else b)) s
          in case getGroupById s1 gid of
               None \<Rightarrow>
                 (None, GroupCommand gid ids groupMeta (Some og) True,
                  addGroup
                    \<lparr>gs_id = gid, gs_childIds = Some ids, gs_blockIds = None,
                     gs_position =
                       Some (case Option.bind groupMeta gs_position of
                               Some p \<Rightarrow> p | None \<Rightarrow> Position 0 0),
                     gs_size =
                       Some (case Option.bind groupMeta gs_size of
                               Some z \<Rightarrow> z | None \<Rightarrow> Size (Some 0) (Some 0)),
                     gs_rotation =
                       Some (case Option.bind groupMeta gs_rotation of
                               Some r \<Rightarrow> r | None \<Rightarrow> 0),
                     gs_blockOffsets = None\<rparr> s1)
             | Some existing \<Rightarrow>
                 (None, GroupCommand gid ids groupMeta (Some og) createdGroup,
                  updateGroup (group_id existing)
                    \<lparr>gp_childIds = Some (set_order (childIds existing @ ids)),
                     gp_blockIds = None, gp_position = None, gp_size = None,
                     gp_rotation = None, gp_blockOffsets = None\<rparr> s1)))"
| "cmd_do (GroupTransformCommand gid gb ga cb ca) s =
     (None, GroupTransformCommand gid gb ga cb ca,
      (let s1 = (case ga of None \<Rightarrow> s | Some g \<Rightarrow> updateGroup gid (patch_of_group g) s)
       in updateBlocks ca s1))"

fun cmd_undo :: "command \<Rightarrow> store \<Rightarrow> error option \<times> command \<times> store" where
  "cmd_undo (MoveCommand bid oldP newP) s =
     (None, MoveCommand bid oldP newP, updateBlock bid (no_patch\<lparr>p_position := Some oldP\<rparr>) s)"
| "cmd_undo (ResizeCommand bid oldS newS oldP newP oldF newF) s =
     (None, ResizeCommand bid oldS newS oldP newP oldF newF,
      updateBlock bid (no_patch\<lparr>p_size := Some oldS, p_position := oldP, p_fontSize := oldF\<rparr>) s)"
| "cmd_undo (RotateCommand bid oldR newR childOld childNew) s =
     (None, RotateCommand bid oldR newR childOld childNew,
      (let s1 = updateBlock bid (no_patch\<lparr>p_rotation := Some oldR\<rparr>) s
       in case childOld of None \<Rightarrow> s1 | Some entries \<Rightarrow> updateBlocks entries s1))"
| "cmd_undo (CropCommand bid oldC newC) s =
     (None, CropCommand bid oldC newC, updateBlock bid (no_patch\<lparr>p_crop := Some oldC\<rparr>) s)"
| "cmd_undo (GroupCommand gid ids groupMeta oldGroups createdGroup) s =
     (case activePage s of
        None \<Rightarrow> (Some TypeError, GroupCommand gid ids groupMeta oldGroups createdGroup, s)
      | Some page \<Rightarrow>
         (let s1 = modify_activePage
                     (map (\<lambda>b. if block_id b \<in> set ids
                               then b\<lparr>groupId :=
                                      (case oldGroups of None \<Rightarrow> None
                                       | Some m \<Rightarrow> (case m (block_id b) of
                                                      None \<Rightarrow> None | Some v \<Rightarrow> v))\<rparr>
                               else b)) s
          in (None, GroupCommand gid ids groupMeta oldGroups createdGroup,
              (if createdGroup then removeGroup gid s1
               else (case findIndex (\<lambda>g. group_id g = gid) (groups s1) of
                       None \<Rightarrow> s1
                     | Some gi \<Rightarrow>
                         s1\<lparr>groups := (groups s1)
                              [gi := (groups s1 ! gi)
                                 \<lparr>childIds := filter (\<lambda>i. i \<notin> set ids)
                                                (childIds (groups s1 ! gi))\<rparr>]\<rparr>)))))"
| "cmd_undo (GroupTransformCommand gid gb ga cb ca) s =
     (None, GroupTransformCommand gid gb ga cb ca,
      (let s1 = (case gb of None \<Rightarrow> s | Some g \<Rightarrow> updateGroup gid (patch_of_group g) s)
       in updateBlocks cb s1))"

section \<open>The command stack\<close>

text \<open>
  \<^verbatim>\<open>applyCommand\<close>, \<^verbatim>\<open>undo\<close> and \<^verbatim>\<open>redo\<close>. The \<^verbatim>\<open>push\<close> stands inside the
  \<^verbatim>\<open>try\<close> block after the call of the command, so a throwing call skips it; the
  \<^verbatim>\<open>catch\<close> only logs.
\<close>

definition applyCommand :: "command \<Rightarrow> store \<Rightarrow> store" where
  "applyCommand cmd s =
     (case cmd_do cmd s of
        (None, cmd', s') \<Rightarrow> s'\<lparr>undoStack := undoStack s' @ [cmd'], redoStack := []\<rparr>
      | (Some err, cmd', s') \<Rightarrow> s')"

definition undo :: "store \<Rightarrow> store" where
  "undo s =
     (if undoStack s = [] then s
      else (let cmd = last (undoStack s);
                s1 = s\<lparr>undoStack := butlast (undoStack s)\<rparr>
            in case cmd_undo cmd s1 of
                 (None, cmd', s') \<Rightarrow> s'\<lparr>redoStack := redoStack s' @ [cmd']\<rparr>
               | (Some err, cmd', s') \<Rightarrow> s'))"

definition redo :: "store \<Rightarrow> store" where
  "redo s =
     (if redoStack s = [] then s
      else (let cmd = last (redoStack s);
                s1 = s\<lparr>redoStack := butlast (redoStack s)\<rparr>
            in case cmd_do cmd s1 of
                 (None, cmd', s') \<Rightarrow> s'\<lparr>undoStack := undoStack s' @ [cmd']\<rparr>
               | (Some err, cmd', s') \<Rightarrow> s'))"

definition canUndo :: "store \<Rightarrow> bool" where
  "canUndo s = (length (undoStack s) > 0)"

definition canRedo :: "store \<Rightarrow> bool" where
  "canRedo s = (length (redoStack s) > 0)"

text \<open>\<^verbatim>\<open>createInfographicsStore(initialProject)\<close>: both stacks and the group list start
  empty.\<close>

definition createInfographicsStore :: "page list \<Rightarrow> string option \<Rightarrow> store" where
  "createInfographicsStore ps active =
     \<lparr>pages = ps,
      activePageId = (case active of Some a \<Rightarrow> Some a
                      | None \<Rightarrow> (case ps of [] \<Rightarrow> None | p # _ \<Rightarrow> Some (page_id p))),
      groups = [], undoStack = [], redoStack = []\<rparr>"

text \<open>
  The snapshot history of \<^verbatim>\<open>src/hooks/useInfographicData.js\<close>, the other history of
  the repository: \<^verbatim>\<open>snapshot\<close> appends the project to \<^verbatim>\<open>historyPast\<close> and shifts the
  oldest entry out once there are more than \<^verbatim>\<open>HISTORY_LIMIT\<close>.
\<close>

definition HISTORY_LIMIT :: nat where
  "HISTORY_LIMIT = 30"

definition snapshot :: "'p \<Rightarrow> 'p list \<Rightarrow> 'p list" where
  "snapshot project prev =
     (let next = prev @ [project]
      in if length next > HISTORY_LIMIT then tl next else next)"

text \<open>A store without pages, as \<^verbatim>\<open>createInfographicsStore()\<close> makes it, and the same store
  with one command on each stack.\<close>

definition no_page_store :: store where
  "no_page_store = createInfographicsStore [] None"

definition throwing_store :: store where
  "throwing_store =
     no_page_store
       \<lparr>undoStack := [GroupCommand ''g-1'' [''a''] None None False],
        redoStack := [GroupCommand ''g-2'' [''b''] None None False]\<rparr>"

section \<open>Sample data\<close>

text \<open>Blocks, groups and stores for the concrete cases below: an image block of 50 by 50 at
  (10, 10), a group record as \<^verbatim>\<open>addGroup\<close> makes it, a store with one page.\<close>

definition sample_block :: "string \<Rightarrow> string option \<Rightarrow> block" where
  "sample_block i g =
     \<lparr>block_id = i, block_type = ''image'', position = Some (Position 10 10),
      block_size = Some (Size (Some 50) (Some 50)), rotation = Some 0, fontSize = None,
      crop = None, groupId = g, locked = False\<rparr>"

definition sample_group :: "string \<Rightarrow> string list \<Rightarrow> group" where
  "sample_group i cs =
     \<lparr>group_id = i, childIds = cs, blockIds = cs, g_position = Position 0 0,
      g_size = Size (Some 0) (Some 0), g_rotation = 0, blockOffsets = []\<rparr>"

definition sample_store :: "block list \<Rightarrow> group list \<Rightarrow> store" where
  "sample_store bs gs =
     (createInfographicsStore [\<lparr>page_id = ''page_1'', blocks = bs\<rparr>] None)\<lparr>groups := gs\<rparr>"

text \<open>Block \<^verbatim>\<open>a\<close> is listed in \<^verbatim>\<open>g-1\<close> but has been reassigned to \<^verbatim>\<open>g-2\<close>.\<close>

definition reassigned_store :: store where
  "reassigned_store =
     sample_store [sample_block ''a'' (Some ''g-2''), sample_block ''b'' (Some ''g-1'')]
       [sample_group ''g-1'' [''a'', ''b''], sample_group ''g-2'' [''a'']]"

section \<open>Group membership\<close>

text \<open>
  The consistency of \<^verbatim>\<open>childIds\<close> with the \<^verbatim>\<open>groupId\<close> back-references, as the
  specification words it: a block points to a group exactly when the group lists it.
\<close>

definition all_blocks :: "store \<Rightarrow> block list" where
  "all_blocks s = concat (map blocks (pages s))"

definition consistent :: "store \<Rightarrow> bool" where
  "consistent s =
     (\<forall>g \<in> set (groups s). \<forall>b \<in> set (all_blocks s).
        (groupId b = Some (group_id g)) = (block_id b \<in> set (childIds g)))"

definition distinct_ids :: "store \<Rightarrow> bool" where
  "distinct_ids s =
     (distinct (map block_id (all_blocks s)) \<and> distinct (map group_id (groups s)))"

text \<open>
  None of the blocks with these ids is a member of a group of the store: its \<^verbatim>\<open>groupId\<close>
  is missing, or it is not the id of a group that exists (as when the caller has stamped
  the blocks with the id of the group it is about to add).
\<close>

definition in_no_group :: "store \<Rightarrow> string list \<Rightarrow> bool" where
  "in_no_group s ids =
     (\<forall>b \<in> set (all_blocks s). block_id b \<in> set ids \<longrightarrow>
        (case groupId b of
           None \<Rightarrow> True
         | Some g \<Rightarrow> g \<notin> set (map group_id (groups s))))"

datatype group_op =
    AddGroup group_spec
  | UpdateGroup string group_patch
  | RemoveGroup string

fun apply_group_op :: "group_op \<Rightarrow> store \<Rightarrow> store" where
  "apply_group_op (AddGroup gs) s = addGroup gs s"
| "apply_group_op (UpdateGroup gid patch) s = updateGroup gid patch s"
| "apply_group_op (RemoveGroup gid) s = removeGroup gid s"

text \<open>
  The calls that do not take a member away from another group: \<^verbatim>\<open>addGroup\<close> with an id
  that no group has, listing every block that already points to that id and otherwise
  blocks that are in no group; \<^verbatim>\<open>updateGroup\<close> whose added members are in no group;
  every \<^verbatim>\<open>removeGroup\<close>.
\<close>

fun op_allowed :: "store \<Rightarrow> group_op \<Rightarrow> bool" where
  "op_allowed s (AddGroup gs) =
     (let cs = (case gs_childIds gs of Some c \<Rightarrow> c
                | None \<Rightarrow> (case gs_blockIds gs of Some c \<Rightarrow> c | None \<Rightarrow> []))
      in gs_id gs \<notin> set (map group_id (groups s)) \<and>
         (\<forall>b \<in> set (all_blocks s). groupId b = Some (gs_id gs) \<longrightarrow> block_id b \<in> set cs) \<and>
         in_no_group s cs)"
| "op_allowed s (UpdateGroup gid patch) =
     (case getGroupById s gid of
        None \<Rightarrow> True
      | Some g \<Rightarrow>
          (case gp_childIds (normalize_ids patch) of
             None \<Rightarrow> True
           | Some new \<Rightarrow> in_no_group s (filter (\<lambda>i. i \<notin> set (childIds g)) new)))"
| "op_allowed s (RemoveGroup gid) = True"

fun run_group_ops :: "group_op list \<Rightarrow> store \<Rightarrow> store option" where
  "run_group_ops [] s = Some s"
| "run_group_ops (op # ops) s =
     (if op_allowed s op then run_group_ops ops (apply_group_op op s) else None)"

text \<open>Arguments for the concrete cases: \<^verbatim>\<open>addGroup({id, childIds})\<close> and
  \<^verbatim>\<open>updateGroup(id, {childIds})\<close>.\<close>

definition sample_spec :: "string \<Rightarrow> string list \<Rightarrow> group_spec" where
  "sample_spec i cs =
     \<lparr>gs_id = i, gs_childIds = Some cs, gs_blockIds = None, gs_position = None,
      gs_size = None, gs_rotation = None, gs_blockOffsets = None\<rparr>"

definition childIds_patch :: "string list \<Rightarrow> group_patch" where
  "childIds_patch cs =
     \<lparr>gp_childIds = Some cs, gp_blockIds = None, gp_position = None, gp_size = None,
      gp_rotation = None, gp_blockOffsets = None\<rparr>"

definition three_blocks :: store where
  "three_blocks =
     sample_store [sample_block ''a'' None, sample_block ''b'' None, sample_block ''c'' None] []"

text \<open>The blocks \<^verbatim>\<open>a\<close> and \<^verbatim>\<open>b\<close> stamped with the id of a group that is yet to be added, as
  the editor's \<^verbatim>\<open>handleCreateGroup\<close> does with \<^verbatim>\<open>updateBlock\<close> before it calls \<^verbatim>\<open>addGroup\<close>.\<close>

definition stamped_store :: store where
  "stamped_store =
     sample_store
       [sample_block ''a'' (Some ''g-1''), sample_block ''b'' (Some ''g-1''),
        sample_block ''c'' None]
       []"

text \<open>Group \<^verbatim>\<open>g-1\<close> with the members \<^verbatim>\<open>a\<close> and \<^verbatim>\<open>b\<close>, and an ungrouped block \<^verbatim>\<open>c\<close>.\<close>

definition grouped_store :: store where
  "grouped_store =
     sample_store
       [sample_block ''a'' (Some ''g-1''), sample_block ''b'' (Some ''g-1''),
        sample_block ''c'' None]
       [sample_group ''g-1'' [''a'', ''b'']]"

section \<open>Pointer interaction\<close>

text \<open>
  The session that \<^verbatim>\<open>beginInteraction\<close> stores in \<^verbatim>\<open>interactionRef\<close>. For a single block
  \<^verbatim>\<open>blockSnapshot\<close> is the snapshot of the block; for a group the payload holds the JSON
  clone of the group under both \<^verbatim>\<open>blockSnapshot\<close> and \<^verbatim>\<open>groupSnapshot\<close>, which is the
  field \<open>groupSnapshot\<close> here. Of the \<^verbatim>\<open>options\<close> only \<^verbatim>\<open>handle\<close> is modelled. The
  rectangles come from \<^verbatim>\<open>getBoundingClientRect\<close> and are inputs of the model.
\<close>

datatype itype = Move | Resize | Rotate | Crop

record rect =
  rect_left :: real
  rect_top :: real
  rect_width :: real
  rect_height :: real

record pointer_event =
  clientX :: real
  clientY :: real

record block_snapshot =
  bs_id :: string
  bs_position :: position
  bs_size :: bsize
  bs_rotation :: real
  bs_fontSize :: "real option"
  bs_type :: string
  bs_crop :: "crop option"

record child_snapshot =
  cs_id :: string
  cs_position :: position
  cs_size :: bsize
  cs_rotation :: real
  cs_fontSize :: "real option"

record interaction =
  i_type :: itype
  blockId :: string
  startX :: real
  startY :: real
  canvasRect :: rect
  blockSnapshot :: "block_snapshot option"
  groupSnapshot :: "group option"
  groupSnapshotPosition :: position
  groupBlockIds :: "string list"
  childSnapshots :: "child_snapshot list"
  i_blockOffsets :: "(string \<times> position) list"
  handle :: "string option"
  center :: "position option"
  startAngle :: "real option"
  initialRotation :: "real option"

definition isGroupId :: "string \<Rightarrow> bool" where
  "isGroupId i = prefix ''g-'' i"

text \<open>\<^verbatim>\<open>String.prototype.includes\<close>.\<close>

fun str_includes :: "string \<Rightarrow> string \<Rightarrow> bool" where
  "str_includes [] t = (t = [])"
| "str_includes (c # cs) t = (prefix t (c # cs) \<or> str_includes cs t)"

definition hasNumericSize :: "string \<Rightarrow> bsize option \<Rightarrow> bool" where
  "hasNumericSize t sz =
     (case sz of
        None \<Rightarrow> False
      | Some z \<Rightarrow> if t = ''text'' then width z \<noteq> None
                  else width z \<noteq> None \<and> height z \<noteq> None)"

text \<open>\<^verbatim>\<open>v ?? 0\<close>.\<close>

definition or0 :: "real option \<Rightarrow> real" where
  "or0 v = (case v of Some r \<Rightarrow> r | None \<Rightarrow> 0)"

text \<open>
  \<^verbatim>\<open>NaN\<close> is not a real number. Where the code computes it, the model has an unspecified
  value in its place, about which nothing can be proved.
\<close>

definition NaN :: real where
  "NaN = undefined"

text \<open>\<^verbatim>\<open>Math.atan2(y, x)\<close> on the reals (signed zeros are not modelled).\<close>

definition atan2 :: "real \<Rightarrow> real \<Rightarrow> real" where
  "atan2 y x =
     (if x > 0 then arctan (y / x)
      else if x < 0 then (if y \<ge> 0 then arctan (y / x) + pi else arctan (y / x) - pi)
      else if y > 0 then pi / 2
      else if y < 0 then - (pi / 2)
      else 0)"

text \<open>The remainder operator \<^verbatim>\<open>a % n\<close> of JavaScript: the quotient is truncated towards
  zero, so the result has the sign of \<open>a\<close>.\<close>

definition trunc :: "real \<Rightarrow> int" where
  "trunc t = (if t \<ge> 0 then \<lfloor>t\<rfloor> else \<lceil>t\<rceil>)"

definition js_rem :: "real \<Rightarrow> real \<Rightarrow> real" where
  "js_rem a n = a - n * of_int (trunc (a / n))"

record crop_values =
  cv_top :: real
  cv_right :: real
  cv_bottom :: real
  cv_left :: real

definition getCropValues :: "crop option \<Rightarrow> crop_values" where
  "getCropValues c =
     (case c of
        None \<Rightarrow> \<lparr>cv_top = 0, cv_right = 0, cv_bottom = 0, cv_left = 0\<rparr>
      | Some k \<Rightarrow> \<lparr>cv_top = or0 (crop_top k), cv_right = or0 (crop_right k),
                   cv_bottom = or0 (crop_bottom k), cv_left = or0 (crop_left k)\<rparr>)"

text \<open>\<^verbatim>\<open>clampCropValue(value, min = 0, max = 45)\<close>, called with one argument only.\<close>

definition clampCropValue :: "real \<Rightarrow> real" where
  "clampCropValue v = min (max v 0) 45"

text \<open>The object \<^verbatim>\<open>nextCrop\<close> as it is written to the block.\<close>

definition crop_of_values :: "crop_values \<Rightarrow> crop" where
  "crop_of_values c =
     \<lparr>crop_top = Some (cv_top c), crop_right = Some (cv_right c),
      crop_bottom = Some (cv_bottom c), crop_left = Some (cv_left c)\<rparr>"

text \<open>The snapshot of a child of a group, and of a single block, with the defaults of
  \<^verbatim>\<open>beginInteraction\<close>.\<close>

definition snapshot_child :: "block \<Rightarrow> child_snapshot" where
  "snapshot_child b =
     \<lparr>cs_id = block_id b,
      cs_position = (case position b of Some p \<Rightarrow> p | None \<Rightarrow> Position 0 0),
      cs_size = (case block_size b of Some z \<Rightarrow> z | None \<Rightarrow> Size (Some 0) (Some 0)),
      cs_rotation = or0 (rotation b),
      cs_fontSize = fontSize b\<rparr>"

definition snapshot_block :: "block \<Rightarrow> block_snapshot" where
  "snapshot_block b =
     \<lparr>bs_id = block_id b,
      bs_position = (case position b of Some p \<Rightarrow> p | None \<Rightarrow> Position 0 0),
      bs_size = (case block_size b of Some z \<Rightarrow> z | None \<Rightarrow> Size (Some 0) (Some 0)),
      bs_rotation = or0 (rotation b),
      bs_fontSize = fontSize b,
      bs_type = block_type b,
      bs_crop = crop b\<rparr>"

definition computedOffsets :: "group \<Rightarrow> string list \<Rightarrow> store \<Rightarrow> (string \<times> position) list" where
  "computedOffsets g ids s =
     fold (\<lambda>bid m.
             case getBlockById s bid of
               None \<Rightarrow> m
             | Some b \<Rightarrow>
                 AList.update bid
                   (Position
                      ((case position b of Some p \<Rightarrow> pos_x p | None \<Rightarrow> 0) - pos_x (g_position g))
                      ((case position b of Some p \<Rightarrow> pos_y p | None \<Rightarrow> 0) - pos_y (g_position g)))
                   m)
       ids []"

text \<open>
  \<^verbatim>\<open>beginInteraction(event, type, blockId, options)\<close>. The result is the payload put into
  \<^verbatim>\<open>interactionRef\<close>, or \<open>None\<close> where the function returns before it stores one (no
  canvas, unknown group or block, locked block).
\<close>

definition beginInteraction ::
  "rect option \<Rightarrow> pointer_event \<Rightarrow> itype \<Rightarrow> string \<Rightarrow> string option \<Rightarrow> store
     \<Rightarrow> interaction option" where
  "beginInteraction canvas event ty bid opt_handle s =
     (case canvas of
        None \<Rightarrow> None
      | Some cr \<Rightarrow>
         if isGroupId bid then
           (case getGroupById s bid of
              None \<Rightarrow> None
            | Some g \<Rightarrow>
               (let ids = childIds g;
                    snaps = List.map_filter
                              (\<lambda>i. map_option snapshot_child (getBlockById s i)) ids;
                    storedOffsets = blockOffsets g;
                    offs = (if storedOffsets \<noteq> [] then storedOffsets
                            else computedOffsets g ids s);
                    cx = rect_left cr + pos_x (g_position g) + or0 (width (g_size g)) / 2;
                    cy = rect_top cr + pos_y (g_position g) + or0 (height (g_size g)) / 2
                in Some
                    \<lparr>i_type = ty, blockId = bid, startX = clientX event, startY = clientY event,
                     canvasRect = cr, blockSnapshot = None, groupSnapshot = Some g,
                     groupSnapshotPosition = g_position g, groupBlockIds = ids,
                     childSnapshots = snaps, i_blockOffsets = offs, handle = opt_handle,
                     center = (if ty = Rotate then Some (Position cx cy) else None),
                     startAngle = (if ty = Rotate
                                   then Some (atan2 (clientY event - cy) (clientX event - cx))
                                   else None),
                     initialRotation = (if ty = Rotate then Some (g_rotation g) else None)\<rparr>))
         else
           (case getBlockById s bid of
              None \<Rightarrow> None
            | Some b \<Rightarrow>
               if locked b then None
               else
                 (let rot = (ty = Rotate \<and> hasNumericSize (block_type b) (block_size b));
                      sz = (case block_size b of Some z \<Rightarrow> z | None \<Rightarrow> Size None None);
                      px = (case position b of Some p \<Rightarrow> pos_x p | None \<Rightarrow> 0);
                      py = (case position b of Some p \<Rightarrow> pos_y p | None \<Rightarrow> 0);
                      cx = rect_left cr + px + or0 (width sz) / 2;
                      cy = rect_top cr + py + or0 (height sz) / 2
                  in Some
                      \<lparr>i_type = ty, blockId = bid, startX = clientX event,
                       startY = clientY event, canvasRect = cr,
                       blockSnapshot = Some (snapshot_block b), groupSnapshot = None,
                       groupSnapshotPosition = Position 0 0, groupBlockIds = [],
                       childSnapshots = [], i_blockOffsets = [], handle = opt_handle,
                       center = (if rot then Some (Position cx cy) else None),
                       startAngle = (if rot
                                     then Some (atan2 (clientY event - cy) (clientX event - cx))
                                     else None),
                       initialRotation = (if rot then Some (or0 (rotation b)) else None)\<rparr>)))"

subsection \<open>Geometry of a pointer move\<close>

text \<open>The clamp of a moved top-left corner against the workspace, with the effective
  (axis-aligned) size of the rotated box. Single blocks and groups use the same
  arithmetic.\<close>

definition clamp_to_workspace :: "rect \<Rightarrow> rect \<Rightarrow> bsize \<Rightarrow> real \<Rightarrow> position \<Rightarrow> position" where
  "clamp_to_workspace workspaceRect cr sz rot p =
     (let w = or0 (width sz);
          h = or0 (height sz);
          theta = rot * pi / 180;
          c = \<bar>cos theta\<bar>;
          sn = \<bar>sin theta\<bar>;
          effectiveW = \<bar>w * c\<bar> + \<bar>h * sn\<bar>;
          effectiveH = \<bar>w * sn\<bar> + \<bar>h * c\<bar>;
          workspaceLeftInCanvas = rect_left workspaceRect - rect_left cr;
          workspaceTopInCanvas = rect_top workspaceRect - rect_top cr;
          workspaceRightInCanvas = workspaceLeftInCanvas + rect_width workspaceRect;
          workspaceBottomInCanvas = workspaceTopInCanvas + rect_height workspaceRect;
          allowOutsideFactor = 9 / 10;
          minX = workspaceLeftInCanvas - effectiveW * allowOutsideFactor;
          minY = workspaceTopInCanvas - effectiveH * allowOutsideFactor;
          maxX = workspaceRightInCanvas - effectiveW;
          maxY = workspaceBottomInCanvas - effectiveH
      in Position (min (max (pos_x p) minX) maxX) (min (max (pos_y p) minY) maxY))"

text \<open>
  \<^verbatim>\<open>offsets[childId] || { x: 0, y: 0 }\<close>, where \<^verbatim>\<open>offsets\<close> is a plain object. The lookup
  finds the entry of the object itself, and without one a member that the object inherits
  from \<^verbatim>\<open>Object.prototype\<close>, when \<^verbatim>\<open>childId\<close> is the name of one. Such a member is a
  function or an object, so it is taken in place of the default; its \<^verbatim>\<open>x\<close> and \<^verbatim>\<open>y\<close> are
  \<^verbatim>\<open>undefined\<close>, and the sums computed with them are \<^verbatim>\<open>NaN\<close>.
\<close>

definition object_prototype_keys :: "string list" where
  "object_prototype_keys =
     [''constructor'', ''hasOwnProperty'', ''isPrototypeOf'', ''propertyIsEnumerable'',
      ''toLocaleString'', ''toString'', ''valueOf'', ''__proto__'', ''__defineGetter__'',
      ''__defineSetter__'', ''__lookupGetter__'', ''__lookupSetter__'']"

definition offset_of :: "(string \<times> position) list \<Rightarrow> string \<Rightarrow> position" where
  "offset_of offsets childId =
     (case map_of offsets childId of
        Some p \<Rightarrow> p
      | None \<Rightarrow> if childId \<in> set object_prototype_keys then Position NaN NaN
                else Position 0 0)"

definition position_patch :: "position \<Rightarrow> group_patch" where
  "position_patch p =
     \<lparr>gp_childIds = None, gp_blockIds = None, gp_position = Some p, gp_size = None,
      gp_rotation = None, gp_blockOffsets = None\<rparr>"

definition group_move :: "rect \<Rightarrow> pointer_event \<Rightarrow> interaction \<Rightarrow> store \<Rightarrow> store" where
  "group_move workspaceRect event i s =
     (let deltaX = clientX event - startX i;
          deltaY = clientY event - startY i;
          newGroup = Position (pos_x (groupSnapshotPosition i) + deltaX)
                       (pos_y (groupSnapshotPosition i) + deltaY);
          sz = (case groupSnapshot i of Some g \<Rightarrow> g_size g | None \<Rightarrow> Size None None);
          rot = (case groupSnapshot i of Some g \<Rightarrow> g_rotation g | None \<Rightarrow> 0);
          clamped = clamp_to_workspace workspaceRect (canvasRect i) sz rot newGroup;
          s1 = fold (\<lambda>childId.
                       updateBlock childId
                         (no_patch\<lparr>p_position :=
                            Some (Position
                              (pos_x clamped + pos_x (offset_of (i_blockOffsets i) childId))
                              (pos_y clamped + pos_y (offset_of (i_blockOffsets i) childId)))\<rparr>))
                 (groupBlockIds i) s
      in updateGroup (blockId i) (position_patch clamped) s1)"

text \<open>\<^verbatim>\<open>v || 1\<close> for a number.\<close>

definition or1 :: "real \<Rightarrow> real" where
  "or1 v = (if v = 0 then 1 else v)"

definition group_resize :: "pointer_event \<Rightarrow> interaction \<Rightarrow> store \<Rightarrow> store" where
  "group_resize event i s =
     (case (groupSnapshot i, handle i) of
        (Some g, Some h) \<Rightarrow>
          (let deltaX = clientX event - startX i;
               deltaY = clientY event - startY i;
               startWidth = or0 (width (g_size g));
               startHeight = or0 (height (g_size g));
               startX0 = pos_x (g_position g);
               startY0 = pos_y (g_position g);
               (w1, sx1) = (if str_includes h ''right''
                            then (max 40 (startWidth + deltaX),
                                  max 40 (startWidth + deltaX) / or1 startWidth)
                            else (startWidth, 1));
               (newGroupWidth, scaleX, newGroupX) =
                  (if str_includes h ''left''
                   then (max 40 (startWidth - deltaX),
                         max 40 (startWidth - deltaX) / or1 startWidth,
                         startX0 + (startWidth - max 40 (startWidth - deltaX)))
                   else (w1, sx1, startX0));
               (h1, sy1) = (if str_includes h ''bottom''
                            then (max 40 (startHeight + deltaY),
                                  max 40 (startHeight + deltaY) / or1 startHeight)
                            else (startHeight, 1));
               (newGroupHeight, scaleY, newGroupY) =
                  (if str_includes h ''top''
                   then (max 40 (startHeight - deltaY),
                         max 40 (startHeight - deltaY) / or1 startHeight,
                         startY0 + (startHeight - max 40 (startHeight - deltaY)))
                   else (h1, sy1, startY0));
               s1 = fold (\<lambda>bid st.
                            case find (\<lambda>c. cs_id c = bid) (childSnapshots i) of
                              None \<Rightarrow> st
                            | Some snap \<Rightarrow>
                               (let off = offset_of (i_blockOffsets i) bid;
                                    newSize = Size (map_option (\<lambda>w. w * scaleX) (width (cs_size snap)))
                                                (map_option (\<lambda>v. v * scaleY) (height (cs_size snap)));
                                    newFontSize =
                                      (case (getBlockById st bid, cs_fontSize snap) of
                                         (Some blk, Some f) \<Rightarrow>
                                            if block_type blk = ''text''
                                            then Some (f * min scaleX scaleY) else Some f
                                       | (_, f) \<Rightarrow> f)
                                in updateBlock bid
                                     (no_patch\<lparr>p_position :=
                                          Some (Position (newGroupX + pos_x off * scaleX)
                                                  (newGroupY + pos_y off * scaleY)),
                                        p_size := Some (Some newSize),
                                        p_fontSize := newFontSize\<rparr>) st))
                      (groupBlockIds i) s;
               newOffsets = map (\<lambda>(k, off). (k, Position (pos_x off * scaleX) (pos_y off * scaleY)))
                              (i_blockOffsets i)
           in updateGroup (blockId i)
                \<lparr>gp_childIds = None, gp_blockIds = None,
                 gp_position = Some (Position newGroupX newGroupY),
                 gp_size = Some (Size (Some newGroupWidth) (Some newGroupHeight)),
                 gp_rotation = None, gp_blockOffsets = Some newOffsets\<rparr> s1)
      | _ \<Rightarrow> s)"

definition getGroupBlockIds :: "group \<Rightarrow> string list" where
  "getGroupBlockIds g =
     (if childIds g \<noteq> [] then childIds g else if blockIds g \<noteq> [] then blockIds g else [])"

definition group_crop :: "pointer_event \<Rightarrow> interaction \<Rightarrow> store \<Rightarrow> store" where
  "group_crop event i s =
     (case (groupSnapshot i, handle i) of
        (Some g, Some h) \<Rightarrow>
          (let deltaX = clientX event - startX i;
               deltaY = clientY event - startY i;
               startWidth = or1 (or0 (width (g_size g)));
               startHeight = or1 (or0 (height (g_size g)));
               cropDeltaX = deltaX / startWidth * 100;
               cropDeltaY = deltaY / startHeight * 100
           in fold (\<lambda>bid st.
                      case getBlockById st bid of
                        None \<Rightarrow> st
                      | Some block \<Rightarrow>
                         if block_type block \<noteq> ''image'' then st
                         else
                          (let currentCrop = getCropValues (crop block);
                               n1 = (if h = ''left''
                                     then currentCrop\<lparr>cv_left :=
                                            clampCropValue (cv_left currentCrop + cropDeltaX)\<rparr>
                                     else currentCrop);
                               n2 = (if h = ''right''
                                     then n1\<lparr>cv_right :=
                                            clampCropValue (cv_right currentCrop - cropDeltaX)\<rparr>
                                     else n1);
                               n3 = (if h = ''top''
                                     then n2\<lparr>cv_top :=
                                            clampCropValue (cv_top currentCrop + cropDeltaY)\<rparr>
                                     else n2);
                               n4 = (if h = ''bottom''
                                     then n3\<lparr>cv_bottom :=
                                            clampCropValue (cv_bottom currentCrop - cropDeltaY)\<rparr>
                                     else n3);
                               totalHorizontal = cv_left n4 + cv_right n4;
                               totalVertical = cv_top n4 + cv_bottom n4;
                               n5 = (if totalHorizontal > 90
                                     then n4\<lparr>cv_left := cv_left n4 * (90 / totalHorizontal),
                                            cv_right := cv_right n4 * (90 / totalHorizontal)\<rparr>
                                     else n4);
                               n6 = (if totalVertical > 90
                                     then n5\<lparr>cv_top := cv_top n5 * (90 / totalVertical),
                                            cv_bottom := cv_bottom n5 * (90 / totalVertical)\<rparr>
                                     else n5)
                           in updateBlock bid (no_patch\<lparr>p_crop := Some (crop_of_values n6)\<rparr>) st))
                (getGroupBlockIds g) s)
      | _ \<Rightarrow> s)"

text \<open>The rotation that both rotate branches compute from the pointer.\<close>

definition rotate_degrees :: "real \<Rightarrow> real \<Rightarrow> real \<Rightarrow> real" where
  "rotate_degrees startAngle0 initialRotation0 currentAngle =
     js_rem ((currentAngle - startAngle0) * 180 / pi + initialRotation0) 360"

definition group_rotate :: "pointer_event \<Rightarrow> interaction \<Rightarrow> store \<Rightarrow> store" where
  "group_rotate event i s =
     (case (groupSnapshot i, center i, startAngle i, initialRotation i) of
        (Some g, Some c, Some sa, Some ir) \<Rightarrow>
          (let currentAngle = atan2 (clientY event - pos_y c) (clientX event - pos_x c);
               deltaAngle = currentAngle - sa;
               degrees = rotate_degrees sa ir currentAngle;
               deltaDegrees = deltaAngle * 180 / pi;
               groupCx = pos_x (g_position g) + or0 (width (g_size g)) / 2;
               groupCy = pos_y (g_position g) + or0 (height (g_size g)) / 2;
               updates =
                 fold (\<lambda>snap m.
                         (let newRotation = cs_rotation snap + deltaDegrees;
                              childWidth = or0 (width (cs_size snap));
                              childHeight = or0 (height (cs_size snap));
                              dx = pos_x (cs_position snap) + childWidth / 2 - groupCx;
                              dy = pos_y (cs_position snap) + childHeight / 2 - groupCy;
                              newDx = dx * cos deltaAngle - dy * sin deltaAngle;
                              newDy = dx * sin deltaAngle + dy * cos deltaAngle
                          in AList.update (cs_id snap)
                               (no_patch\<lparr>p_rotation := Some newRotation,
                                  p_position :=
                                    Some (Position (groupCx + newDx - childWidth / 2)
                                            (groupCy + newDy - childHeight / 2))\<rparr>) m))
                   (childSnapshots i) [];
               s1 = updateBlocks updates s;
               newBlockOffsets =
                 map (\<lambda>(bid, patch).
                        (bid, Position
                           (or0 (map_option pos_x (p_position patch)) - pos_x (g_position g))
                           (or0 (map_option pos_y (p_position patch)) - pos_y (g_position g))))
                   updates;
               merged = fold (\<lambda>(k, v). AList.update k v) newBlockOffsets
                          (case getGroupById s1 (blockId i) of
                             Some cur \<Rightarrow> blockOffsets cur | None \<Rightarrow> [])
           in updateGroup (blockId i)
                \<lparr>gp_childIds = None, gp_blockIds = None, gp_position = None, gp_size = None,
                 gp_rotation = Some degrees, gp_blockOffsets = Some merged\<rparr> s1)
      | _ \<Rightarrow> s)"

definition single_move :: "rect \<Rightarrow> pointer_event \<Rightarrow> interaction \<Rightarrow> block_snapshot \<Rightarrow> store \<Rightarrow> store" where
  "single_move workspaceRect event i bSnap s =
     (let deltaX = clientX event - startX i;
          deltaY = clientY event - startY i;
          next = Position (pos_x (bs_position bSnap) + deltaX) (pos_y (bs_position bSnap) + deltaY);
          clamped = clamp_to_workspace workspaceRect (canvasRect i) (bs_size bSnap)
                      (bs_rotation bSnap) next
      in updateBlock (bs_id bSnap) (no_patch\<lparr>p_position := Some clamped\<rparr>) s)"

text \<open>
  The default resize along one axis, which the handler writes out twice, for x with the
  handles \<^verbatim>\<open>right\<close> and \<^verbatim>\<open>left\<close> and for y with \<^verbatim>\<open>bottom\<close> and \<^verbatim>\<open>top\<close>: \<open>far\<close> says
  that the handle names the far edge (right, bottom), \<open>near\<close> that it names the near one
  (left, top); \<open>limit\<close> is the extent of the canvas. The result is the new start and the
  new extent, with \<^verbatim>\<open>minSize = 40\<close>.
\<close>

definition resize_axis :: "real \<Rightarrow> real \<Rightarrow> real \<Rightarrow> bool \<Rightarrow> bool \<Rightarrow> real \<Rightarrow> real \<times> real" where
  "resize_axis limit start0 extent0 far near delta =
     (let minSize = 40;
          e1 = (if far then max minSize (min (extent0 + delta) (limit - start0)) else extent0)
      in if near
         then (let farEdge = start0 + extent0;
                   newStart = max 0 (min (start0 + delta) (farEdge - minSize))
               in (newStart, farEdge - newStart))
         else (start0, e1))"

text \<open>
  \<^verbatim>\<open>scale = newWidth / startWidth; scale = Math.max(0.5, Math.min(scale, 3))\<close>. For a
  start width of 0 the quotient of JavaScript is \<^verbatim>\<open>Infinity\<close> (clamped to 3) for a positive
  new width, \<^verbatim>\<open>-Infinity\<close> (clamped to 0.5) for a negative one, and \<^verbatim>\<open>NaN\<close> for 0, which
  both \<^verbatim>\<open>Math.min\<close> and \<^verbatim>\<open>Math.max\<close> hand on (the result \<open>None\<close>); the font size written
  is then \<^verbatim>\<open>NaN\<close> as well.
\<close>

definition clamped_scale :: "real \<Rightarrow> real \<Rightarrow> real option" where
  "clamped_scale newWidth startWidth =
     (if startWidth \<noteq> 0 then Some (max (1 / 2) (min (newWidth / startWidth) 3))
      else if 0 < newWidth then Some 3
      else if newWidth < 0 then Some (1 / 2)
      else None)"

text \<open>
  The patch of the single-block resize branch, for a snapshot with a numeric size. A text
  block dragged by its top-left handle is scaled (width and font size); every other case
  is the default resize.
\<close>

definition resize_patch :: "rect \<Rightarrow> block_snapshot \<Rightarrow> string \<Rightarrow> real \<Rightarrow> real \<Rightarrow> block_patch" where
  "resize_patch cr snap h deltaX deltaY =
     (if bs_type snap = ''text'' \<and> h = ''top-left'' then
        (let startWidth = or0 (width (bs_size snap));
             minWidth = 20;
             rightEdge = pos_x (bs_position snap) + startWidth;
             maxLeft = rightEdge - minWidth;
             newLeft = max 0 (min (pos_x (bs_position snap) + deltaX) maxLeft);
             newWidth = rightEdge - newLeft;
             startFontSize = (case bs_fontSize snap of Some f \<Rightarrow> f | None \<Rightarrow> 16);
             newFontSize = (case clamped_scale newWidth startWidth of
                              Some scale \<Rightarrow> startFontSize * scale
                            | None \<Rightarrow> NaN)
         in no_patch\<lparr>p_position := Some (Position newLeft (pos_y (bs_position snap))),
              p_size := Some (Some (Size (Some newWidth) (height (bs_size snap)))),
              p_fontSize := Some newFontSize\<rparr>)
      else
        (let startWidth = or0 (width (bs_size snap));
             startHeight = height (bs_size snap);
             (nextX, nextWidth) =
                resize_axis (rect_width cr) (pos_x (bs_position snap)) startWidth
                  (str_includes h ''right'') (str_includes h ''left'') deltaX;
             (nextY, nextHeight) =
                (case startHeight of
                   Some sh \<Rightarrow>
                     resize_axis (rect_height cr) (pos_y (bs_position snap)) sh
                       (str_includes h ''bottom'') (str_includes h ''top'') deltaY
                 | None \<Rightarrow> (pos_y (bs_position snap), 0))
         in no_patch\<lparr>p_position := Some (Position nextX nextY),
              p_size := Some (Some (Size (Some nextWidth)
                                    (case startHeight of Some sh \<Rightarrow> Some nextHeight
                                     | None \<Rightarrow> None)))\<rparr>))"

text \<open>
  The insets of the single-block crop branch: from the insets of the snapshot, the handle,
  the size of the block and the pointer delta to \<^verbatim>\<open>nextCrop\<close>.
\<close>

definition clamp100 :: "real \<Rightarrow> real" where
  "clamp100 v = min (max v 0) 100"

definition MIN_VISIBLE_PERCENT :: real where
  "MIN_VISIBLE_PERCENT = 1"

definition crop_drag :: "crop_values \<Rightarrow> string \<Rightarrow> real \<Rightarrow> real \<Rightarrow> crop_values" where
  "crop_drag cropSnapshot h dxPercent dyPercent =
     (let n1 = (if h = ''left''
                then cropSnapshot\<lparr>cv_left :=
                       min (clamp100 (cv_left cropSnapshot + dxPercent))
                         (100 - cv_right cropSnapshot - MIN_VISIBLE_PERCENT)\<rparr>
                else cropSnapshot);
          n2 = (if h = ''right''
                then n1\<lparr>cv_right :=
                       min (clamp100 (cv_right cropSnapshot - dxPercent))
                         (100 - cv_left cropSnapshot - MIN_VISIBLE_PERCENT)\<rparr>
                else n1);
          n3 = (if h = ''top''
                then n2\<lparr>cv_top :=
                       min (clamp100 (cv_top cropSnapshot + dyPercent))
                         (100 - cv_bottom cropSnapshot - MIN_VISIBLE_PERCENT)\<rparr>
                else n2)
      in (if h = ''bottom''
          then n3\<lparr>cv_bottom :=
                 min (clamp100 (cv_bottom cropSnapshot - dyPercent))
                   (100 - cv_top cropSnapshot - MIN_VISIBLE_PERCENT)\<rparr>
          else n3))"

text \<open>The ``final safety'' of the branch: every edge clamped once more, then the visible
  span of each axis checked.\<close>

definition clamp_edges :: "crop_values \<Rightarrow> crop_values" where
  "clamp_edges c =
     \<lparr>cv_top = clamp100 (cv_top c), cv_right = clamp100 (cv_right c),
      cv_bottom = clamp100 (cv_bottom c), cv_left = clamp100 (cv_left c)\<rparr>"

definition nudge_horizontal :: "string \<Rightarrow> crop_values \<Rightarrow> crop_values" where
  "nudge_horizontal h c =
     (let visibleH = 100 - (cv_left c + cv_right c)
      in if visibleH < MIN_VISIBLE_PERCENT then
           (if h = ''left''
            then c\<lparr>cv_left := 100 - cv_right c - MIN_VISIBLE_PERCENT\<rparr>
            else if h = ''right''
            then c\<lparr>cv_right := 100 - cv_left c - MIN_VISIBLE_PERCENT\<rparr>
            else (let excess = MIN_VISIBLE_PERCENT - visibleH
                  in c\<lparr>cv_left := clamp100 (cv_left c - excess / 2),
                       cv_right := clamp100 (cv_right c - excess / 2)\<rparr>))
         else c)"

definition nudge_vertical :: "string \<Rightarrow> crop_values \<Rightarrow> crop_values" where
  "nudge_vertical h c =
     (let visibleV = 100 - (cv_top c + cv_bottom c)
      in if visibleV < MIN_VISIBLE_PERCENT then
           (if h = ''top''
            then c\<lparr>cv_top := 100 - cv_bottom c - MIN_VISIBLE_PERCENT\<rparr>
            else if h = ''bottom''
            then c\<lparr>cv_bottom := 100 - cv_top c - MIN_VISIBLE_PERCENT\<rparr>
            else (let excess = MIN_VISIBLE_PERCENT - visibleV
                  in c\<lparr>cv_top := clamp100 (cv_top c - excess / 2),
                       cv_bottom := clamp100 (cv_bottom c - excess / 2)\<rparr>))
         else c)"

definition crop_move :: "crop_values \<Rightarrow> string \<Rightarrow> real \<Rightarrow> real \<Rightarrow> real \<Rightarrow> real \<Rightarrow> crop_values" where
  "crop_move cropSnapshot h w ht deltaX deltaY =
     (let dxPercent = (if w > 0 then deltaX / w * 100 else 0);
          dyPercent = (if ht > 0 then deltaY / ht * 100 else 0)
      in nudge_vertical h
           (nudge_horizontal h (clamp_edges (crop_drag cropSnapshot h dxPercent dyPercent))))"

text \<open>
  \<^verbatim>\<open>handlePointerMove(event)\<close>: the group branches first, each of which returns, then
  the single-block branches. The scheduling of DOM measurements is not part of the model.
  In the single rotate branch \<^verbatim>\<open>center\<close> is missing when the block had no numeric size
  at pointer-down; reading \<^verbatim>\<open>center.y\<close> then throws and nothing is written.
\<close>

definition handlePointerMove :: "rect \<Rightarrow> pointer_event \<Rightarrow> interaction option \<Rightarrow> store \<Rightarrow> store" where
  "handlePointerMove workspaceRect event interactionRef s =
     (case interactionRef of
        None \<Rightarrow> s
      | Some i \<Rightarrow>
         if isGroupId (blockId i) then
           (case i_type i of
              Move \<Rightarrow> group_move workspaceRect event i s
            | Resize \<Rightarrow> group_resize event i s
            | Crop \<Rightarrow> group_crop event i s
            | Rotate \<Rightarrow> group_rotate event i s)
         else
           (case blockSnapshot i of
              None \<Rightarrow> s
            | Some snap \<Rightarrow>
               (case i_type i of
                  Move \<Rightarrow> single_move workspaceRect event i snap s
                | Resize \<Rightarrow>
                   if hasNumericSize (bs_type snap) (Some (bs_size snap)) then
                     (case handle i of
                        None \<Rightarrow> s
                      | Some h \<Rightarrow>
                         updateBlock (bs_id snap)
                           (resize_patch (canvasRect i) snap h
                              (clientX event - startX i) (clientY event - startY i)) s)
                   else s
                | Crop \<Rightarrow>
                   if bs_type snap = ''image'' \<and> hasNumericSize (bs_type snap) (Some (bs_size snap))
                   then
                     (case handle i of
                        None \<Rightarrow> s
                      | Some h \<Rightarrow>
                         updateBlock (bs_id snap)
                           (no_patch\<lparr>p_crop :=
                              Some (crop_of_values
                                (crop_move (getCropValues (bs_crop snap)) h
                                   (or0 (width (bs_size snap))) (or0 (height (bs_size snap)))
                                   (clientX event - startX i) (clientY event - startY i)))\<rparr>) s)
                   else s
                | Rotate \<Rightarrow>
                   if hasNumericSize (bs_type snap) (Some (bs_size snap)) then
                     (case (center i, startAngle i, initialRotation i) of
                        (Some c, Some sa, Some ir) \<Rightarrow>
                          updateBlock (bs_id snap)
                            (no_patch\<lparr>p_rotation :=
                               Some (rotate_degrees sa ir
                                       (atan2 (clientY event - pos_y c) (clientX event - pos_x c)))\<rparr>) s
                      | _ \<Rightarrow> s)
                   else s)))"

subsection \<open>Pointer up\<close>

definition before_patch :: "child_snapshot \<Rightarrow> block_patch" where
  "before_patch c =
     \<lparr>p_position = Some (cs_position c), p_size = Some (Some (cs_size c)),
      p_rotation = Some (cs_rotation c), p_fontSize = cs_fontSize c, p_crop = None\<rparr>"

definition after_patch :: "block \<Rightarrow> block_patch" where
  "after_patch b =
     \<lparr>p_position = position b, p_size = map_option Some (block_size b),
      p_rotation = rotation b, p_fontSize = fontSize b, p_crop = None\<rparr>"

text \<open>
  \<^verbatim>\<open>endInteraction()\<close>. The comparisons of \<^verbatim>\<open>JSON.stringify\<close> outputs are equalities of
  the compared values (the order of the keys of an object is not modelled). The result is
  the store; \<^verbatim>\<open>interactionRef\<close> is cleared on every path.
\<close>

definition endInteraction :: "interaction option \<Rightarrow> store \<Rightarrow> store" where
  "endInteraction interactionRef s =
     (case interactionRef of
        None \<Rightarrow> s
      | Some i \<Rightarrow>
         if isGroupId (blockId i) then
           (let groupBefore = groupSnapshot i;
                groupAfter = getGroupById s (blockId i);
                childBefore = fold (\<lambda>c. AList.update (cs_id c) (before_patch c))
                                (childSnapshots i) [];
                ids = (case groupAfter of
                         Some g \<Rightarrow> if childIds g \<noteq> [] then childIds g else groupBlockIds i
                       | None \<Rightarrow> groupBlockIds i);
                childAfter = fold (\<lambda>cid m.
                                     case getBlockById s cid of
                                       None \<Rightarrow> m
                                     | Some b \<Rightarrow> AList.update cid (after_patch b) m)
                               ids []
            in if (groupBefore, childBefore) \<noteq> (groupAfter, childAfter)
               then applyCommand
                      (GroupTransformCommand (blockId i) groupBefore groupAfter childBefore
                         childAfter) s
               else s)
         else
           (case blockSnapshot i of
              None \<Rightarrow> s
            | Some snap \<Rightarrow>
               (case getBlockById s (bs_id snap) of
                  None \<Rightarrow> s
                | Some current \<Rightarrow>
                   (case i_type i of
                      Move \<Rightarrow>
                        (case position current of
                           None \<Rightarrow> s
                         | Some afterPos \<Rightarrow>
                             if pos_x (bs_position snap) \<noteq> pos_x afterPos
                                \<or> pos_y (bs_position snap) \<noteq> pos_y afterPos
                             then applyCommand
                                    (MoveCommand (bs_id snap) (bs_position snap) afterPos) s
                             else s)
                    | Resize \<Rightarrow>
                        if Some (bs_size snap) \<noteq> block_size current
                           \<or> Some (bs_position snap) \<noteq> position current
                           \<or> bs_fontSize snap \<noteq> fontSize current
                        then applyCommand
                               (ResizeCommand (bs_id snap) (Some (bs_size snap))
                                  (block_size current) (Some (bs_position snap))
                                  (position current) (bs_fontSize snap) (fontSize current)) s
                        else s
                    | Rotate \<Rightarrow>
                        if bs_rotation snap \<noteq> or0 (rotation current)
                        then applyCommand
                               (RotateCommand (bs_id snap) (bs_rotation snap)
                                  (or0 (rotation current)) None None) s
                        else s
                    | Crop \<Rightarrow>
                        (let empty = \<lparr>crop_top = None, crop_right = None, crop_bottom = None,
                                        crop_left = None\<rparr>;
                             beforeCrop = (case bs_crop snap of Some c \<Rightarrow> c | None \<Rightarrow> empty);
                             afterCrop = (case crop current of Some c \<Rightarrow> c | None \<Rightarrow> empty)
                         in if beforeCrop \<noteq> afterCrop
                            then applyCommand (CropCommand (bs_id snap) beforeCrop afterCrop) s
                            else s)))))"

subsection \<open>Gestures\<close>

text \<open>
  A run of pointer moves against the session in \<^verbatim>\<open>interactionRef\<close>, each with the
  workspace rectangle the handler reads at that moment; and a whole move gesture on the
  target \<open>bid\<close>: pointer down, the moves, pointer up.
\<close>

definition pointer_moves :: "(rect \<times> pointer_event) list \<Rightarrow> interaction option \<Rightarrow> store \<Rightarrow> store" where
  "pointer_moves moves interactionRef s =
     fold (\<lambda>(workspaceRect, event). handlePointerMove workspaceRect event interactionRef) moves s"

type_synonym gesture = "rect option \<times> pointer_event \<times> string option \<times> (rect \<times> pointer_event) list"

definition gesture :: "itype \<Rightarrow> string \<Rightarrow> gesture \<Rightarrow> store \<Rightarrow> store" where
  "gesture ty bid g s =
     (case g of (canvas, down, opt_handle, moves) \<Rightarrow>
        (let interactionRef = beginInteraction canvas down ty bid opt_handle s
         in endInteraction interactionRef (pointer_moves moves interactionRef s)))"

text \<open>
  What the specification asks of a group after a move: the group \<open>gid\<close> has the members
  \<open>cs\<close> and the stored offsets \<open>offs\<close>, and every member that exists stands at the
  position of the group plus its stored offset, the entry that \<open>offs\<close> has for it.
\<close>

definition has_group :: "string \<Rightarrow> string list \<Rightarrow> (string \<times> position) list \<Rightarrow> store \<Rightarrow> bool" where
  "has_group gid cs offs s =
     (\<exists>g. getGroupById s gid = Some g \<and> childIds g = cs \<and> blockOffsets g = offs)"

definition moved_ok :: "string \<Rightarrow> string list \<Rightarrow> (string \<times> position) list \<Rightarrow> store \<Rightarrow> bool" where
  "moved_ok gid cs offs s =
     (\<exists>g. getGroupById s gid = Some g \<and> childIds g = cs \<and> blockOffsets g = offs \<and>
        (\<forall>cid \<in> set cs. \<forall>b. getBlockById s cid = Some b \<longrightarrow>
           (\<exists>off. map_of offs cid = Some off \<and>
              position b = Some (Position (pos_x (g_position g) + pos_x off)
                                   (pos_y (g_position g) + pos_y off)))))"

text \<open>
  The second scenario of the specification: group \<^verbatim>\<open>g-1\<close> at (10, 10) with the children
  \<^verbatim>\<open>a\<close>, offset (0, 0), and \<^verbatim>\<open>b\<close>, offset (30, 0); a canvas of 260 by 551 at (100, 100)
  of the viewport inside a workspace of 1000 by 1000.
\<close>

definition offsets_store :: store where
  "offsets_store =
     sample_store
       [(sample_block ''a'' (Some ''g-1''))\<lparr>position := Some (Position 10 10)\<rparr>,
        (sample_block ''b'' (Some ''g-1''))\<lparr>position := Some (Position 40 10)\<rparr>]
       [(sample_group ''g-1'' [''a'', ''b''])
          \<lparr>g_position := Position 10 10, g_size := Size (Some 80) (Some 50),
           blockOffsets := [(''a'', Position 0 0), (''b'', Position 30 0)]\<rparr>]"

definition sample_canvas :: rect where
  "sample_canvas = \<lparr>rect_left = 100, rect_top = 100, rect_width = 260, rect_height = 551\<rparr>"

definition sample_workspace :: rect where
  "sample_workspace = \<lparr>rect_left = 0, rect_top = 0, rect_width = 1000, rect_height = 1000\<rparr>"

definition pointer :: "real \<Rightarrow> real \<Rightarrow> pointer_event" where
  "pointer px py = \<lparr>clientX = px, clientY = py\<rparr>"

subsection \<open>Crop bounds\<close>

text \<open>The bounds that the single-block branch enforces on the edge it moves: each inset
  within 0 and 100, and at least \<^verbatim>\<open>MIN_VISIBLE_PERCENT\<close> of the image left visible on each
  axis.\<close>

definition crop_ok :: "crop_values \<Rightarrow> bool" where
  "crop_ok c =
     (0 \<le> cv_top c \<and> cv_top c \<le> 100 \<and> 0 \<le> cv_right c \<and> cv_right c \<le> 100 \<and>
      0 \<le> cv_bottom c \<and> cv_bottom c \<le> 100 \<and> 0 \<le> cv_left c \<and> cv_left c \<le> 100 \<and>
      cv_left c + cv_right c \<le> 100 - MIN_VISIBLE_PERCENT \<and>
      cv_top c + cv_bottom c \<le> 100 - MIN_VISIBLE_PERCENT)"

text \<open>A sequence of crop moves, each from the insets the previous one wrote: handle, width
  and height of the block, pointer delta.\<close>

definition crop_moves :: "(string \<times> real \<times> real \<times> real \<times> real) list \<Rightarrow> crop_values \<Rightarrow> crop_values" where
  "crop_moves steps c =
     fold (\<lambda>(h, w, ht, deltaX, deltaY) c. crop_move c h w ht deltaX deltaY) steps c"

definition no_crop :: crop_values where
  "no_crop = \<lparr>cv_top = 0, cv_right = 0, cv_bottom = 0, cv_left = 0\<rparr>"

definition half_half :: crop_values where
  "half_half = \<lparr>cv_top = 0, cv_right = 50, cv_bottom = 0, cv_left = 50\<rparr>"

text \<open>The session of a rotate gesture on block \<^verbatim>\<open>a\<close> of \<^verbatim>\<open>three_blocks\<close>: the centre of
  the block is at (135, 135) of the viewport and the pointer goes down 100 pixels to its
  right.\<close>

definition rotate_session :: interaction where
  "rotate_session =
     \<lparr>i_type = Rotate, blockId = ''a'', startX = 235, startY = 135,
      canvasRect = sample_canvas,
      blockSnapshot = Some (snapshot_block (sample_block ''a'' None)),
      groupSnapshot = None, groupSnapshotPosition = Position 0 0, groupBlockIds = [],
      childSnapshots = [], i_blockOffsets = [], handle = None,
      center = Some (Position 135 135), startAngle = Some 0, initialRotation = Some 0\<rparr>"

text \<open>A block that hangs 20 pixels over the left edge of the canvas, and a text block.\<close>

definition left_overhang :: store where
  "left_overhang =
     sample_store [(sample_block ''a'' None)\<lparr>position := Some (Position (- 20) 10)\<rparr>] []"

definition text_store :: store where
  "text_store =
     sample_store [(sample_block ''t'' None)\<lparr>block_type := ''text'', fontSize := Some 20\<rparr>] []"

text \<open>The first scenario of the specification: the bottom-right handle of block \<^verbatim>\<open>a\<close> of
  \<^verbatim>\<open>three_blocks\<close> dragged by (20, 0).\<close>

definition drag_bottom_right :: gesture where
  "drag_bottom_right =
     (Some sample_canvas, pointer 300 300, Some ''bottom-right'',
      [(sample_workspace, pointer 320 300)])"

text \<open>The store of the second scenario with a child that has no \<^verbatim>\<open>rotation\<close> property, as
  the text blocks of the sample data, and a press and release on one point, with one
  pointer move to that same point in between.\<close>

definition unrotated_child_store :: store where
  "unrotated_child_store =
     sample_store
       [(sample_block ''a'' (Some ''g-1''))\<lparr>position := Some (Position 10 10), rotation := None\<rparr>,
        (sample_block ''b'' (Some ''g-1''))\<lparr>position := Some (Position 40 10)\<rparr>]
       [(sample_group ''g-1'' [''a'', ''b''])
          \<lparr>g_position := Position 10 10, g_size := Size (Some 80) (Some 50),
           blockOffsets := [(''a'', Position 0 0), (''b'', Position 30 0)]\<rparr>]"

definition press_and_release :: gesture where
  "press_and_release =
     (Some sample_canvas, pointer 200 200, None, [(sample_workspace, pointer 200 200)])"

text \<open>An image block whose stored crop hides the whole width from the left; and the group
  \<^verbatim>\<open>g-1\<close>, 80 wide, with one image child that is cropped by 55 percent from the right.\<close>

definition full_left_crop :: store where
  "full_left_crop =
     sample_store
       [(sample_block ''a'' None)\<lparr>crop := Some (crop_of_values (no_crop\<lparr>cv_left := 100\<rparr>))\<rparr>] []"

definition cropped_child_store :: store where
  "cropped_child_store =
     sample_store
       [(sample_block ''a'' (Some ''g-1''))
          \<lparr>crop := Some (crop_of_values (no_crop\<lparr>cv_right := 55\<rparr>))\<rparr>]
       [(sample_group ''g-1'' [''a''])
          \<lparr>g_position := Position 10 10, g_size := Size (Some 80) (Some 50)\<rparr>]"

text \<open>What \<^verbatim>\<open>beginInteraction\<close> stores for a press on group \<^verbatim>\<open>g-1\<close> at (200, 200), in
  \<^verbatim>\<open>offsets_store\<close> and in \<^verbatim>\<open>unrotated_child_store\<close> alike: the snapshot of a child takes
  the rotation 0 for a missing one.\<close>

definition press_session :: interaction where
  "press_session =
     \<lparr>i_type = Move, blockId = ''g-1'', startX = 200, startY = 200,
      canvasRect = sample_canvas, blockSnapshot = None,
      groupSnapshot =
        Some ((sample_group ''g-1'' [''a'', ''b''])
                \<lparr>g_position := Position 10 10, g_size := Size (Some 80) (Some 50),
                 blockOffsets := [(''a'', Position 0 0), (''b'', Position 30 0)]\<rparr>),
      groupSnapshotPosition = Position 10 10, groupBlockIds = [''a'', ''b''],
      childSnapshots =
        [\<lparr>cs_id = ''a'', cs_position = Position 10 10, cs_size = Size (Some 50) (Some 50),
          cs_rotation = 0, cs_fontSize = None\<rparr>,
         \<lparr>cs_id = ''b'', cs_position = Position 40 10, cs_size = Size (Some 50) (Some 50),
          cs_rotation = 0, cs_fontSize = None\<rparr>],
      i_blockOffsets = [(''a'', Position 0 0), (''b'', Position 30 0)], handle = None,
      center = None, startAngle = None, initialRotation = None\<rparr>"

section \<open>Properties of the store and the command stack\<close>

subsection \<open>No operation on blocks or groups touches the stacks\<close>

lemma modify_block_stacks [simp]:
  "undoStack (modify_block i f s) = undoStack s"
  "redoStack (modify_block i f s) = redoStack s"
  "groups (modify_block i f s) = groups s"
  "activePageId (modify_block i f s) = activePageId s"
  by (simp_all add: modify_block_def)

lemma fold_modify_block_stacks [simp]:
  "undoStack (fold (\<lambda>i. modify_block i (f i)) is s) = undoStack s"
  "redoStack (fold (\<lambda>i. modify_block i (f i)) is s) = redoStack s"
  "groups (fold (\<lambda>i. modify_block i (f i)) is s) = groups s"
  "activePageId (fold (\<lambda>i. modify_block i (f i)) is s) = activePageId s"
  by (induction "is" arbitrary: s; simp)+

lemma updateBlock_stacks [simp]:
  "undoStack (updateBlock i p s) = undoStack s"
  "redoStack (updateBlock i p s) = redoStack s"
  "groups (updateBlock i p s) = groups s"
  "activePageId (updateBlock i p s) = activePageId s"
  by (simp_all add: updateBlock_def)

lemma updateBlocks_stacks [simp]:
  "undoStack (updateBlocks es s) = undoStack s"
  "redoStack (updateBlocks es s) = redoStack s"
  "groups (updateBlocks es s) = groups s"
  "activePageId (updateBlocks es s) = activePageId s"
  unfolding updateBlocks_def
  by (induction es arbitrary: s; simp add: split_def)+

lemma detach_stacks [simp]:
  "undoStack (detach g i s) = undoStack s"
  "redoStack (detach g i s) = redoStack s"
  "groups (detach g i s) = groups s"
  "activePageId (detach g i s) = activePageId s"
  by (simp_all add: detach_def)

lemma fold_detach_stacks [simp]:
  "undoStack (fold (detach g) is s) = undoStack s"
  "redoStack (fold (detach g) is s) = redoStack s"
  "groups (fold (detach g) is s) = groups s"
  "activePageId (fold (detach g) is s) = activePageId s"
  by (induction "is" arbitrary: s; simp)+

lemma addGroup_stacks [simp]:
  "undoStack (addGroup gs s) = undoStack s"
  "redoStack (addGroup gs s) = redoStack s"
  "activePageId (addGroup gs s) = activePageId s"
  by (simp_all add: addGroup_def Let_def)

lemma sync_members_stacks [simp]:
  "undoStack (sync_members g old new s) = undoStack s"
  "redoStack (sync_members g old new s) = redoStack s"
  "groups (sync_members g old new s) = groups s"
  "activePageId (sync_members g old new s) = activePageId s"
  by (simp_all add: sync_members_def Let_def)

lemma assign_allowed_ids [simp]:
  "group_id (assign_allowed p g) = group_id g"
  "childIds (assign_allowed p g) = childIds g"
  "blockIds (assign_allowed p g) = blockIds g"
  by (simp_all add: assign_allowed_def Let_def split: option.splits)

lemma updateGroup_stacks [simp]:
  "undoStack (updateGroup g p s) = undoStack s"
  "redoStack (updateGroup g p s) = redoStack s"
  "activePageId (updateGroup g p s) = activePageId s"
  by (simp_all add: updateGroup_def Let_def split: option.splits)

lemma removeGroup_stacks [simp]:
  "undoStack (removeGroup g s) = undoStack s"
  "redoStack (removeGroup g s) = redoStack s"
  "activePageId (removeGroup g s) = activePageId s"
  by (simp_all add: removeGroup_def Let_def split: option.splits)

lemma modify_activePage_stacks [simp]:
  "undoStack (modify_activePage f s) = undoStack s"
  "redoStack (modify_activePage f s) = redoStack s"
  "groups (modify_activePage f s) = groups s"
  "activePageId (modify_activePage f s) = activePageId s"
  by (simp_all add: modify_activePage_def split: option.splits)

lemma cmd_do_stacks:
  "undoStack (snd (snd (cmd_do c s))) = undoStack s"
  "redoStack (snd (snd (cmd_do c s))) = redoStack s"
  by (cases c; simp add: Let_def split: option.splits)+

lemma cmd_undo_stacks:
  "undoStack (snd (snd (cmd_undo c s))) = undoStack s"
  "redoStack (snd (snd (cmd_undo c s))) = redoStack s"
  by (cases c; simp add: Let_def split: option.splits)+

lemma applyCommand_Move:
  "undoStack (applyCommand (MoveCommand bid p q) s) = undoStack s @ [MoveCommand bid p q]"
  by (simp add: applyCommand_def)

subsection \<open>History length\<close>

text \<open>
  Claim C9 (bounded history: the undo list of the command stack is bounded by a fixed
  limit, the oldest entry being evicted when a command is applied to a full history).
  \<^verbatim>\<open>applyCommand\<close> has no limit: after any sequence of move commands the undo list is
  the old list followed by every command of the sequence, the oldest ones included. With
  31 commands on a fresh store that is 31 entries, one more than \<^verbatim>\<open>HISTORY_LIMIT\<close> of
  the snapshot history, which does evict (lemma \<open>snapshot_bounded\<close>).
\<close>

theorem applyCommand_history_unbounded:
  "undoStack (fold applyCommand (map (\<lambda>(bid, p, q). MoveCommand bid p q) moves) s)
     = undoStack s @ map (\<lambda>(bid, p, q). MoveCommand bid p q) moves"
proof (induction moves arbitrary: s)
  case Nil
  show ?case by simp
next
  case (Cons m moves)
  obtain bid p q where m: "m = (bid, p, q)"
    by (cases m)
  show ?case
    by (simp add: Cons.IH m applyCommand_Move)
qed

lemma snapshot_bounded:
  "length prev \<le> HISTORY_LIMIT \<Longrightarrow> length (snapshot p prev) \<le> HISTORY_LIMIT"
  by (auto simp: snapshot_def Let_def)

subsection \<open>A command that throws\<close>

text \<open>
  Claim C2, as the specification states it (a command whose \<^verbatim>\<open>do\<close> or \<^verbatim>\<open>undo\<close> throws
  is still recorded: after \<^verbatim>\<open>applyCommand\<close> it is on the undo list, after \<^verbatim>\<open>undo\<close> on
  the redo list), fails. On a store without an active page \<^verbatim>\<open>GroupCommand.do\<close> throws
  at \<^verbatim>\<open>page.blocks\<close>; \<^verbatim>\<open>applyCommand\<close> leaves the undo list empty, and \<^verbatim>\<open>undo\<close> of
  the same command pops it and puts it on neither list.
\<close>

theorem throwing_command_not_recorded:
  "fst (cmd_do (GroupCommand ''g-1'' [''a''] None None False) no_page_store) = Some TypeError \<and>
   undoStack (applyCommand (GroupCommand ''g-1'' [''a''] None None False) no_page_store) = [] \<and>
   fst (cmd_undo (GroupCommand ''g-1'' [''a''] None None False) no_page_store) = Some TypeError \<and>
   undoStack (undo (no_page_store\<lparr>undoStack := [GroupCommand ''g-1'' [''a''] None None False]\<rparr>))
     = [] \<and>
   redoStack (undo (no_page_store\<lparr>undoStack := [GroupCommand ''g-1'' [''a''] None None False]\<rparr>))
     = []"
  by (simp add: applyCommand_def undo_def no_page_store_def createInfographicsStore_def
      activePage_def)

text \<open>
  Claim C2, amended: the exception is caught, and the command is not recorded. After a
  throwing \<^verbatim>\<open>do\<close> in \<^verbatim>\<open>applyCommand\<close> both lists are as they were; after a throwing
  \<^verbatim>\<open>undo\<close> the command has left the undo list and the redo list is as it was; after a
  throwing \<^verbatim>\<open>do\<close> in \<^verbatim>\<open>redo\<close> the command has left the redo list and the undo list is
  as it was.
\<close>

theorem stack_exception_policy:
  "(fst (cmd_do c s) \<noteq> None \<longrightarrow>
      undoStack (applyCommand c s) = undoStack s \<and> redoStack (applyCommand c s) = redoStack s) \<and>
   (undoStack s \<noteq> [] \<and>
    fst (cmd_undo (last (undoStack s)) (s\<lparr>undoStack := butlast (undoStack s)\<rparr>)) \<noteq> None \<longrightarrow>
      undoStack (undo s) = butlast (undoStack s) \<and> redoStack (undo s) = redoStack s) \<and>
   (redoStack s \<noteq> [] \<and>
    fst (cmd_do (last (redoStack s)) (s\<lparr>redoStack := butlast (redoStack s)\<rparr>)) \<noteq> None \<longrightarrow>
      redoStack (redo s) = butlast (redoStack s) \<and> undoStack (redo s) = undoStack s)"
proof (intro conjI impI)
  assume "fst (cmd_do c s) \<noteq> None"
  then obtain e c' s' where r: "cmd_do c s = (Some e, c', s')"
    by (cases "cmd_do c s") auto
  have "undoStack s' = undoStack s" "redoStack s' = redoStack s"
    using cmd_do_stacks [of c s] r by simp_all
  then show "undoStack (applyCommand c s) = undoStack s"
    "redoStack (applyCommand c s) = redoStack s"
    by (simp_all add: applyCommand_def r)
next
  let ?s1 = "s\<lparr>undoStack := butlast (undoStack s)\<rparr>"
  assume a: "undoStack s \<noteq> [] \<and> fst (cmd_undo (last (undoStack s)) ?s1) \<noteq> None"
  then obtain e c' s' where r: "cmd_undo (last (undoStack s)) ?s1 = (Some e, c', s')"
    by (cases "cmd_undo (last (undoStack s)) ?s1") auto
  have "undoStack s' = butlast (undoStack s)" "redoStack s' = redoStack s"
    using cmd_undo_stacks [of "last (undoStack s)" ?s1] r by simp_all
  with a show "undoStack (undo s) = butlast (undoStack s)" "redoStack (undo s) = redoStack s"
    by (simp_all add: undo_def Let_def r)
next
  let ?s1 = "s\<lparr>redoStack := butlast (redoStack s)\<rparr>"
  assume a: "redoStack s \<noteq> [] \<and> fst (cmd_do (last (redoStack s)) ?s1) \<noteq> None"
  then obtain e c' s' where r: "cmd_do (last (redoStack s)) ?s1 = (Some e, c', s')"
    by (cases "cmd_do (last (redoStack s)) ?s1") auto
  have "redoStack s' = butlast (redoStack s)" "undoStack s' = undoStack s"
    using cmd_do_stacks [of "last (redoStack s)" ?s1] r by simp_all
  with a show "redoStack (redo s) = butlast (redoStack s)" "undoStack (redo s) = undoStack s"
    by (simp_all add: redo_def Let_def r)
qed

theorem stack_exception_policy_witness:
  "fst (cmd_do (GroupCommand ''g-3'' [''c''] None None False) throwing_store) \<noteq> None \<and>
   undoStack (applyCommand (GroupCommand ''g-3'' [''c''] None None False) throwing_store)
     = [GroupCommand ''g-1'' [''a''] None None False] \<and>
   redoStack (applyCommand (GroupCommand ''g-3'' [''c''] None None False) throwing_store)
     = [GroupCommand ''g-2'' [''b''] None None False] \<and>
   undoStack (undo throwing_store) = [] \<and>
   redoStack (undo throwing_store) = [GroupCommand ''g-2'' [''b''] None None False] \<and>
   redoStack (redo throwing_store) = [] \<and>
   undoStack (redo throwing_store) = [GroupCommand ''g-1'' [''a''] None None False]"
  using stack_exception_policy [of "GroupCommand ''g-3'' [''c''] None None False" throwing_store]
  by (simp add: throwing_store_def no_page_store_def createInfographicsStore_def activePage_def)

subsection \<open>Looking a block up after a mutation\<close>

lemma find_modify_first:
  assumes "\<And>b. block_id (f b) = block_id b"
  shows "find (\<lambda>b. block_id b = j) (modify_first i f bs) =
         (if j = i then map_option f (find (\<lambda>b. block_id b = i) bs)
          else find (\<lambda>b. block_id b = j) bs)"
  by (induction bs) (auto simp: assms)

lemma find_None_iff_ids:
  "(find (\<lambda>b. block_id b = i) bs = None) = (\<not> (\<exists>b \<in> set bs. block_id b = i))"
  by (auto simp: find_None_iff)

lemma getBlockById_pages_modify:
  assumes "\<And>b. block_id (f b) = block_id b"
  shows "getBlockById_pages (modify_block_pages i f ps) j =
         (if j = i then map_option f (getBlockById_pages ps i) else getBlockById_pages ps j)"
proof (induction ps)
  case Nil
  show ?case by simp
next
  case (Cons p ps)
  show ?case
  proof (cases "\<exists>b \<in> set (blocks p). block_id b = i")
    case True
    then obtain b where "find (\<lambda>b. block_id b = i) (blocks p) = Some b"
      using find_None_iff_ids [of i "blocks p"]
      by (cases "find (\<lambda>b. block_id b = i) (blocks p)") auto
    with True show ?thesis
      by (simp add: find_modify_first [OF assms])
  next
    case False
    then have "find (\<lambda>b. block_id b = i) (blocks p) = None"
      using find_None_iff_ids [of i "blocks p"] by simp
    with False Cons show ?thesis
      by (cases "j = i") (auto split: option.splits)
  qed
qed

lemma getBlockById_modify_block:
  assumes "\<And>b. block_id (f b) = block_id b"
  shows "getBlockById (modify_block i f s) j =
         (if j = i then map_option f (getBlockById s i) else getBlockById s j)"
  using getBlockById_pages_modify [OF assms]
  by (simp add: getBlockById_def modify_block_def)

lemma getBlockById_groups_update [simp]:
  "getBlockById (s\<lparr>groups := gs\<rparr>) j = getBlockById s j"
  by (simp add: getBlockById_def)

lemma getBlockById_detach:
  "getBlockById (detach gid i s) j =
     (if j = i then map_option (drop_groupId gid) (getBlockById s i) else getBlockById s j)"
  unfolding detach_def by (rule getBlockById_modify_block) (simp add: drop_groupId_def)

lemma getBlockById_fold_detach:
  "getBlockById (fold (detach gid) ids s) j =
     map_option (\<lambda>b. if j \<in> set ids then drop_groupId gid b else b) (getBlockById s j)"
proof (induction ids arbitrary: s)
  case Nil
  show ?case by (simp add: option.map_ident)
next
  case (Cons i ids)
  show ?case
    by (cases "getBlockById s j") (auto simp: Cons getBlockById_detach drop_groupId_def)
qed

lemma getBlockById_fold_attach:
  "getBlockById (fold (\<lambda>i. modify_block i (\<lambda>b. b\<lparr>groupId := Some gid\<rparr>)) ids s) j =
     map_option (\<lambda>b. if j \<in> set ids then b\<lparr>groupId := Some gid\<rparr> else b) (getBlockById s j)"
proof (induction ids arbitrary: s)
  case Nil
  show ?case by (simp add: option.map_ident)
next
  case (Cons i ids)
  show ?case
    by (cases "getBlockById s j") (auto simp: Cons getBlockById_modify_block)
qed

lemma set_set_order [simp]: "set (set_order xs) = set xs"
  by (simp add: set_order_def)

lemma findIndex_Some_less: "findIndex P xs = Some k \<Longrightarrow> k < length xs \<and> P (xs ! k)"
  by (induction xs arbitrary: k) (auto split: if_splits)

subsection \<open>Detaching members\<close>

text \<open>
  Claim C10 (\<^verbatim>\<open>removeGroup\<close> and a \<^verbatim>\<open>childIds\<close>-removing \<^verbatim>\<open>updateGroup\<close> detach a
  child's \<^verbatim>\<open>groupId\<close> only when it still equals the group being modified). For a block
  \<open>b\<close> that the group lists: \<^verbatim>\<open>removeGroup\<close> leaves \<open>b\<close> as it is unless its
  \<^verbatim>\<open>groupId\<close> is the group's id, in which case only the \<^verbatim>\<open>groupId\<close> is dropped, and
  the group record is deleted in both cases; \<^verbatim>\<open>updateGroup\<close> with a \<^verbatim>\<open>childIds\<close> patch
  that no longer lists \<open>b\<close> does the same to \<open>b\<close>, and the group's \<^verbatim>\<open>childIds\<close> are the
  patched ones in both cases.
\<close>

theorem detach_only_own_members:
  assumes "findIndex (\<lambda>g. group_id g = gid) (groups s) = Some idx"
    and "getBlockById s bid = Some b"
    and "bid \<in> set (childIds (groups s ! idx))"
    and "gp_childIds patch = Some new"
    and "bid \<notin> set new"
  shows "getBlockById (removeGroup gid s) bid =
           Some (if groupId b = Some gid then b\<lparr>groupId := None\<rparr> else b) \<and>
         groups (removeGroup gid s) = take idx (groups s) @ drop (Suc idx) (groups s) \<and>
         getBlockById (updateGroup gid patch s) bid =
           Some (if groupId b = Some gid then b\<lparr>groupId := None\<rparr> else b) \<and>
         childIds (groups (updateGroup gid patch s) ! idx) = new"
proof -
  have k: "idx < length (groups s)"
    using findIndex_Some_less [OF assms(1)] by simp
  have r1: "getBlockById (removeGroup gid s) bid =
           Some (if groupId b = Some gid then b\<lparr>groupId := None\<rparr> else b)"
    using assms(1,2,3)
    by (simp add: removeGroup_def Let_def getBlockById_fold_detach drop_groupId_def)
  have r2: "groups (removeGroup gid s) = take idx (groups s) @ drop (Suc idx) (groups s)"
    using assms(1) by (simp add: removeGroup_def Let_def)
  have p: "gp_childIds (normalize_ids patch) = Some new"
    using assms(4) by (simp add: normalize_ids_def)
  have u1: "getBlockById (updateGroup gid patch s) bid =
           Some (if groupId b = Some gid then b\<lparr>groupId := None\<rparr> else b)"
    using assms(1,2,3,5) p
    by (simp add: updateGroup_def sync_members_def Let_def getBlockById_fold_detach
        getBlockById_fold_attach drop_groupId_def)
  have u2: "childIds (groups (updateGroup gid patch s) ! idx) = new"
    using assms(1) p k
    by (simp add: updateGroup_def Let_def)
  from r1 r2 u1 u2 show ?thesis by simp
qed

theorem detach_only_own_members_witness:
  "findIndex (\<lambda>g. group_id g = ''g-1'') (groups reassigned_store) = Some 0 \<and>
   getBlockById reassigned_store ''a'' = Some (sample_block ''a'' (Some ''g-2'')) \<and>
   ''a'' \<in> set (childIds (groups reassigned_store ! 0)) \<and>
   getBlockById (removeGroup ''g-1'' reassigned_store) ''a''
     = Some (sample_block ''a'' (Some ''g-2'')) \<and>
   groups (removeGroup ''g-1'' reassigned_store) = [sample_group ''g-2'' [''a'']] \<and>
   getBlockById
     (updateGroup ''g-1''
        \<lparr>gp_childIds = Some [''b''], gp_blockIds = None, gp_position = None, gp_size = None,
         gp_rotation = None, gp_blockOffsets = None\<rparr> reassigned_store) ''a''
     = Some (sample_block ''a'' (Some ''g-2'')) \<and>
   childIds (groups
     (updateGroup ''g-1''
        \<lparr>gp_childIds = Some [''b''], gp_blockIds = None, gp_position = None, gp_size = None,
         gp_rotation = None, gp_blockOffsets = None\<rparr> reassigned_store) ! 0) = [''b'']"
proof -
  have h1: "findIndex (\<lambda>g. group_id g = ''g-1'') (groups reassigned_store) = Some 0"
    by (simp add: reassigned_store_def sample_store_def sample_group_def)
  have h2: "getBlockById reassigned_store ''a'' = Some (sample_block ''a'' (Some ''g-2''))"
    by (simp add: reassigned_store_def sample_store_def createInfographicsStore_def
        getBlockById_def sample_block_def)
  have h3: "''a'' \<in> set (childIds (groups reassigned_store ! 0))"
    by (simp add: reassigned_store_def sample_store_def sample_group_def)
  have h4: "gp_childIds \<lparr>gp_childIds = Some [''b''], gp_blockIds = None, gp_position = None,
       gp_size = None, gp_rotation = None, gp_blockOffsets = None\<rparr> = Some [''b'']"
    by simp
  have h5: "''a'' \<notin> set [''b'']"
    by simp
  have g: "take 0 (groups reassigned_store) @ drop (Suc 0) (groups reassigned_store)
      = [sample_group ''g-2'' [''a'']]"
    by (simp add: reassigned_store_def sample_store_def)
  have n: "groupId (sample_block ''a'' (Some ''g-2'')) \<noteq> Some ''g-1''"
    by (simp add: sample_block_def)
  show ?thesis
    using detach_only_own_members [OF h1 h2 h3 h4 h5] h1 h2 h3 g n by simp
qed

subsection \<open>Membership consistency\<close>

lemma map_if_absent:
  "\<forall>c \<in> set xs. block_id c \<noteq> i \<Longrightarrow> map (\<lambda>b. if block_id b = i then f b else b) xs = xs"
  by (induction xs) auto

lemma modify_first_map:
  "distinct (map block_id bs) \<Longrightarrow>
   modify_first i f bs = map (\<lambda>b. if block_id b = i then f b else b) bs"
proof (induction bs)
  case Nil
  show ?case by simp
next
  case (Cons b bs)
  show ?case
  proof (cases "block_id b = i")
    case True
    with Cons.prems have "\<forall>c \<in> set bs. block_id c \<noteq> i"
      by (auto simp: image_iff)
    then have "map (\<lambda>b. if block_id b = i then f b else b) bs = bs"
      by (rule map_if_absent)
    with True show ?thesis by simp
  next
    case False
    with Cons show ?thesis by simp
  qed
qed

lemma concat_modify_block_pages:
  "distinct (map block_id (concat (map blocks ps))) \<Longrightarrow>
   concat (map blocks (modify_block_pages i f ps)) =
     map (\<lambda>b. if block_id b = i then f b else b) (concat (map blocks ps))"
proof (induction ps)
  case Nil
  show ?case by simp
next
  case (Cons p ps)
  from Cons.prems have d1: "distinct (map block_id (blocks p))"
    and d2: "distinct (map block_id (concat (map blocks ps)))"
    and d3: "block_id ` set (blocks p) \<inter> block_id ` set (concat (map blocks ps)) = {}"
    by auto
  show ?case
  proof (cases "\<exists>b \<in> set (blocks p). block_id b = i")
    case True
    with d3 have "\<forall>c \<in> set (concat (map blocks ps)). block_id c \<noteq> i"
      by auto
    then have "map (\<lambda>b. if block_id b = i then f b else b) (concat (map blocks ps))
        = concat (map blocks ps)"
      by (rule map_if_absent)
    with True d1 show ?thesis
      by (simp add: modify_first_map)
  next
    case False
    then have "map (\<lambda>b. if block_id b = i then f b else b) (blocks p) = blocks p"
      by (intro map_if_absent) simp
    with False Cons.IH [OF d2] show ?thesis by simp
  qed
qed

lemma all_blocks_modify_block:
  "distinct (map block_id (all_blocks s)) \<Longrightarrow>
   all_blocks (modify_block i f s) = map (\<lambda>b. if block_id b = i then f b else b) (all_blocks s)"
  by (simp add: all_blocks_def modify_block_def concat_modify_block_pages)

lemma all_blocks_fold_modify:
  assumes idp: "\<And>b. block_id (f b) = block_id b" and idem: "\<And>b. f (f b) = f b"
  shows "distinct (map block_id (all_blocks s)) \<Longrightarrow>
   all_blocks (fold (\<lambda>i. modify_block i f) ids s) =
     map (\<lambda>b. if block_id b \<in> set ids then f b else b) (all_blocks s)"
proof (induction ids arbitrary: s)
  case Nil
  show ?case by simp
next
  case (Cons i ids)
  have m: "all_blocks (modify_block i f s) =
      map (\<lambda>b. if block_id b = i then f b else b) (all_blocks s)"
    using Cons.prems by (rule all_blocks_modify_block)
  have "map block_id (all_blocks (modify_block i f s)) = map block_id (all_blocks s)"
    by (simp add: m idp o_def if_distrib cong: if_cong)
  with Cons.prems have d: "distinct (map block_id (all_blocks (modify_block i f s)))"
    by simp
  show ?case
    by (simp add: Cons.IH [OF d] m) (auto simp: idp idem)
qed

lemma all_blocks_groups_update [simp]: "all_blocks (s\<lparr>groups := gs\<rparr>) = all_blocks s"
  by (simp add: all_blocks_def)


lemma findIndex_find: "findIndex P xs = Some k \<Longrightarrow> find P xs = Some (xs ! k)"
  by (induction xs arbitrary: k) (auto split: if_splits)

lemma findIndex_None_find: "findIndex P xs = None \<Longrightarrow> find P xs = None"
  by (induction xs) (auto split: if_splits)

lemma others_differ:
  assumes "distinct (map f xs)" "k < length xs" "x \<in> set (take k xs @ drop (Suc k) xs)"
  shows "x \<in> set xs \<and> f x \<noteq> f (xs ! k)"
proof -
  have xs: "xs = take k xs @ xs ! k # drop (Suc k) xs"
    using assms(2) by (rule id_take_nth_drop)
  have "distinct (map f (take k xs @ xs ! k # drop (Suc k) xs))"
    using assms(1) xs by simp
  then have "f (xs ! k) \<notin> f ` set (take k xs @ drop (Suc k) xs)"
    by auto
  with assms(3) have "f x \<noteq> f (xs ! k)"
    by (metis imageI)
  moreover have "x \<in> set xs"
    using assms(3) by (auto dest: in_set_takeD in_set_dropD)
  ultimately show ?thesis by simp
qed

lemma distinct_others:
  assumes "distinct (map f xs)"
  shows "distinct (map f (take k xs @ drop (Suc k) xs))"
proof (cases "k < length xs")
  case True
  then have "xs = take k xs @ xs ! k # drop (Suc k) xs"
    by (rule id_take_nth_drop)
  then have "distinct (map f (take k xs @ xs ! k # drop (Suc k) xs))"
    using assms by simp
  then show ?thesis by auto
next
  case False
  with assms show ?thesis by simp
qed

lemma detach_eq: "detach gid = (\<lambda>i. modify_block i (drop_groupId gid))"
  by (rule ext)+ (simp add: detach_def)

lemma all_blocks_fold_detach:
  "distinct (map block_id (all_blocks s)) \<Longrightarrow>
   all_blocks (fold (detach gid) ids s) =
     map (\<lambda>b. if block_id b \<in> set ids then drop_groupId gid b else b) (all_blocks s)"
  unfolding detach_eq
  by (rule all_blocks_fold_modify) (simp_all add: drop_groupId_def)

lemma all_blocks_fold_attach:
  "distinct (map block_id (all_blocks s)) \<Longrightarrow>
   all_blocks (fold (\<lambda>i. modify_block i (\<lambda>b. b\<lparr>groupId := Some gid\<rparr>)) ids s) =
     map (\<lambda>b. if block_id b \<in> set ids then b\<lparr>groupId := Some gid\<rparr> else b) (all_blocks s)"
  by (rule all_blocks_fold_modify) simp_all

lemma removeGroup_inv:
  assumes d: "distinct_ids s" and c: "consistent s"
  shows "distinct_ids (removeGroup gid s) \<and> consistent (removeGroup gid s)"
proof (cases "findIndex (\<lambda>g. group_id g = gid) (groups s)")
  case None
  with d c show ?thesis by (simp add: removeGroup_def)
next
  case (Some idx)
  let ?g = "groups s ! idx"
  let ?h = "\<lambda>b. if block_id b \<in> set (childIds ?g) then drop_groupId gid b else b"
  from findIndex_Some_less [OF Some] have k: "idx < length (groups s)" and gid: "group_id ?g = gid"
    by simp_all
  from d have db: "distinct (map block_id (all_blocks s))"
    and dg: "distinct (map group_id (groups s))"
    by (simp_all add: distinct_ids_def)
  have bl: "all_blocks (removeGroup gid s) = map ?h (all_blocks s)"
    using Some by (simp add: removeGroup_def Let_def all_blocks_fold_detach [OF db])
  have gr: "groups (removeGroup gid s) = take idx (groups s) @ drop (Suc idx) (groups s)"
    using Some by (simp add: removeGroup_def Let_def)
  have ids: "map block_id (map ?h (all_blocks s)) = map block_id (all_blocks s)"
    by (simp add: drop_groupId_def o_def if_distrib cong: if_cong)
  have "distinct (map block_id (map ?h (all_blocks s)))"
    unfolding ids by (rule db)
  then have d': "distinct_ids (removeGroup gid s)"
    using distinct_others [OF dg, of idx] by (simp only: distinct_ids_def bl gr)
  have c': "consistent (removeGroup gid s)"
    unfolding consistent_def bl gr
  proof (intro ballI)
    fix g' b'
    assume g': "g' \<in> set (take idx (groups s) @ drop (Suc idx) (groups s))"
      and b': "b' \<in> set (map ?h (all_blocks s))"
    from others_differ [OF dg k g'] gid have g'in: "g' \<in> set (groups s)"
      and ne: "group_id g' \<noteq> gid"
      by simp_all
    from b' obtain b where b: "b \<in> set (all_blocks s)" and hb: "b' = ?h b"
      by auto
    from c g'in b have c1: "(groupId b = Some (group_id g')) = (block_id b \<in> set (childIds g'))"
      by (simp add: consistent_def)
    from c k b have c2: "(groupId b = Some gid) = (block_id b \<in> set (childIds ?g))"
      using gid by (auto simp: consistent_def)
    show "(groupId b' = Some (group_id g')) = (block_id b' \<in> set (childIds g'))"
      using c1 c2 ne hb by (auto simp: drop_groupId_def)
  qed
  from d' c' show ?thesis ..
qed



lemma sync_members_blocks:
  assumes db: "distinct (map block_id (all_blocks s))"
  shows "all_blocks (sync_members gid old new s) =
     map (\<lambda>b. if block_id b \<in> set new - set old then b\<lparr>groupId := Some gid\<rparr> else b)
       (map (\<lambda>b. if block_id b \<in> set old - set new then drop_groupId gid b else b) (all_blocks s))"
proof -
  let ?rem = "filter (\<lambda>oldId. oldId \<notin> set new) (set_order old)"
  let ?add = "filter (\<lambda>newId. newId \<notin> set old) (set_order new)"
  let ?s1 = "fold (detach gid) ?rem s"
  have r: "set ?rem = set old - set new" and ad: "set ?add = set new - set old"
    by auto
  have b1: "all_blocks ?s1 =
      map (\<lambda>b. if block_id b \<in> set old - set new then drop_groupId gid b else b) (all_blocks s)"
    unfolding all_blocks_fold_detach [OF db] r ..
  have "map block_id (all_blocks ?s1) = map block_id (all_blocks s)"
    unfolding b1 by (simp add: drop_groupId_def o_def if_distrib cong: if_cong)
  with db have db1: "distinct (map block_id (all_blocks ?s1))"
    by simp
  have e: "sync_members gid old new s =
      fold (\<lambda>newId. modify_block newId (\<lambda>b. b\<lparr>groupId := Some gid\<rparr>)) ?add ?s1"
    by (simp add: sync_members_def Let_def)
  show ?thesis
    unfolding e all_blocks_fold_attach [OF db1] ad b1 ..
qed

lemma sync_members_ids:
  assumes db: "distinct (map block_id (all_blocks s))"
  shows "map block_id (all_blocks (sync_members gid old new s)) = map block_id (all_blocks s)"
  unfolding sync_members_blocks [OF db]
  by (simp add: drop_groupId_def o_def if_distrib cong: if_cong)

lemma in_set_update_cases:
  assumes "x \<in> set (xs[k := y])" "k < length xs"
  shows "x = y \<or> x \<in> set (take k xs @ drop (Suc k) xs)"
  using assms by (auto simp: upd_conv_take_nth_drop)

lemma updateGroup_inv:
  assumes d: "distinct_ids s" and c: "consistent s" and a: "op_allowed s (UpdateGroup gid patch0)"
  shows "distinct_ids (updateGroup gid patch0 s) \<and> consistent (updateGroup gid patch0 s)"
proof (cases "findIndex (\<lambda>g. group_id g = gid) (groups s)")
  case None
  with d c show ?thesis by (simp add: updateGroup_def)
next
  case (Some gi)
  note fi = Some
  let ?g = "groups s ! gi"
  let ?p = "normalize_ids patch0"
  from findIndex_Some_less [OF Some] have k: "gi < length (groups s)" and gid: "group_id ?g = gid"
    by simp_all
  from d have db: "distinct (map block_id (all_blocks s))"
    and dg: "distinct (map group_id (groups s))"
    by (simp_all add: distinct_ids_def)
  have gg: "getGroupById s gid = Some ?g"
    using findIndex_find [OF fi] by (simp add: getGroupById_def)
  have own: "\<And>b. b \<in> set (all_blocks s) \<Longrightarrow>
      (groupId b = Some gid) = (block_id b \<in> set (childIds ?g))"
    using c k gid by (auto simp: consistent_def)
  show ?thesis
  proof (cases "gp_childIds ?p")
    case None
    let ?g6 = "assign_allowed ?p ?g"
    have gr: "groups (updateGroup gid patch0 s) = (groups s)[gi := ?g6]"
      and bl: "all_blocks (updateGroup gid patch0 s) = all_blocks s"
      using fi None by (simp_all add: updateGroup_def Let_def)
    have "map group_id ((groups s)[gi := ?g6]) = map group_id (groups s)"
      using gid by (simp add: map_update list_update_same_conv k)
    then have d': "distinct_ids (updateGroup gid patch0 s)"
      using db dg by (simp add: distinct_ids_def gr bl)
    have c': "consistent (updateGroup gid patch0 s)"
      unfolding consistent_def gr bl
    proof (intro ballI)
      fix g' b
      assume g': "g' \<in> set ((groups s)[gi := ?g6])" and b: "b \<in> set (all_blocks s)"
      from in_set_update_cases [OF g' k]
      show "(groupId b = Some (group_id g')) = (block_id b \<in> set (childIds g'))"
      proof
        assume "g' = ?g6"
        with own [OF b] gid show ?thesis by simp
      next
        assume "g' \<in> set (take gi (groups s) @ drop (Suc gi) (groups s))"
        from others_differ [OF dg k this] have "g' \<in> set (groups s)"
          by simp
        with c b show ?thesis by (simp add: consistent_def)
      qed
    qed
    from d' c' show ?thesis ..
  next
    case (Some new)
    let ?old = "childIds ?g"
    let ?g6 = "assign_allowed ?p (?g\<lparr>childIds := new, blockIds := new\<rparr>)"
    let ?D = "\<lambda>b. if block_id b \<in> set ?old - set new then drop_groupId gid b else b"
    let ?A = "\<lambda>b. if block_id b \<in> set new - set ?old then b\<lparr>groupId := Some gid\<rparr> else b"
    have gr: "groups (updateGroup gid patch0 s) = (groups s)[gi := ?g6]"
      using fi Some by (simp add: updateGroup_def Let_def)
    have bl: "all_blocks (updateGroup gid patch0 s) = map ?A (map ?D (all_blocks s))"
      using fi Some by (simp add: updateGroup_def Let_def sync_members_blocks [OF db])
    have ids: "map block_id (all_blocks (updateGroup gid patch0 s)) = map block_id (all_blocks s)"
      using fi Some by (simp add: updateGroup_def Let_def sync_members_ids [OF db])
    have "map group_id ((groups s)[gi := ?g6]) = map group_id (groups s)"
      using gid by (simp add: map_update list_update_same_conv k)
    then have d': "distinct_ids (updateGroup gid patch0 s)"
      using db dg ids by (simp add: distinct_ids_def gr)
    from a gg Some have ung: "in_no_group s (filter (\<lambda>i. i \<notin> set ?old) new)"
      by simp
    have added: "\<And>b g'. b \<in> set (all_blocks s) \<Longrightarrow> block_id b \<in> set new - set ?old
        \<Longrightarrow> g' \<in> set (groups s) \<Longrightarrow> groupId b \<noteq> Some (group_id g')"
      using ung by (auto simp: in_no_group_def split: option.splits)
    have c': "consistent (updateGroup gid patch0 s)"
      unfolding consistent_def gr bl
    proof (intro ballI)
      fix g' b'
      assume g': "g' \<in> set ((groups s)[gi := ?g6])"
        and b': "b' \<in> set (map ?A (map ?D (all_blocks s)))"
      from b' obtain b where b: "b \<in> set (all_blocks s)" and hb: "b' = ?A (?D b)"
        by auto
      from in_set_update_cases [OF g' k]
      show "(groupId b' = Some (group_id g')) = (block_id b' \<in> set (childIds g'))"
      proof
        assume "g' = ?g6"
        with own [OF b] gid hb show ?thesis by (auto simp: drop_groupId_def)
      next
        assume "g' \<in> set (take gi (groups s) @ drop (Suc gi) (groups s))"
        from others_differ [OF dg k this] gid have g'in: "g' \<in> set (groups s)"
          and ne: "group_id g' \<noteq> gid"
          by simp_all
        from c g'in b have c1: "(groupId b = Some (group_id g')) = (block_id b \<in> set (childIds g'))"
          by (simp add: consistent_def)
        show ?thesis
          using c1 own [OF b] added [OF b _ g'in] ne hb by (auto simp: drop_groupId_def)
      qed
    qed
    from d' c' show ?thesis ..
  qed
qed

lemma addGroup_inv:
  assumes d: "distinct_ids s" and c: "consistent s" and a: "op_allowed s (AddGroup gs)"
  shows "distinct_ids (addGroup gs s) \<and> consistent (addGroup gs s)"
proof -
  let ?cs = "case gs_childIds gs of Some c \<Rightarrow> c
             | None \<Rightarrow> (case gs_blockIds gs of Some c \<Rightarrow> c | None \<Rightarrow> [])"
  let ?gid = "gs_id gs"
  let ?A = "\<lambda>b. if block_id b \<in> set ?cs then b\<lparr>groupId := Some ?gid\<rparr> else b"
  from d have db: "distinct (map block_id (all_blocks s))"
    and dg: "distinct (map group_id (groups s))"
    by (simp_all add: distinct_ids_def)
  obtain g where gr: "groups (addGroup gs s) = groups s @ [g]"
    and g: "group_id g = ?gid" "childIds g = ?cs"
    by (simp add: addGroup_def Let_def)
  have bl: "all_blocks (addGroup gs s) = map ?A (all_blocks s)"
    using all_blocks_fold_attach [of "s\<lparr>groups := groups s @ [g']\<rparr>" ?gid ?cs for g'] db
    by (simp add: addGroup_def Let_def)
  have ids: "map block_id (map ?A (all_blocks s)) = map block_id (all_blocks s)"
    by (simp add: o_def if_distrib cong: if_cong)
  from a have nin: "?gid \<notin> group_id ` set (groups s)"
    by (simp add: Let_def)
  then have fresh: "\<And>g'. g' \<in> set (groups s) \<Longrightarrow> group_id g' \<noteq> ?gid"
    by (metis imageI)
  from a have listed: "\<And>b. b \<in> set (all_blocks s) \<Longrightarrow> groupId b = Some ?gid
      \<Longrightarrow> block_id b \<in> set ?cs"
    by (simp add: Let_def)
  from a have "in_no_group s ?cs"
    by (simp add: Let_def)
  then have free: "\<And>b g'. b \<in> set (all_blocks s) \<Longrightarrow> block_id b \<in> set ?cs
      \<Longrightarrow> g' \<in> set (groups s) \<Longrightarrow> groupId b \<noteq> Some (group_id g')"
    by (auto simp: in_no_group_def split: option.splits)
  have "distinct (map block_id (map ?A (all_blocks s)))"
    unfolding ids by (rule db)
  then have d': "distinct_ids (addGroup gs s)"
    using dg nin g by (simp only: distinct_ids_def bl gr) simp
  have c': "consistent (addGroup gs s)"
    unfolding consistent_def bl gr
  proof (intro ballI)
    fix g' b'
    assume g': "g' \<in> set (groups s @ [g])" and b': "b' \<in> set (map ?A (all_blocks s))"
    from b' obtain b where b: "b \<in> set (all_blocks s)" and hb: "b' = ?A b"
      by auto
    from g' have "g' = g \<or> g' \<in> set (groups s)"
      by auto
    then show "(groupId b' = Some (group_id g')) = (block_id b' \<in> set (childIds g'))"
    proof
      assume "g' = g"
      with g listed [OF b] hb show ?thesis by auto
    next
      assume g'in: "g' \<in> set (groups s)"
      with fresh have ne: "group_id g' \<noteq> ?gid"
        by simp
      from c g'in b have c1: "(groupId b = Some (group_id g')) = (block_id b \<in> set (childIds g'))"
        by (simp add: consistent_def)
      show ?thesis
        using c1 free [OF b _ g'in] ne hb by auto
    qed
  qed
  from d' c' show ?thesis ..
qed

lemma updateGroup_keeps_groups:
  "map group_id (groups (updateGroup gid patch s)) = map group_id (groups s)"
proof (cases "findIndex (\<lambda>g. group_id g = gid) (groups s)")
  case None
  then show ?thesis by (simp add: updateGroup_def)
next
  case (Some gi)
  from findIndex_Some_less [OF Some] have "gi < length (groups s)"
    and "group_id (groups s ! gi) = gid"
    by simp_all
  with Some show ?thesis
    by (simp add: updateGroup_def Let_def map_update list_update_same_conv
        split: option.splits)
qed

lemma apply_group_op_inv:
  assumes "distinct_ids s" "consistent s" "op_allowed s op"
  shows "distinct_ids (apply_group_op op s) \<and> consistent (apply_group_op op s)"
proof (cases op)
  case (AddGroup gs)
  with assms show ?thesis by (simp add: addGroup_inv)
next
  case (UpdateGroup gid patch)
  with assms show ?thesis by (simp add: updateGroup_inv)
next
  case (RemoveGroup gid)
  with assms show ?thesis by (simp add: removeGroup_inv)
qed

lemma run_group_ops_inv:
  "distinct_ids s \<Longrightarrow> consistent s \<Longrightarrow> run_group_ops ops s = Some s' \<Longrightarrow>
   distinct_ids s' \<and> consistent s'"
proof (induction ops arbitrary: s)
  case Nil
  then show ?case by simp
next
  case (Cons op ops)
  from Cons.prems(3) have ok: "op_allowed s op"
    and r: "run_group_ops ops (apply_group_op op s) = Some s'"
    by (simp_all split: if_splits)
  from apply_group_op_inv [OF Cons.prems(1,2) ok]
  show ?case
    using Cons.IH r by blast
qed

text \<open>
  Claim C3, as the specification states it (after any sequence of \<^verbatim>\<open>addGroup\<close>,
  \<^verbatim>\<open>updateGroup\<close>, \<^verbatim>\<open>removeGroup\<close> a block points to a group exactly when the group
  lists it, and a group left with zero children is removed), fails. A member of one group
  that a second group takes, by \<^verbatim>\<open>addGroup\<close> or by a \<^verbatim>\<open>childIds\<close> patch, stays listed by
  the first group while it points to the second. A group added under an id that a group
  already has leaves the older record without the new member. A block that points to the
  id of the added group and is not listed keeps pointing to it. And a \<^verbatim>\<open>childIds\<close> patch
  that empties a group leaves the group record in the store.
\<close>

theorem membership_not_always_consistent:
  "consistent three_blocks \<and>
   \<not> consistent (addGroup (sample_spec ''g-2'' [''a''])
                  (addGroup (sample_spec ''g-1'' [''a'']) three_blocks)) \<and>
   \<not> consistent (updateGroup ''g-2'' (childIds_patch [''b'', ''a''])
                  (addGroup (sample_spec ''g-2'' [''b''])
                     (addGroup (sample_spec ''g-1'' [''a'']) three_blocks))) \<and>
   consistent grouped_store \<and>
   \<not> consistent (addGroup (sample_spec ''g-1'' [''c'']) grouped_store) \<and>
   consistent stamped_store \<and>
   \<not> consistent (addGroup (sample_spec ''g-1'' [''a'']) stamped_store) \<and>
   groups (updateGroup ''g-1'' (childIds_patch [])
             (addGroup (sample_spec ''g-1'' [''a'']) three_blocks))
     = [sample_group ''g-1'' []]"
proof (intro conjI)
  show "consistent three_blocks"
    by (simp add: three_blocks_def sample_store_def consistent_def)
  show "\<not> consistent (addGroup (sample_spec ''g-2'' [''a''])
                  (addGroup (sample_spec ''g-1'' [''a'']) three_blocks))"
    by (simp add: three_blocks_def sample_store_def sample_block_def sample_spec_def
        createInfographicsStore_def consistent_def all_blocks_def addGroup_def
        modify_block_def Let_def)
  show "\<not> consistent (updateGroup ''g-2'' (childIds_patch [''b'', ''a''])
                  (addGroup (sample_spec ''g-2'' [''b''])
                     (addGroup (sample_spec ''g-1'' [''a'']) three_blocks)))"
    by (simp add: three_blocks_def sample_store_def sample_block_def sample_spec_def
        childIds_patch_def createInfographicsStore_def consistent_def all_blocks_def
        addGroup_def updateGroup_def modify_block_def normalize_ids_def sync_members_def
        set_order_def detach_def drop_groupId_def assign_allowed_def Let_def)
  show "consistent grouped_store"
    by (simp add: grouped_store_def sample_store_def sample_block_def sample_group_def
        createInfographicsStore_def consistent_def all_blocks_def)
  show "\<not> consistent (addGroup (sample_spec ''g-1'' [''c'']) grouped_store)"
    by (simp add: grouped_store_def sample_store_def sample_block_def sample_group_def
        sample_spec_def createInfographicsStore_def consistent_def all_blocks_def
        addGroup_def modify_block_def Let_def)
  show "consistent stamped_store"
    by (simp add: stamped_store_def sample_store_def consistent_def)
  show "\<not> consistent (addGroup (sample_spec ''g-1'' [''a'']) stamped_store)"
    by (simp add: stamped_store_def sample_store_def sample_block_def sample_spec_def
        createInfographicsStore_def consistent_def all_blocks_def addGroup_def
        modify_block_def Let_def)
  show "groups (updateGroup ''g-1'' (childIds_patch [])
             (addGroup (sample_spec ''g-1'' [''a'']) three_blocks))
     = [sample_group ''g-1'' []]"
    by (simp add: three_blocks_def sample_store_def sample_block_def sample_group_def
        sample_spec_def childIds_patch_def createInfographicsStore_def addGroup_def
        updateGroup_def modify_block_def normalize_ids_def sync_members_def set_order_def
        detach_def assign_allowed_def Let_def)
qed

text \<open>
  Claim C3, amended. In a store whose block ids and whose group ids are distinct, the
  consistency of \<^verbatim>\<open>childIds\<close> with \<^verbatim>\<open>groupId\<close> is kept by every sequence of group
  operations none of which takes a member away from another group: \<^verbatim>\<open>addGroup\<close> with an
  id that no group has, listing every block that already points to that id, and otherwise
  only blocks that are in no group of the store; \<^verbatim>\<open>updateGroup\<close> whose added members are
  in no group of the store; any \<^verbatim>\<open>removeGroup\<close>. Blocks that the caller has stamped with
  the id of the group before it adds the group are within these conditions.
  \<^verbatim>\<open>updateGroup\<close> never removes a group record, whatever the patch: a group left with
  zero children stays in the store.
\<close>

theorem group_membership_consistency:
  assumes "distinct_ids s" and "consistent s" and "run_group_ops ops s = Some s'"
  shows "distinct_ids s' \<and> consistent s' \<and>
         map group_id (groups (updateGroup gid patch s')) = map group_id (groups s')"
  using run_group_ops_inv [OF assms] updateGroup_keeps_groups [of gid patch s'] by simp

theorem group_membership_consistency_witness:
  "distinct_ids stamped_store \<and> consistent stamped_store \<and>
   run_group_ops
     [AddGroup (sample_spec ''g-1'' [''a'', ''b'']),
      UpdateGroup ''g-1'' (childIds_patch [''b'', ''c'']),
      UpdateGroup ''g-1'' (childIds_patch []),
      AddGroup (sample_spec ''g-2'' [''a''])] stamped_store
     = Some (sample_store
               [sample_block ''a'' (Some ''g-2''), sample_block ''b'' None,
                sample_block ''c'' None]
               [sample_group ''g-1'' [], sample_group ''g-2'' [''a'']]) \<and>
   consistent (sample_store
               [sample_block ''a'' (Some ''g-2''), sample_block ''b'' None,
                sample_block ''c'' None]
               [sample_group ''g-1'' [], sample_group ''g-2'' [''a'']]) \<and>
   map group_id (groups (updateGroup ''g-2'' (childIds_patch [])
      (sample_store
               [sample_block ''a'' (Some ''g-2''), sample_block ''b'' None,
                sample_block ''c'' None]
               [sample_group ''g-1'' [], sample_group ''g-2'' [''a'']])))
     = [''g-1'', ''g-2'']"
proof -
  have h1: "distinct_ids stamped_store"
    by (simp add: stamped_store_def sample_store_def sample_block_def
        createInfographicsStore_def distinct_ids_def all_blocks_def)
  have h2: "consistent stamped_store"
    by (simp add: stamped_store_def sample_store_def consistent_def)
  have h3: "run_group_ops
     [AddGroup (sample_spec ''g-1'' [''a'', ''b'']),
      UpdateGroup ''g-1'' (childIds_patch [''b'', ''c'']),
      UpdateGroup ''g-1'' (childIds_patch []),
      AddGroup (sample_spec ''g-2'' [''a''])] stamped_store
     = Some (sample_store
               [sample_block ''a'' (Some ''g-2''), sample_block ''b'' None,
                sample_block ''c'' None]
               [sample_group ''g-1'' [], sample_group ''g-2'' [''a'']])"
    by (simp add: stamped_store_def sample_store_def sample_block_def sample_group_def
        sample_spec_def childIds_patch_def createInfographicsStore_def all_blocks_def
        in_no_group_def addGroup_def updateGroup_def modify_block_def getGroupById_def
        normalize_ids_def sync_members_def set_order_def detach_def drop_groupId_def
        assign_allowed_def Let_def)
  let ?S = "sample_store
               [sample_block ''a'' (Some ''g-2''), sample_block ''b'' None,
                sample_block ''c'' None]
               [sample_group ''g-1'' [], sample_group ''g-2'' [''a'']]"
  have m: "map group_id (groups ?S) = [''g-1'', ''g-2'']"
    by (simp add: sample_store_def sample_group_def)
  note t = group_membership_consistency [OF h1 h2 h3, of "''g-2''" "childIds_patch []"]
  from t have c: "consistent ?S"
    by blast
  from t have k: "map group_id (groups (updateGroup ''g-2'' (childIds_patch []) ?S))
      = [''g-1'', ''g-2'']"
    unfolding m by blast
  from h1 h2 h3 c k show ?thesis
    by blast
qed

subsection \<open>Undo after do\<close>

text \<open>
  Claim C1 (undo/redo symmetry: \<^verbatim>\<open>do\<close> followed by \<^verbatim>\<open>undo\<close> restores the affected
  entities field by field). \<^verbatim>\<open>GroupCommand\<close> breaks it when the group exists already
  and one of the ids is a member: in \<^verbatim>\<open>grouped_store\<close> group \<^verbatim>\<open>g-1\<close> lists \<^verbatim>\<open>a\<close> and
  \<^verbatim>\<open>b\<close>; \<^verbatim>\<open>GroupCommand("g-1", ["b", "c"])\<close> makes the list \<^verbatim>\<open>a, b, c\<close>; its
  \<^verbatim>\<open>undo\<close> filters every id of the command out of \<^verbatim>\<open>childIds\<close>, so the list ends as
  \<^verbatim>\<open>a\<close> alone, while the blocks are restored (\<^verbatim>\<open>b\<close> still points to \<^verbatim>\<open>g-1\<close>) and the
  \<^verbatim>\<open>blockIds\<close> alias keeps all three.
\<close>

theorem GroupCommand_undo_drops_member:
  "groups grouped_store = [sample_group ''g-1'' [''a'', ''b'']] \<and>
   groups (applyCommand (GroupCommand ''g-1'' [''b'', ''c''] None None False) grouped_store)
     = [sample_group ''g-1'' [''a'', ''b'', ''c'']] \<and>
   groups (undo (applyCommand (GroupCommand ''g-1'' [''b'', ''c''] None None False)
             grouped_store))
     = [(sample_group ''g-1'' [''a''])\<lparr>blockIds := [''a'', ''b'', ''c'']\<rparr>] \<and>
   pages (undo (applyCommand (GroupCommand ''g-1'' [''b'', ''c''] None None False)
            grouped_store))
     = pages grouped_store"
  by (simp add: grouped_store_def sample_store_def sample_block_def sample_group_def
      createInfographicsStore_def applyCommand_def undo_def activePage_def
      modify_activePage_def getGroupById_def updateGroup_def normalize_ids_def
      sync_members_def set_order_def detach_def drop_groupId_def modify_block_def
      assign_allowed_def Let_def)

subsection \<open>Moving a group\<close>

lemma assign_block_id [simp]: "block_id (assign p b) = block_id b"
  by (simp add: assign_def Let_def split: option.splits)

lemma assign_idem: "assign p (assign p b) = assign p b"
  by (simp add: assign_def Let_def split: option.splits)

lemma getBlockById_updateBlock:
  "getBlockById (updateBlock j p s) i =
     (if i = j then map_option (assign p) (getBlockById s j) else getBlockById s i)"
  unfolding updateBlock_def by (rule getBlockById_modify_block) simp

lemma getBlockById_fold_updateBlock:
  "getBlockById (fold (\<lambda>c. updateBlock c (F c)) ids s) j =
     (if j \<in> set ids then map_option (assign (F j)) (getBlockById s j) else getBlockById s j)"
proof (induction ids arbitrary: s)
  case Nil
  show ?case by simp
next
  case (Cons c ids)
  show ?case
    by (cases "getBlockById s j") (auto simp: Cons getBlockById_updateBlock assign_idem)
qed

lemma find_update_index:
  "findIndex P xs = Some k \<Longrightarrow> P y \<Longrightarrow> find P (xs[k := y]) = Some y"
  by (induction xs arbitrary: k) (auto split: if_splits)

lemma find_Some_findIndex:
  "find P xs = Some g \<Longrightarrow> \<exists>k. findIndex P xs = Some k \<and> xs ! k = g"
  by (induction xs) (auto split: if_splits)

lemma getGroupById_Some_index:
  "getGroupById s gid = Some g \<Longrightarrow>
     \<exists>k. findIndex (\<lambda>g. group_id g = gid) (groups s) = Some k \<and> groups s ! k = g"
  unfolding getGroupById_def by (rule find_Some_findIndex)

lemma getGroupById_updateGroup_position:
  assumes "getGroupById s gid = Some g"
  shows "getGroupById (updateGroup gid (position_patch p) s) gid = Some (g\<lparr>g_position := p\<rparr>)"
proof -
  from getGroupById_Some_index [OF assms] obtain k
    where k: "findIndex (\<lambda>g. group_id g = gid) (groups s) = Some k" and g: "groups s ! k = g"
    by blast
  from findIndex_Some_less [OF k] g have "group_id g = gid"
    by simp
  then have "find (\<lambda>g. group_id g = gid) ((groups s)[k := g\<lparr>g_position := p\<rparr>])
      = Some (g\<lparr>g_position := p\<rparr>)"
    using find_update_index [OF k, of "g\<lparr>g_position := p\<rparr>"] by simp
  then show ?thesis
    using k g
    by (simp add: updateGroup_def position_patch_def normalize_ids_def assign_allowed_def
        getGroupById_def Let_def)
qed

lemma getBlockById_updateGroup_position [simp]:
  "getBlockById (updateGroup gid (position_patch p) s) j = getBlockById s j"
  by (simp add: updateGroup_def position_patch_def normalize_ids_def Let_def
      split: option.splits)

lemma getGroupById_fold_updateBlock [simp]:
  "getGroupById (fold (\<lambda>c. updateBlock c (F c)) ids s) gid = getGroupById s gid"
proof -
  have "groups (fold (\<lambda>c. updateBlock c (F c)) ids s) = groups s"
    by (induction ids arbitrary: s) simp_all
  then show ?thesis by (simp add: getGroupById_def)
qed

lemma group_move_written:
  assumes g: "getGroupById s (blockId i) = Some g"
    and ids: "groupBlockIds i = childIds g"
    and offs: "i_blockOffsets i = blockOffsets g"
  shows "\<exists>p. getGroupById (group_move ws ev i s) (blockId i) = Some (g\<lparr>g_position := p\<rparr>) \<and>
           (\<forall>cid \<in> set (childIds g). \<forall>b. getBlockById (group_move ws ev i s) cid = Some b \<longrightarrow>
              position b = Some (Position (pos_x p + pos_x (offset_of (blockOffsets g) cid))
                                   (pos_y p + pos_y (offset_of (blockOffsets g) cid))))"
proof -
  let ?sz = "case groupSnapshot i of Some g \<Rightarrow> g_size g | None \<Rightarrow> Size None None"
  let ?rot = "case groupSnapshot i of Some g \<Rightarrow> g_rotation g | None \<Rightarrow> 0"
  let ?c = "clamp_to_workspace ws (canvasRect i) ?sz ?rot
     (Position (pos_x (groupSnapshotPosition i) + (clientX ev - startX i))
        (pos_y (groupSnapshotPosition i) + (clientY ev - startY i)))"
  let ?F = "\<lambda>childId. no_patch\<lparr>p_position :=
               Some (Position (pos_x ?c + pos_x (offset_of (i_blockOffsets i) childId))
                       (pos_y ?c + pos_y (offset_of (i_blockOffsets i) childId)))\<rparr>"
  let ?s1 = "fold (\<lambda>childId. updateBlock childId (?F childId)) (groupBlockIds i) s"
  have e: "group_move ws ev i s = updateGroup (blockId i) (position_patch ?c) ?s1"
    by (simp add: group_move_def Let_def)
  have g1: "getGroupById ?s1 (blockId i) = Some g"
    using g by simp
  have gg: "getGroupById (group_move ws ev i s) (blockId i) = Some (g\<lparr>g_position := ?c\<rparr>)"
    unfolding e by (rule getGroupById_updateGroup_position [OF g1])
  have bb: "\<And>cid b. cid \<in> set (childIds g) \<Longrightarrow> getBlockById (group_move ws ev i s) cid = Some b
      \<Longrightarrow> position b = Some (Position (pos_x ?c + pos_x (offset_of (blockOffsets g) cid))
                                (pos_y ?c + pos_y (offset_of (blockOffsets g) cid)))"
    unfolding e
    by (auto simp: getBlockById_fold_updateBlock ids offs assign_def no_patch_def)
  from gg bb show ?thesis
    by blast
qed

lemma has_group_group_move:
  assumes g: "getGroupById s (blockId i) = Some g"
    and ids: "groupBlockIds i = childIds g"
    and offs: "i_blockOffsets i = blockOffsets g"
  shows "has_group (blockId i) (childIds g) (blockOffsets g) (group_move ws ev i s)"
  using group_move_written [OF assms, of ws ev] by (auto simp: has_group_def)

lemma offset_of_stored: "map_of offs cid = Some off \<Longrightarrow> offset_of offs cid = off"
  by (simp add: offset_of_def)

lemma stored_entry:
  assumes "set cs \<subseteq> fst ` set offs" and "cid \<in> set cs"
  shows "\<exists>off. map_of offs cid = Some off"
proof -
  from assms have "cid \<in> fst ` set offs"
    by blast
  then have "map_of offs cid \<noteq> None"
    by (simp add: map_of_eq_None_iff)
  then show ?thesis
    by blast
qed

lemma group_move_step:
  assumes g: "getGroupById s (blockId i) = Some g"
    and ids: "groupBlockIds i = childIds g"
    and offs: "i_blockOffsets i = blockOffsets g"
    and ent: "set (childIds g) \<subseteq> fst ` set (blockOffsets g)"
  shows "moved_ok (blockId i) (childIds g) (blockOffsets g) (group_move ws ev i s)"
proof -
  from group_move_written [OF g ids offs, of ws ev] obtain p
    where gg: "getGroupById (group_move ws ev i s) (blockId i) = Some (g\<lparr>g_position := p\<rparr>)"
      and bb: "\<And>cid b. cid \<in> set (childIds g) \<Longrightarrow>
                 getBlockById (group_move ws ev i s) cid = Some b \<Longrightarrow>
                 position b = Some (Position (pos_x p + pos_x (offset_of (blockOffsets g) cid))
                                      (pos_y p + pos_y (offset_of (blockOffsets g) cid)))"
    by blast
  have "\<exists>off. map_of (blockOffsets g) cid = Some off \<and>
          position b = Some (Position (pos_x p + pos_x off) (pos_y p + pos_y off))"
    if c: "cid \<in> set (childIds g)" and b: "getBlockById (group_move ws ev i s) cid = Some b"
    for cid b
  proof -
    from stored_entry [OF ent c] obtain off where o: "map_of (blockOffsets g) cid = Some off"
      by blast
    from bb [OF c b] offset_of_stored [OF o] o show ?thesis
      by simp
  qed
  then show ?thesis
    unfolding moved_ok_def using gg by simp
qed

lemma getGroupById_updateGroup:
  assumes "getGroupById s gid = Some g"
  shows "getGroupById (updateGroup gid patch s) gid =
     Some (assign_allowed (normalize_ids patch)
             (case gp_childIds (normalize_ids patch) of
                None \<Rightarrow> g
              | Some new \<Rightarrow> g\<lparr>childIds := new, blockIds := new\<rparr>))"
proof -
  let ?g' = "assign_allowed (normalize_ids patch)
             (case gp_childIds (normalize_ids patch) of
                None \<Rightarrow> g
              | Some new \<Rightarrow> g\<lparr>childIds := new, blockIds := new\<rparr>)"
  from getGroupById_Some_index [OF assms] obtain k
    where k: "findIndex (\<lambda>g. group_id g = gid) (groups s) = Some k" and g: "groups s ! k = g"
    by blast
  from findIndex_Some_less [OF k] g have "group_id ?g' = gid"
    by (simp split: option.splits)
  then have "find (\<lambda>g. group_id g = gid) ((groups s)[k := ?g']) = Some ?g'"
    by (rule find_update_index [OF k])
  then show ?thesis
    using k g by (simp add: updateGroup_def getGroupById_def Let_def split: option.splits)
qed

lemma has_group_applyCommand_transform:
  assumes "getGroupById s gid = Some g"
  shows "has_group gid (childIds g) (blockOffsets g)
           (applyCommand (GroupTransformCommand gid gb (Some g) cb ca) s)"
proof -
  have n: "normalize_ids (patch_of_group g) = patch_of_group g"
    by (simp add: normalize_ids_def patch_of_group_def)
  have "getGroupById (applyCommand (GroupTransformCommand gid gb (Some g) cb ca) s) gid
      = getGroupById (updateGroup gid (patch_of_group g) s) gid"
    by (simp add: applyCommand_def getGroupById_def)
  also have "\<dots> = Some (assign_allowed (patch_of_group g)
                         (g\<lparr>childIds := childIds g, blockIds := childIds g\<rparr>))"
    using getGroupById_updateGroup [OF assms, of "patch_of_group g"]
    by (simp add: n) (simp add: patch_of_group_def)
  finally show ?thesis
    by (simp add: has_group_def assign_allowed_def patch_of_group_def)
qed

lemma has_group_endInteraction:
  assumes "has_group gid cs offs s" "isGroupId gid" "blockId i = gid"
  shows "has_group gid cs offs (endInteraction (Some i) s)"
proof -
  from assms(1) obtain g where g: "getGroupById s gid = Some g"
    and c: "childIds g = cs" "blockOffsets g = offs"
    by (auto simp: has_group_def)
  from has_group_applyCommand_transform [OF g] c assms(1) g
  show ?thesis
    using assms(2,3) by (simp add: endInteraction_def Let_def)
qed

lemma begin_group_move:
  assumes "isGroupId gid" "getGroupById s gid = Some g" "blockOffsets g \<noteq> []"
  shows "\<exists>i. beginInteraction (Some cr) ev Move gid h s = Some i \<and> blockId i = gid \<and>
           i_type i = Move \<and> groupBlockIds i = childIds g \<and> i_blockOffsets i = blockOffsets g"
  using assms by (simp add: beginInteraction_def Let_def)

lemma begin_group_cases:
  assumes "isGroupId gid" "getGroupById s gid = Some g" "blockOffsets g \<noteq> []"
  shows "beginInteraction canvas ev Move gid h s = None \<or>
         (\<exists>i. beginInteraction canvas ev Move gid h s = Some i \<and> blockId i = gid \<and>
           i_type i = Move \<and> groupBlockIds i = childIds g \<and> i_blockOffsets i = blockOffsets g)"
  using assms by (cases canvas) (simp_all add: beginInteraction_def Let_def)

lemma pointer_moves_snoc:
  "pointer_moves (ms @ [(ws, ev)]) iref s = handlePointerMove ws ev iref (pointer_moves ms iref s)"
  by (simp add: pointer_moves_def)

lemma pointer_moves_None [simp]: "pointer_moves ms None s = s"
  by (induction ms arbitrary: s) (simp_all add: pointer_moves_def handlePointerMove_def split_def)

lemma handlePointerMove_group_move:
  "isGroupId (blockId i) \<Longrightarrow> i_type i = Move \<Longrightarrow>
   handlePointerMove ws ev (Some i) s = group_move ws ev i s"
  by (simp add: handlePointerMove_def)

lemma has_group_pointer_moves:
  assumes i: "isGroupId (blockId i)" "i_type i = Move"
    and ids: "groupBlockIds i = cs" and offs: "i_blockOffsets i = offs"
  shows "has_group (blockId i) cs offs s \<Longrightarrow>
         has_group (blockId i) cs offs (pointer_moves ms (Some i) s)"
proof (induction ms rule: rev_induct)
  case Nil
  then show ?case by (simp add: pointer_moves_def)
next
  case (snoc m ms)
  obtain ws ev where m: "m = (ws, ev)"
    by (cases m)
  from snoc obtain g where g: "getGroupById (pointer_moves ms (Some i) s) (blockId i) = Some g"
    and c: "childIds g = cs" "blockOffsets g = offs"
    by (auto simp: has_group_def)
  from has_group_group_move [OF g, of ws ev] ids offs c
  have "has_group (blockId i) cs offs (group_move ws ev i (pointer_moves ms (Some i) s))"
    by simp
  then show ?case
    by (simp add: m pointer_moves_snoc handlePointerMove_group_move [OF i])
qed

lemma moved_ok_pointer_moves:
  assumes i: "isGroupId (blockId i)" "i_type i = Move"
    and ids: "groupBlockIds i = cs" and offs: "i_blockOffsets i = offs"
    and h: "has_group (blockId i) cs offs s" and ne: "ms \<noteq> []"
    and ent: "set cs \<subseteq> fst ` set offs"
  shows "moved_ok (blockId i) cs offs (pointer_moves ms (Some i) s)"
proof -
  from ne obtain ms' m where ms: "ms = ms' @ [m]"
    by (cases ms rule: rev_cases) auto
  obtain ws ev where m: "m = (ws, ev)"
    by (cases m)
  from has_group_pointer_moves [OF i ids offs h, of ms']
  obtain g where g: "getGroupById (pointer_moves ms' (Some i) s) (blockId i) = Some g"
    and c: "childIds g = cs" "blockOffsets g = offs"
    by (auto simp: has_group_def)
  from group_move_step [OF g, of ws ev] ids offs c ent
  have "moved_ok (blockId i) cs offs (group_move ws ev i (pointer_moves ms' (Some i) s))"
    by simp
  then show ?thesis
    by (simp add: ms m pointer_moves_snoc handlePointerMove_group_move [OF i])
qed

lemma has_group_gesture:
  assumes gid: "isGroupId gid" and ne: "offs \<noteq> []"
    and h: "has_group gid cs offs s"
  shows "has_group gid cs offs (gesture Move gid gst s)"
proof -
  obtain canvas down opt_handle ms where gst: "gst = (canvas, down, opt_handle, ms)"
    by (cases gst)
  from h obtain g where g: "getGroupById s gid = Some g"
    and c: "childIds g = cs" "blockOffsets g = offs"
    by (auto simp: has_group_def)
  from ne c have ne': "blockOffsets g \<noteq> []"
    by simp
  from begin_group_cases [OF gid g ne', of canvas down opt_handle]
  show ?thesis
  proof
    assume "beginInteraction canvas down Move gid opt_handle s = None"
    with h show ?thesis
      by (simp add: gesture_def gst endInteraction_def Let_def)
  next
    assume "\<exists>i. beginInteraction canvas down Move gid opt_handle s = Some i \<and> blockId i = gid \<and>
           i_type i = Move \<and> groupBlockIds i = childIds g \<and> i_blockOffsets i = blockOffsets g"
    then obtain i where b: "beginInteraction canvas down Move gid opt_handle s = Some i"
      and i: "blockId i = gid" "i_type i = Move" "groupBlockIds i = cs" "i_blockOffsets i = offs"
      using c by auto
    from has_group_pointer_moves [of i cs offs s ms] i gid h
    have "has_group gid cs offs (pointer_moves ms (Some i) s)"
      by simp
    from has_group_endInteraction [OF this gid i(1)]
    show ?thesis
      by (simp add: gesture_def gst b Let_def)
  qed
qed

lemma has_group_gestures:
  assumes gid: "isGroupId gid" and ne: "offs \<noteq> []"
  shows "has_group gid cs offs s \<Longrightarrow> has_group gid cs offs (fold (gesture Move gid) gestures s)"
  by (induction gestures arbitrary: s) (simp_all add: has_group_gesture [OF gid ne])

text \<open>
  Claim C7 (group move preserves offsets). Let the group \<open>gid\<close> have stored
  \<^verbatim>\<open>blockOffsets\<close> with an entry for every child. After any number of complete move
  gestures on the group, and then after each pointer move of a further move gesture,
  every child that exists stands at the position of the group plus its stored offset,
  the stored offsets and the members being the ones the group started with. The clamp
  against the workspace is applied to the position of the group before the offsets are
  added, so it does not disturb the equation. (The sum is the same expression for the
  group and for the child, which is why the equation is exact; the model computes on the
  reals. For a child without an entry the handler takes \<^verbatim>\<open>{x: 0, y: 0}\<close>, or whatever
  the object inherits under the name of the child.)
\<close>

theorem group_move_preserves_offsets:
  assumes "isGroupId gid"
    and "getGroupById s0 gid = Some g0"
    and "blockOffsets g0 \<noteq> []"
    and "moves \<noteq> []"
    and "s1 = fold (gesture Move gid) gestures s0"
    and "set (childIds g0) \<subseteq> fst ` set (blockOffsets g0)"
  shows "moved_ok gid (childIds g0) (blockOffsets g0)
           (pointer_moves moves (beginInteraction (Some cr) down Move gid h s1) s1)"
proof -
  have "has_group gid (childIds g0) (blockOffsets g0) s0"
    using assms(2) by (simp add: has_group_def)
  from has_group_gestures [OF assms(1,3) this, of gestures]
  have h1: "has_group gid (childIds g0) (blockOffsets g0) s1"
    by (simp add: assms(5))
  then obtain g where g: "getGroupById s1 gid = Some g"
    and c: "childIds g = childIds g0" "blockOffsets g = blockOffsets g0"
    by (auto simp: has_group_def)
  from c assms(3) have "blockOffsets g \<noteq> []"
    by simp
  from begin_group_move [OF assms(1) g this, of cr down h]
  obtain i where b: "beginInteraction (Some cr) down Move gid h s1 = Some i"
    and i: "blockId i = gid" "i_type i = Move" "groupBlockIds i = childIds g0"
      "i_blockOffsets i = blockOffsets g0"
    using c by auto
  from moved_ok_pointer_moves [of i "childIds g0" "blockOffsets g0" s1 moves] i assms(1,4,6) h1
  show ?thesis
    by (simp add: b)
qed

theorem group_move_preserves_offsets_witness:
  "isGroupId ''g-1'' \<and>
   getGroupById offsets_store ''g-1'' =
     Some ((sample_group ''g-1'' [''a'', ''b''])
             \<lparr>g_position := Position 10 10, g_size := Size (Some 80) (Some 50),
              blockOffsets := [(''a'', Position 0 0), (''b'', Position 30 0)]\<rparr>) \<and>
   moved_ok ''g-1'' [''a'', ''b''] [(''a'', Position 0 0), (''b'', Position 30 0)]
     (pointer_moves [(sample_workspace, pointer 205 205)]
        (beginInteraction (Some sample_canvas) (pointer 200 200) Move ''g-1'' None offsets_store)
        offsets_store) \<and>
   map_option position
     (getBlockById
        (pointer_moves [(sample_workspace, pointer 205 205)]
           (beginInteraction (Some sample_canvas) (pointer 200 200) Move ''g-1'' None
              offsets_store)
           offsets_store) ''b'')
     = Some (Some (Position 45 15))"
proof -
  let ?g = "(sample_group ''g-1'' [''a'', ''b''])
             \<lparr>g_position := Position 10 10, g_size := Size (Some 80) (Some 50),
              blockOffsets := [(''a'', Position 0 0), (''b'', Position 30 0)]\<rparr>"
  have h1: "isGroupId ''g-1''"
    by (simp add: isGroupId_def)
  have h2: "getGroupById offsets_store ''g-1'' = Some ?g"
    by (simp add: getGroupById_def offsets_store_def sample_store_def sample_group_def)
  have h3: "blockOffsets ?g \<noteq> []"
    by simp
  have h4: "[(sample_workspace, pointer 205 205)] \<noteq> []"
    by simp
  have h5: "offsets_store = fold (gesture Move ''g-1'') [] offsets_store"
    by simp
  have h6: "set (childIds ?g) \<subseteq> fst ` set (blockOffsets ?g)"
    by (simp add: sample_group_def)
  have c: "childIds ?g = [''a'', ''b'']"
    "blockOffsets ?g = [(''a'', Position 0 0), (''b'', Position 30 0)]"
    by (simp_all add: sample_group_def)
  have p: "map_option position
     (getBlockById
        (pointer_moves [(sample_workspace, pointer 205 205)]
           (beginInteraction (Some sample_canvas) (pointer 200 200) Move ''g-1'' None
              offsets_store)
           offsets_store) ''b'')
     = Some (Some (Position 45 15))"
    by (simp add: offsets_store_def sample_canvas_def sample_workspace_def pointer_def
        sample_store_def sample_block_def sample_group_def createInfographicsStore_def
        beginInteraction_def handlePointerMove_def pointer_moves_def group_move_def
        clamp_to_workspace_def offset_of_def position_patch_def isGroupId_def or0_def
        snapshot_child_def List.map_filter_def updateGroup_def modify_block_def
        getGroupById_def getBlockById_def updateBlock_def normalize_ids_def
        assign_allowed_def assign_def no_patch_def Let_def)
  from group_move_preserves_offsets [OF h1 h2 h3 h4 h5 h6, of sample_canvas "pointer 200 200" None]
    h1 h2 p
  show ?thesis
    unfolding c by blast
qed

subsection \<open>Crop insets\<close>

lemma clamp100_id: "0 \<le> v \<Longrightarrow> v \<le> 100 \<Longrightarrow> clamp100 v = v"
  by (simp add: clamp100_def)

lemma clamp100_range: "0 \<le> clamp100 v \<and> clamp100 v \<le> 100"
  by (simp add: clamp100_def)

lemma crop_okD:
  assumes "crop_ok c"
  shows "0 \<le> cv_top c" "cv_top c \<le> 100" "0 \<le> cv_right c" "cv_right c \<le> 100"
    "0 \<le> cv_bottom c" "cv_bottom c \<le> 100" "0 \<le> cv_left c" "cv_left c \<le> 100"
    "cv_left c + cv_right c \<le> 99" "cv_top c + cv_bottom c \<le> 99"
  using assms by (simp_all add: crop_ok_def MIN_VISIBLE_PERCENT_def)

lemma crop_ok_left:
  assumes "crop_ok c"
  shows "crop_ok (c\<lparr>cv_left := min (clamp100 v) (100 - cv_right c - MIN_VISIBLE_PERCENT)\<rparr>)"
  using crop_okD [OF assms] clamp100_range [of v]
  by (auto simp: crop_ok_def MIN_VISIBLE_PERCENT_def min_def)

lemma crop_ok_right:
  assumes "crop_ok c"
  shows "crop_ok (c\<lparr>cv_right := min (clamp100 v) (100 - cv_left c - MIN_VISIBLE_PERCENT)\<rparr>)"
  using crop_okD [OF assms] clamp100_range [of v]
  by (auto simp: crop_ok_def MIN_VISIBLE_PERCENT_def min_def)

lemma crop_ok_top:
  assumes "crop_ok c"
  shows "crop_ok (c\<lparr>cv_top := min (clamp100 v) (100 - cv_bottom c - MIN_VISIBLE_PERCENT)\<rparr>)"
  using crop_okD [OF assms] clamp100_range [of v]
  by (auto simp: crop_ok_def MIN_VISIBLE_PERCENT_def min_def)

lemma crop_ok_bottom:
  assumes "crop_ok c"
  shows "crop_ok (c\<lparr>cv_bottom := min (clamp100 v) (100 - cv_top c - MIN_VISIBLE_PERCENT)\<rparr>)"
  using crop_okD [OF assms] clamp100_range [of v]
  by (auto simp: crop_ok_def MIN_VISIBLE_PERCENT_def min_def)

lemma crop_drag_cases:
  "crop_drag c h dxp dyp =
     (if h = ''left''
      then c\<lparr>cv_left := min (clamp100 (cv_left c + dxp)) (100 - cv_right c - MIN_VISIBLE_PERCENT)\<rparr>
      else if h = ''right''
      then c\<lparr>cv_right := min (clamp100 (cv_right c - dxp)) (100 - cv_left c - MIN_VISIBLE_PERCENT)\<rparr>
      else if h = ''top''
      then c\<lparr>cv_top := min (clamp100 (cv_top c + dyp)) (100 - cv_bottom c - MIN_VISIBLE_PERCENT)\<rparr>
      else if h = ''bottom''
      then c\<lparr>cv_bottom := min (clamp100 (cv_bottom c - dyp)) (100 - cv_top c - MIN_VISIBLE_PERCENT)\<rparr>
      else c)"
  by (simp add: crop_drag_def Let_def)

lemma crop_ok_drag:
  assumes "crop_ok c"
  shows "crop_ok (crop_drag c h dxp dyp)"
  unfolding crop_drag_cases
  using crop_ok_left [OF assms] crop_ok_right [OF assms] crop_ok_top [OF assms]
    crop_ok_bottom [OF assms] assms
  by simp

lemma clamp_edges_id:
  assumes "crop_ok c"
  shows "clamp_edges c = c"
  using crop_okD [OF assms] by (simp add: clamp_edges_def clamp100_id)

lemma nudge_horizontal_id:
  assumes "crop_ok c"
  shows "nudge_horizontal h c = c"
  using crop_okD [OF assms] by (simp add: nudge_horizontal_def MIN_VISIBLE_PERCENT_def Let_def)

lemma nudge_vertical_id:
  assumes "crop_ok c"
  shows "nudge_vertical h c = c"
  using crop_okD [OF assms] by (simp add: nudge_vertical_def MIN_VISIBLE_PERCENT_def Let_def)

lemma crop_move_eq_drag:
  assumes "crop_ok c"
  shows "crop_move c h w ht dx dy =
     crop_drag c h (if w > 0 then dx / w * 100 else 0) (if ht > 0 then dy / ht * 100 else 0)"
  using crop_ok_drag [OF assms]
  by (simp add: crop_move_def Let_def clamp_edges_id nudge_horizontal_id nudge_vertical_id)

lemma crop_ok_move:
  assumes "crop_ok c"
  shows "crop_ok (crop_move c h w ht dx dy)"
  unfolding crop_move_eq_drag [OF assms] using assms by (rule crop_ok_drag)

lemma crop_ok_moves:
  "crop_ok c \<Longrightarrow> crop_ok (crop_moves steps c)"
  unfolding crop_moves_def
  by (induction steps arbitrary: c) (auto simp: crop_ok_move)

lemma crop_move_others_fixed:
  assumes "crop_ok c"
  shows "(h \<noteq> ''left'' \<longrightarrow> cv_left (crop_move c h w ht dx dy) = cv_left c) \<and>
         (h \<noteq> ''right'' \<longrightarrow> cv_right (crop_move c h w ht dx dy) = cv_right c) \<and>
         (h \<noteq> ''top'' \<longrightarrow> cv_top (crop_move c h w ht dx dy) = cv_top c) \<and>
         (h \<noteq> ''bottom'' \<longrightarrow> cv_bottom (crop_move c h w ht dx dy) = cv_bottom c)"
  unfolding crop_move_eq_drag [OF assms] crop_drag_cases by simp

lemma crop_split_evenly:
  assumes "h \<noteq> ''left''" "h \<noteq> ''right''"
    and "0 \<le> cv_left c" "cv_left c \<le> 100" "0 \<le> cv_right c" "cv_right c \<le> 100"
    and "cv_left c + cv_right c > 100 - MIN_VISIBLE_PERCENT"
  shows "cv_left (crop_move c h w ht dx dy)
           = clamp100 (cv_left c - (cv_left c + cv_right c - (100 - MIN_VISIBLE_PERCENT)) / 2) \<and>
         cv_right (crop_move c h w ht dx dy)
           = clamp100 (cv_right c - (cv_left c + cv_right c - (100 - MIN_VISIBLE_PERCENT)) / 2)"
proof -
  let ?d = "crop_drag c h (if w > 0 then dx / w * 100 else 0) (if ht > 0 then dy / ht * 100 else 0)"
  have d: "cv_left ?d = cv_left c" "cv_right ?d = cv_right c"
    using assms(1,2) by (simp_all add: crop_drag_cases)
  have e: "cv_left (clamp_edges ?d) = cv_left c" "cv_right (clamp_edges ?d) = cv_right c"
    using assms(3-6) by (simp_all add: clamp_edges_def d clamp100_id)
  have n: "cv_left (nudge_horizontal h (clamp_edges ?d))
           = clamp100 (cv_left c - (cv_left c + cv_right c - (100 - MIN_VISIBLE_PERCENT)) / 2)"
    "cv_right (nudge_horizontal h (clamp_edges ?d))
           = clamp100 (cv_right c - (cv_left c + cv_right c - (100 - MIN_VISIBLE_PERCENT)) / 2)"
    using assms(1,2,7) by (simp_all add: nudge_horizontal_def e Let_def MIN_VISIBLE_PERCENT_def)
  have v: "cv_left (nudge_vertical h x) = cv_left x" "cv_right (nudge_vertical h x) = cv_right x" for x
    by (simp_all add: nudge_vertical_def Let_def)
  show ?thesis
    by (simp add: crop_move_def Let_def v n)
qed

lemma crop_split_evenly_vertical:
  assumes "h \<noteq> ''top''" "h \<noteq> ''bottom''"
    and "0 \<le> cv_top c" "cv_top c \<le> 100" "0 \<le> cv_bottom c" "cv_bottom c \<le> 100"
    and "cv_top c + cv_bottom c > 100 - MIN_VISIBLE_PERCENT"
  shows "cv_top (crop_move c h w ht dx dy)
           = clamp100 (cv_top c - (cv_top c + cv_bottom c - (100 - MIN_VISIBLE_PERCENT)) / 2) \<and>
         cv_bottom (crop_move c h w ht dx dy)
           = clamp100 (cv_bottom c - (cv_top c + cv_bottom c - (100 - MIN_VISIBLE_PERCENT)) / 2)"
proof -
  let ?d = "crop_drag c h (if w > 0 then dx / w * 100 else 0) (if ht > 0 then dy / ht * 100 else 0)"
  have d: "cv_top ?d = cv_top c" "cv_bottom ?d = cv_bottom c"
    using assms(1,2) by (simp_all add: crop_drag_cases)
  have e: "cv_top (clamp_edges ?d) = cv_top c" "cv_bottom (clamp_edges ?d) = cv_bottom c"
    using assms(3-6) by (simp_all add: clamp_edges_def d clamp100_id)
  have n: "cv_top (nudge_horizontal h x) = cv_top x" "cv_bottom (nudge_horizontal h x) = cv_bottom x"
    for x
    by (simp_all add: nudge_horizontal_def Let_def)
  show ?thesis
    using assms(1,2,7)
    by (simp add: crop_move_def nudge_vertical_def [of h] n e Let_def MIN_VISIBLE_PERCENT_def)
qed

lemma getCropValues_crop_of_values: "getCropValues (Some (crop_of_values c)) = c"
  by (simp add: getCropValues_def crop_of_values_def or0_def)

text \<open>
  The single-block branch on insets that leave \<^verbatim>\<open>MIN_VISIBLE_PERCENT\<close> = 1 visible on each
  axis (each inset between 0 and 100, both sums at most 99): any sequence of crop moves
  keeps every inset between 0 and 100 and both sums at most 99, and a further move changes
  no inset but the one of the dragged handle, the cap \<^verbatim>\<open>100 - opposite - 1\<close> being applied
  to that edge. The even split is the answer of the branch when an axis shows less than 1
  percent and neither of its edges is the dragged one: each of the two insets is reduced
  by half the excess.
\<close>

lemma crop_bounds_kept:
  assumes "crop_ok c0"
  shows "(let c = crop_moves steps c0 in
           0 \<le> cv_top c \<and> cv_top c \<le> 100 \<and> 0 \<le> cv_right c \<and> cv_right c \<le> 100 \<and>
           0 \<le> cv_bottom c \<and> cv_bottom c \<le> 100 \<and> 0 \<le> cv_left c \<and> cv_left c \<le> 100 \<and>
           cv_left c + cv_right c \<le> 100 - MIN_VISIBLE_PERCENT \<and>
           cv_top c + cv_bottom c \<le> 100 - MIN_VISIBLE_PERCENT \<and>
           cv_left c + cv_right c \<le> 100 \<and> cv_top c + cv_bottom c \<le> 100 \<and>
           (h \<noteq> ''left'' \<longrightarrow> cv_left (crop_move c h w ht dx dy) = cv_left c) \<and>
           (h \<noteq> ''right'' \<longrightarrow> cv_right (crop_move c h w ht dx dy) = cv_right c) \<and>
           (h \<noteq> ''top'' \<longrightarrow> cv_top (crop_move c h w ht dx dy) = cv_top c) \<and>
           (h \<noteq> ''bottom'' \<longrightarrow> cv_bottom (crop_move c h w ht dx dy) = cv_bottom c)) \<and>
         (h' \<noteq> ''left'' \<and> h' \<noteq> ''right'' \<and> 0 \<le> cv_left d \<and> cv_left d \<le> 100 \<and>
          0 \<le> cv_right d \<and> cv_right d \<le> 100 \<and>
          cv_left d + cv_right d > 100 - MIN_VISIBLE_PERCENT \<longrightarrow>
            cv_left (crop_move d h' w ht dx dy)
              = clamp100 (cv_left d - (cv_left d + cv_right d - (100 - MIN_VISIBLE_PERCENT)) / 2) \<and>
            cv_right (crop_move d h' w ht dx dy)
              = clamp100 (cv_right d - (cv_left d + cv_right d - (100 - MIN_VISIBLE_PERCENT)) / 2)) \<and>
         (h' \<noteq> ''top'' \<and> h' \<noteq> ''bottom'' \<and> 0 \<le> cv_top d \<and> cv_top d \<le> 100 \<and>
          0 \<le> cv_bottom d \<and> cv_bottom d \<le> 100 \<and>
          cv_top d + cv_bottom d > 100 - MIN_VISIBLE_PERCENT \<longrightarrow>
            cv_top (crop_move d h' w ht dx dy)
              = clamp100 (cv_top d - (cv_top d + cv_bottom d - (100 - MIN_VISIBLE_PERCENT)) / 2) \<and>
            cv_bottom (crop_move d h' w ht dx dy)
              = clamp100 (cv_bottom d - (cv_top d + cv_bottom d - (100 - MIN_VISIBLE_PERCENT)) / 2))"
proof (intro conjI)
  have ok: "crop_ok (crop_moves steps c0)"
    using assms by (rule crop_ok_moves)
  show "let c = crop_moves steps c0 in
           0 \<le> cv_top c \<and> cv_top c \<le> 100 \<and> 0 \<le> cv_right c \<and> cv_right c \<le> 100 \<and>
           0 \<le> cv_bottom c \<and> cv_bottom c \<le> 100 \<and> 0 \<le> cv_left c \<and> cv_left c \<le> 100 \<and>
           cv_left c + cv_right c \<le> 100 - MIN_VISIBLE_PERCENT \<and>
           cv_top c + cv_bottom c \<le> 100 - MIN_VISIBLE_PERCENT \<and>
           cv_left c + cv_right c \<le> 100 \<and> cv_top c + cv_bottom c \<le> 100 \<and>
           (h \<noteq> ''left'' \<longrightarrow> cv_left (crop_move c h w ht dx dy) = cv_left c) \<and>
           (h \<noteq> ''right'' \<longrightarrow> cv_right (crop_move c h w ht dx dy) = cv_right c) \<and>
           (h \<noteq> ''top'' \<longrightarrow> cv_top (crop_move c h w ht dx dy) = cv_top c) \<and>
           (h \<noteq> ''bottom'' \<longrightarrow> cv_bottom (crop_move c h w ht dx dy) = cv_bottom c)"
    using crop_okD [OF ok] crop_move_others_fixed [OF ok, of h w ht dx dy]
    by (simp add: Let_def MIN_VISIBLE_PERCENT_def)
  show "h' \<noteq> ''left'' \<and> h' \<noteq> ''right'' \<and> 0 \<le> cv_left d \<and> cv_left d \<le> 100 \<and>
          0 \<le> cv_right d \<and> cv_right d \<le> 100 \<and>
          cv_left d + cv_right d > 100 - MIN_VISIBLE_PERCENT \<longrightarrow>
            cv_left (crop_move d h' w ht dx dy)
              = clamp100 (cv_left d - (cv_left d + cv_right d - (100 - MIN_VISIBLE_PERCENT)) / 2) \<and>
            cv_right (crop_move d h' w ht dx dy)
              = clamp100 (cv_right d - (cv_left d + cv_right d - (100 - MIN_VISIBLE_PERCENT)) / 2)"
    using crop_split_evenly [of h' d w ht dx dy] by blast
  show "h' \<noteq> ''top'' \<and> h' \<noteq> ''bottom'' \<and> 0 \<le> cv_top d \<and> cv_top d \<le> 100 \<and>
          0 \<le> cv_bottom d \<and> cv_bottom d \<le> 100 \<and>
          cv_top d + cv_bottom d > 100 - MIN_VISIBLE_PERCENT \<longrightarrow>
            cv_top (crop_move d h' w ht dx dy)
              = clamp100 (cv_top d - (cv_top d + cv_bottom d - (100 - MIN_VISIBLE_PERCENT)) / 2) \<and>
            cv_bottom (crop_move d h' w ht dx dy)
              = clamp100 (cv_bottom d - (cv_top d + cv_bottom d - (100 - MIN_VISIBLE_PERCENT)) / 2)"
    using crop_split_evenly_vertical [of h' d w ht dx dy] by blast
qed

lemma crop_bounds_kept_example:
  "crop_ok no_crop \<and>
   crop_moves [(''left'', 200, 100, 20, 0)] no_crop = no_crop\<lparr>cv_left := 10\<rparr> \<and>
   cv_left (crop_moves [(''left'', 200, 100, 20, 0)] no_crop)
     + cv_right (crop_moves [(''left'', 200, 100, 20, 0)] no_crop) \<le> 100 - MIN_VISIBLE_PERCENT \<and>
   cv_left (crop_move (crop_moves [(''left'', 200, 100, 20, 0)] no_crop) ''top'' 200 100 0 10)
     = 10 \<and>
   cv_left half_half + cv_right half_half > 100 - MIN_VISIBLE_PERCENT \<and>
   cv_left (crop_move half_half ''top'' 200 100 0 10) = 99 / 2 \<and>
   cv_right (crop_move half_half ''top'' 200 100 0 10) = 99 / 2"
proof -
  have h: "crop_ok no_crop"
    by (simp add: crop_ok_def no_crop_def MIN_VISIBLE_PERCENT_def)
  have m: "crop_moves [(''left'', 200, 100, 20, 0)] no_crop = no_crop\<lparr>cv_left := 10\<rparr>"
    by (simp add: crop_moves_def crop_move_eq_drag [OF h] crop_drag_cases)
      (simp add: no_crop_def clamp100_def MIN_VISIBLE_PERCENT_def)
  have d: "''top'' \<noteq> ''left'' \<and> ''top'' \<noteq> ''right'' \<and> 0 \<le> cv_left half_half \<and>
      cv_left half_half \<le> 100 \<and> 0 \<le> cv_right half_half \<and> cv_right half_half \<le> 100 \<and>
      cv_left half_half + cv_right half_half > 100 - MIN_VISIBLE_PERCENT"
    by (simp add: half_half_def MIN_VISIBLE_PERCENT_def)
  have v: "clamp100 (cv_left half_half
        - (cv_left half_half + cv_right half_half - (100 - MIN_VISIBLE_PERCENT)) / 2) = 99 / 2"
    "clamp100 (cv_right half_half
        - (cv_left half_half + cv_right half_half - (100 - MIN_VISIBLE_PERCENT)) / 2) = 99 / 2"
    by (simp_all add: half_half_def MIN_VISIBLE_PERCENT_def clamp100_def)
  from crop_bounds_kept [OF h, of "[(''left'', 200, 100, 20, 0)]" "''top''" 200 100 0 10
      "''top''" half_half]
  show ?thesis
    using h d unfolding m v Let_def by simp
qed

text \<open>
  Claim C6 (crop clamp invariant: from insets within the bounds, every inset stays between
  0 and 100 and the two insets of an axis sum to at most 100; a correction goes to the
  edge that moved, never to the opposite one) does not hold of the handlers.

  In the single-block branch the cap \<^verbatim>\<open>100 - opposite - 1\<close> and the later nudge of the
  dragged edge are written to the block without a clamp at 0. Block \<^verbatim>\<open>a\<close> has the stored
  insets left 100, right 0 (each within 0 and 100, their sum 100). A press on its right
  handle and a pointer move that does not leave the point write the right inset -1.

  In the group branch an axis whose insets sum to more than 90 is scaled down as a whole.
  The child of \<^verbatim>\<open>g-1\<close> has the insets left 0, right 55; the left handle of the group,
  dragged by 36 pixels, sets left to 45 and then scales both: the right inset, the
  opposite edge, goes from 55 to 49.5.
\<close>

theorem crop_inset_negative:
  "map_option crop
     (getBlockById
        (pointer_moves [(sample_workspace, pointer 300 300)]
           (beginInteraction (Some sample_canvas) (pointer 300 300) Crop ''a'' (Some ''right'')
              full_left_crop)
           full_left_crop) ''a'')
     = Some (Some (crop_of_values \<lparr>cv_top = 0, cv_right = - 1, cv_bottom = 0, cv_left = 100\<rparr>)) \<and>
   map_option crop
     (getBlockById
        (pointer_moves [(sample_workspace, pointer 236 200)]
           (beginInteraction (Some sample_canvas) (pointer 200 200) Crop ''g-1'' (Some ''left'')
              cropped_child_store)
           cropped_child_store) ''a'')
     = Some (Some (crop_of_values \<lparr>cv_top = 0, cv_right = 99 / 2, cv_bottom = 0, cv_left = 81 / 2\<rparr>))"
proof (intro conjI)
  show "map_option crop
     (getBlockById
        (pointer_moves [(sample_workspace, pointer 300 300)]
           (beginInteraction (Some sample_canvas) (pointer 300 300) Crop ''a'' (Some ''right'')
              full_left_crop)
           full_left_crop) ''a'')
     = Some (Some (crop_of_values \<lparr>cv_top = 0, cv_right = - 1, cv_bottom = 0, cv_left = 100\<rparr>))"
    by (simp add: full_left_crop_def no_crop_def sample_store_def sample_block_def
        createInfographicsStore_def sample_canvas_def sample_workspace_def pointer_def
        beginInteraction_def handlePointerMove_def pointer_moves_def isGroupId_def or0_def
        snapshot_block_def hasNumericSize_def getCropValues_def crop_of_values_def
        crop_move_def crop_drag_def clamp_edges_def nudge_horizontal_def nudge_vertical_def
        clamp100_def MIN_VISIBLE_PERCENT_def getBlockById_def updateBlock_def
        modify_block_def assign_def no_patch_def Let_def)
  show "map_option crop
     (getBlockById
        (pointer_moves [(sample_workspace, pointer 236 200)]
           (beginInteraction (Some sample_canvas) (pointer 200 200) Crop ''g-1'' (Some ''left'')
              cropped_child_store)
           cropped_child_store) ''a'')
     = Some (Some (crop_of_values \<lparr>cv_top = 0, cv_right = 99 / 2, cv_bottom = 0, cv_left = 81 / 2\<rparr>))"
    by (simp add: cropped_child_store_def no_crop_def sample_store_def sample_block_def
        sample_group_def createInfographicsStore_def sample_canvas_def sample_workspace_def
        pointer_def beginInteraction_def handlePointerMove_def pointer_moves_def
        isGroupId_def or0_def or1_def snapshot_child_def computedOffsets_def
        List.map_filter_def getGroupById_def getGroupBlockIds_def group_crop_def
        getCropValues_def crop_of_values_def clampCropValue_def getBlockById_def
        updateBlock_def modify_block_def assign_def no_patch_def Let_def)
qed

subsection \<open>Rotating\<close>

lemma js_rem_bounds:
  assumes "n > 0"
  shows "- n < js_rem a n \<and> js_rem a n < n \<and> (\<exists>k::int. js_rem a n = a - n * of_int k) \<and>
         (0 \<le> a \<longrightarrow> 0 \<le> js_rem a n) \<and> (a \<le> 0 \<longrightarrow> js_rem a n \<le> 0)"
proof (cases "a / n \<ge> 0")
  case True
  let ?k = "\<lfloor>a / n\<rfloor>"
  have an: "a / n * n = a"
    using assms by simp
  have r: "js_rem a n = a - n * of_int ?k"
    using True by (simp add: js_rem_def trunc_def)
  have f1: "of_int ?k \<le> a / n" and f2: "a / n < of_int ?k + 1"
    by linarith+
  have "of_int ?k * n \<le> a / n * n"
    using f1 assms by (intro mult_right_mono) simp_all
  moreover have "a / n * n < (of_int ?k + 1) * n"
    using f2 assms by (intro mult_strict_right_mono) simp_all
  ultimately have b: "0 \<le> a - n * of_int ?k" "a - n * of_int ?k < n"
    unfolding an by (simp_all add: algebra_simps)
  from True assms have a0: "0 \<le> a"
    by (simp add: zero_le_divide_iff)
  show ?thesis
  proof (cases "a = 0")
    case True
    with assms show ?thesis by (simp add: js_rem_def trunc_def)
  next
    case False
    with a0 b assms show ?thesis
      unfolding r by auto
  qed
next
  case False
  let ?k = "\<lceil>a / n\<rceil>"
  have an: "a / n * n = a"
    using assms by simp
  have r: "js_rem a n = a - n * of_int ?k"
    using False by (simp add: js_rem_def trunc_def)
  have f1: "a / n \<le> of_int ?k" and f2: "of_int ?k - 1 < a / n"
    by linarith+
  have "a / n * n \<le> of_int ?k * n"
    using f1 assms by (intro mult_right_mono) simp_all
  moreover have "(of_int ?k - 1) * n < a / n * n"
    using f2 assms by (intro mult_strict_right_mono) simp_all
  ultimately have b: "a - n * of_int ?k \<le> 0" "- n < a - n * of_int ?k"
    unfolding an by (simp_all add: algebra_simps)
  from False assms have a0: "a < 0"
    by (simp add: not_le divide_less_0_iff)
  from a0 b assms show ?thesis
    unfolding r by auto
qed


lemma find_Some_P: "find P xs = Some x \<Longrightarrow> P x"
  by (induction xs) (auto split: if_splits)

lemma getBlockById_pages_id: "getBlockById_pages ps i = Some b \<Longrightarrow> block_id b = i"
  by (induction ps) (auto split: option.splits dest: find_Some_P)

lemma getBlockById_id: "getBlockById s i = Some b \<Longrightarrow> block_id b = i"
  unfolding getBlockById_def by (rule getBlockById_pages_id)

lemma begin_single:
  assumes "\<not> isGroupId bid" "beginInteraction canvas down ty bid h s0 = Some i"
  shows "\<exists>cr b0. canvas = Some cr \<and> getBlockById s0 bid = Some b0 \<and> \<not> locked b0 \<and>
           blockId i = bid \<and> i_type i = ty \<and> blockSnapshot i = Some (snapshot_block b0) \<and>
           handle i = h \<and> canvasRect i = cr \<and> startX i = clientX down \<and>
           startY i = clientY down \<and>
           (if ty = Rotate \<and> hasNumericSize (block_type b0) (block_size b0)
            then center i \<noteq> None \<and> startAngle i \<noteq> None \<and>
                 initialRotation i = Some (or0 (rotation b0))
            else center i = None)"
  using assms
  by (cases canvas; cases "getBlockById s0 bid")
    (auto simp: beginInteraction_def Let_def split: if_splits)

lemma begin_group:
  assumes "isGroupId bid" "beginInteraction canvas down ty bid h s0 = Some i"
  shows "\<exists>cr g0. canvas = Some cr \<and> getGroupById s0 bid = Some g0 \<and>
           blockId i = bid \<and> i_type i = ty \<and> groupSnapshot i = Some g0 \<and>
           groupBlockIds i = childIds g0 \<and> handle i = h \<and> canvasRect i = cr \<and>
           startX i = clientX down \<and> startY i = clientY down \<and>
           (ty = Rotate \<longrightarrow> center i \<noteq> None \<and> startAngle i \<noteq> None \<and>
              initialRotation i = Some (g_rotation g0))"
  using assms
  by (cases canvas; cases "getGroupById s0 bid")
    (auto simp: beginInteraction_def Let_def split: if_splits)

lemma hasNumericSize_snapshot:
  "hasNumericSize (block_type b) (block_size b) \<Longrightarrow>
   hasNumericSize (bs_type (snapshot_block b)) (Some (bs_size (snapshot_block b)))"
  by (cases "block_size b") (simp_all add: hasNumericSize_def snapshot_block_def)

lemma single_rotate_written:
  assumes ng: "\<not> isGroupId bid"
    and b: "beginInteraction canvas down Rotate bid h s0 = Some i"
    and c: "center i = Some c" "startAngle i = Some sa" "initialRotation i = Some ir"
    and blk: "getBlockById s bid = Some b"
  shows "map_option rotation (getBlockById (handlePointerMove ws ev (Some i) s) bid)
     = Some (Some (rotate_degrees sa ir (atan2 (clientY ev - pos_y c) (clientX ev - pos_x c))))"
proof -
  from begin_single [OF ng b] obtain b0 where b0: "getBlockById s0 bid = Some b0"
    and i: "blockId i = bid" "i_type i = Rotate" "blockSnapshot i = Some (snapshot_block b0)"
    and r: "if hasNumericSize (block_type b0) (block_size b0)
            then center i \<noteq> None \<and> startAngle i \<noteq> None \<and>
                 initialRotation i = Some (or0 (rotation b0))
            else center i = None"
    by auto
  from r c(1) have n: "hasNumericSize (block_type b0) (block_size b0)"
    by (auto split: if_splits)
  have id: "bs_id (snapshot_block b0) = bid"
    using getBlockById_id [OF b0] by (simp add: snapshot_block_def)
  show ?thesis
    using ng i c blk hasNumericSize_snapshot [OF n] id
    by (simp add: handlePointerMove_def getBlockById_updateBlock assign_def no_patch_def)
qed

lemma group_rotate_written:
  assumes g: "isGroupId bid"
    and b: "beginInteraction canvas down Rotate bid h s0 = Some i"
    and c: "center i = Some c" "startAngle i = Some sa" "initialRotation i = Some ir"
    and grp: "getGroupById s bid = Some gr"
  shows "map_option g_rotation (getGroupById (handlePointerMove ws ev (Some i) s) bid)
     = Some (rotate_degrees sa ir (atan2 (clientY ev - pos_y c) (clientX ev - pos_x c)))"
proof -
  from begin_group [OF g b] obtain g0 where i: "blockId i = bid" "i_type i = Rotate"
    "groupSnapshot i = Some g0"
    by auto
  have gu: "getGroupById (updateBlocks es s) bid = Some gr" for es
    using grp by (simp add: getGroupById_def)
  show ?thesis
    using g i c
    by (simp add: handlePointerMove_def group_rotate_def Let_def
        getGroupById_updateGroup [OF gu] normalize_ids_def assign_allowed_def)
qed

lemma ceiling_neg_quarter: "\<lceil>- (1 / 4 :: real)\<rceil> = 0"
  by (rule ceiling_unique) simp_all

lemma rotate_quarter_back: "rotate_degrees 0 0 (- (pi / 2)) = - 90"
  by (simp add: rotate_degrees_def js_rem_def trunc_def ceiling_neg_quarter)

lemma begin_rotate_session:
  "beginInteraction (Some sample_canvas) (pointer 235 135) Rotate ''a'' None three_blocks
     = Some rotate_session"
  by (simp add: beginInteraction_def isGroupId_def getBlockById_def three_blocks_def
      sample_store_def createInfographicsStore_def sample_block_def sample_canvas_def
      pointer_def hasNumericSize_def snapshot_block_def or0_def atan2_def rotate_session_def
      Let_def)

text \<open>
  Claim C5, as the specification states it (the rotation written is normalised into
  [0, 360) and never negative), fails: \<^verbatim>\<open>%\<close> keeps the sign of its left operand. A block
  with rotation 0, the pointer going down to the right of its centre and moving to the
  point above the centre, gets the rotation -90.
\<close>

theorem rotation_can_be_negative:
  "map_option rotation
     (getBlockById
        (handlePointerMove sample_workspace (pointer 135 35)
           (beginInteraction (Some sample_canvas) (pointer 235 135) Rotate ''a'' None three_blocks)
           three_blocks) ''a'')
     = Some (Some (- 90))"
  unfolding begin_rotate_session
  by (simp add: handlePointerMove_def rotate_session_def isGroupId_def hasNumericSize_def
      snapshot_block_def sample_block_def pointer_def atan2_def rotate_quarter_back
      updateBlock_def modify_block_def assign_def no_patch_def getBlockById_def
      three_blocks_def sample_store_def createInfographicsStore_def)

text \<open>
  Claim C5, amended. For a rotate session as \<^verbatim>\<open>beginInteraction\<close> set it up, a pointer
  move writes to the target (the block, or the group record) the rotation
  \<^verbatim>\<open>((currentAngle - startAngle) * 180 / PI + initialRotation) % 360\<close>, where
  \<^verbatim>\<open>initialRotation\<close> is the rotation the target had at pointer-down. That value differs
  from the unreduced sum by a multiple of 360, lies strictly between -360 and 360, and has
  the sign of the unreduced sum: it is negative whenever the sum is negative and not a
  multiple of 360.
\<close>

theorem rotate_gesture_result:
  assumes "beginInteraction canvas down Rotate bid h s0 = Some i"
    and "center i = Some c" and "startAngle i = Some sa" and "initialRotation i = Some ir"
  shows "(\<not> isGroupId bid \<and> getBlockById s bid = Some b \<longrightarrow>
            map_option rotation (getBlockById (handlePointerMove ws ev (Some i) s) bid)
              = Some (Some (rotate_degrees sa ir
                              (atan2 (clientY ev - pos_y c) (clientX ev - pos_x c)))) \<and>
            map_option (\<lambda>b0. or0 (rotation b0)) (getBlockById s0 bid) = Some ir) \<and>
         (isGroupId bid \<and> getGroupById s bid = Some gr \<longrightarrow>
            map_option g_rotation (getGroupById (handlePointerMove ws ev (Some i) s) bid)
              = Some (rotate_degrees sa ir
                        (atan2 (clientY ev - pos_y c) (clientX ev - pos_x c))) \<and>
            map_option g_rotation (getGroupById s0 bid) = Some ir) \<and>
         - 360 < rotate_degrees sa ir cur \<and> rotate_degrees sa ir cur < 360 \<and>
         (\<exists>k::int. rotate_degrees sa ir cur = (cur - sa) * 180 / pi + ir - 360 * of_int k) \<and>
         (0 \<le> (cur - sa) * 180 / pi + ir \<longrightarrow> 0 \<le> rotate_degrees sa ir cur) \<and>
         ((cur - sa) * 180 / pi + ir \<le> 0 \<longrightarrow> rotate_degrees sa ir cur \<le> 0)"
proof (intro conjI impI)
  assume a: "\<not> isGroupId bid \<and> getBlockById s bid = Some b"
  then show "map_option rotation (getBlockById (handlePointerMove ws ev (Some i) s) bid)
              = Some (Some (rotate_degrees sa ir
                              (atan2 (clientY ev - pos_y c) (clientX ev - pos_x c))))"
    using single_rotate_written [OF _ assms] by blast
  from a begin_single [of bid canvas down Rotate h s0 i] assms(1,2,4)
  show "map_option (\<lambda>b0. or0 (rotation b0)) (getBlockById s0 bid) = Some ir"
    by (auto split: if_splits)
next
  assume a: "isGroupId bid \<and> getGroupById s bid = Some gr"
  then show "map_option g_rotation (getGroupById (handlePointerMove ws ev (Some i) s) bid)
              = Some (rotate_degrees sa ir
                        (atan2 (clientY ev - pos_y c) (clientX ev - pos_x c)))"
    using group_rotate_written [OF _ assms] by blast
  from a begin_group [of bid canvas down Rotate h s0 i] assms(1,4)
  show "map_option g_rotation (getGroupById s0 bid) = Some ir"
    by auto
next
  have pos: "(0::real) < 360"
    by simp
  note j = js_rem_bounds [OF pos, of "(cur - sa) * 180 / pi + ir"]
  from j show "- 360 < rotate_degrees sa ir cur"
    unfolding rotate_degrees_def by blast
  from j show "rotate_degrees sa ir cur < 360"
    unfolding rotate_degrees_def by blast
  from j show "\<exists>k::int. rotate_degrees sa ir cur = (cur - sa) * 180 / pi + ir - 360 * of_int k"
    unfolding rotate_degrees_def by blast
  from j show "0 \<le> rotate_degrees sa ir cur" if "0 \<le> (cur - sa) * 180 / pi + ir"
    using that unfolding rotate_degrees_def by blast
  from j show "rotate_degrees sa ir cur \<le> 0" if "(cur - sa) * 180 / pi + ir \<le> 0"
    using that unfolding rotate_degrees_def by blast
qed

theorem rotate_gesture_result_witness:
  "beginInteraction (Some sample_canvas) (pointer 235 135) Rotate ''a'' None three_blocks
     = Some rotate_session \<and>
   center rotate_session = Some (Position 135 135) \<and>
   startAngle rotate_session = Some 0 \<and> initialRotation rotate_session = Some 0 \<and>
   \<not> isGroupId ''a'' \<and>
   getBlockById three_blocks ''a'' = Some (sample_block ''a'' None) \<and>
   map_option rotation
     (getBlockById
        (handlePointerMove sample_workspace (pointer 135 35) (Some rotate_session) three_blocks)
        ''a'')
     = Some (Some (rotate_degrees 0 0 (- (pi / 2)))) \<and>
   - 360 < rotate_degrees 0 0 (- (pi / 2)) \<and> rotate_degrees 0 0 (- (pi / 2)) \<le> 0"
proof -
  have c: "center rotate_session = Some (Position 135 135)"
    "startAngle rotate_session = Some 0" "initialRotation rotate_session = Some 0"
    by (simp_all add: rotate_session_def)
  have n: "\<not> isGroupId ''a''"
    by (simp add: isGroupId_def)
  have b: "getBlockById three_blocks ''a'' = Some (sample_block ''a'' None)"
    by (simp add: getBlockById_def three_blocks_def sample_store_def
        createInfographicsStore_def sample_block_def)
  have a: "atan2 (clientY (pointer 135 35) - pos_y (Position 135 135))
      (clientX (pointer 135 35) - pos_x (Position 135 135)) = - (pi / 2)"
    by (simp add: atan2_def pointer_def)
  have le: "(- (pi / 2) - 0) * 180 / pi + 0 \<le> 0"
    by simp
  from rotate_gesture_result [OF begin_rotate_session c, where s = three_blocks
      and b = "sample_block ''a'' None" and ws = sample_workspace and ev = "pointer 135 35"
      and cur = "- (pi / 2)"]
  show ?thesis
    using begin_rotate_session c n b le unfolding a by blast
qed

subsection \<open>Resizing a block\<close>

lemma resize_axis_props:
  assumes "resize_axis limit a sz far near d = (n, m)"
  shows "(near \<longrightarrow> n + m = a + sz \<and> 0 \<le> n \<and> (40 \<le> a + sz \<longrightarrow> 40 \<le> m)) \<and>
         (\<not> near \<longrightarrow> n = a \<and> (far \<longrightarrow> 40 \<le> m) \<and> (\<not> far \<longrightarrow> m = sz))"
  using assms by (auto simp: resize_axis_def Let_def split: if_splits)

text \<open>
  Claim C8, as the specification states it (every resize keeps the opposite edge fixed,
  ends with width and height of at least 40, and rescales the font of a text block with
  its width), fails in two places. The new left (or top) edge is never allowed below 0,
  and that guard comes after the minimum size: a block of width 50 that hangs 20 pixels
  over the left edge of the canvas, taken by its left handle, ends 30 wide. And only the
  top-left handle of a text block rescales the font: the right handle widens the text
  block from 50 to 70 and leaves the font size at 20.
\<close>

theorem resize_below_minimum:
  "map_option (\<lambda>b. (position b, block_size b))
     (getBlockById
        (pointer_moves [(sample_workspace, pointer 300 300)]
           (beginInteraction (Some sample_canvas) (pointer 300 300) Resize ''a'' (Some ''left'')
              left_overhang)
           left_overhang) ''a'')
     = Some (Some (Position 0 10), Some (Size (Some 30) (Some 50))) \<and>
   map_option (\<lambda>b. (block_size b, fontSize b))
     (getBlockById
        (pointer_moves [(sample_workspace, pointer 320 300)]
           (beginInteraction (Some sample_canvas) (pointer 300 300) Resize ''t'' (Some ''right'')
              text_store)
           text_store) ''t'')
     = Some (Some (Size (Some 70) (Some 50)), Some 20)"
  by (simp add: left_overhang_def text_store_def sample_store_def sample_block_def
      createInfographicsStore_def sample_canvas_def sample_workspace_def pointer_def
      beginInteraction_def handlePointerMove_def pointer_moves_def isGroupId_def or0_def
      snapshot_block_def hasNumericSize_def resize_patch_def resize_axis_def getBlockById_def updateBlock_def
      modify_block_def assign_def no_patch_def Let_def)

text \<open>
  Claim C8, amended. For a snapshot with a numeric width \<open>w\<close> at \<open>(x, y)\<close>, the patch of
  a resize move sets a position \<open>(nx, ny)\<close> and a size \<open>(nw, nh)\<close> such that:
  \<^item> for a text block taken by its top-left handle, the right edge stays (\<open>nx + nw = x + w\<close>),
    \<open>nx\<close> is not negative, \<open>y\<close> and the height are untouched, the width is at least 20
    provided the right edge is at least 20 from the canvas origin, and, for \<open>w\<close> other than 0,
    the font size is the starting one (16 if the block has none) times \<open>nw / w\<close> clamped
    to [0.5, 3] (a start width of 0 makes the quotient \<^verbatim>\<open>Infinity\<close>, \<^verbatim>\<open>-Infinity\<close> or
    \<^verbatim>\<open>NaN\<close>);
  \<^item> in every other case the font size is not touched; a handle with \<^verbatim>\<open>left\<close> keeps the
    right edge, keeps \<open>nx\<close> from going negative, and gives a width of at least 40 provided
    the right edge is at least 40 from the canvas origin; a handle without \<^verbatim>\<open>left\<close> keeps
    \<open>x\<close>, with a width of at least 40 for a handle with \<^verbatim>\<open>right\<close> and the old width
    otherwise; the same holds for \<^verbatim>\<open>top\<close> and \<^verbatim>\<open>bottom\<close> when the height is a number,
    and nothing vertical changes when it is not.

  Concretely, block \<^verbatim>\<open>a\<close> at (10, 10) with size 50 by 50 and rotation 0, its bottom-right
  handle dragged by (20, 0): the gesture ends with size 70 by 50 at the same position and
  one command on the undo list, and \<^verbatim>\<open>undo\<close> restores 50 by 50.
\<close>

theorem axis_resize_postcondition:
  assumes "bs_size snap = Size (Some w) ht" and "bs_position snap = Position x y"
  shows "(\<exists>nx ny nw nh.
           p_position (resize_patch cr snap h dx dy) = Some (Position nx ny) \<and>
           p_size (resize_patch cr snap h dx dy) = Some (Some (Size (Some nw) nh)) \<and>
           (bs_type snap = ''text'' \<and> h = ''top-left'' \<longrightarrow>
              nx + nw = x + w \<and> 0 \<le> nx \<and> ny = y \<and> nh = ht \<and> (20 \<le> x + w \<longrightarrow> 20 \<le> nw) \<and>
              (w \<noteq> 0 \<longrightarrow>
                 p_fontSize (resize_patch cr snap h dx dy)
                   = Some ((case bs_fontSize snap of Some f \<Rightarrow> f | None \<Rightarrow> 16)
                             * max (1 / 2) (min (nw / w) 3)))) \<and>
           (\<not> (bs_type snap = ''text'' \<and> h = ''top-left'') \<longrightarrow>
              p_fontSize (resize_patch cr snap h dx dy) = None \<and>
              (str_includes h ''left'' \<longrightarrow>
                 nx + nw = x + w \<and> 0 \<le> nx \<and> (40 \<le> x + w \<longrightarrow> 40 \<le> nw)) \<and>
              (\<not> str_includes h ''left'' \<longrightarrow>
                 nx = x \<and> (str_includes h ''right'' \<longrightarrow> 40 \<le> nw) \<and>
                 (\<not> str_includes h ''right'' \<longrightarrow> nw = w)) \<and>
              (\<forall>sh. ht = Some sh \<longrightarrow>
                 (\<exists>nh'. nh = Some nh' \<and>
                    (str_includes h ''top'' \<longrightarrow>
                       ny + nh' = y + sh \<and> 0 \<le> ny \<and> (40 \<le> y + sh \<longrightarrow> 40 \<le> nh')) \<and>
                    (\<not> str_includes h ''top'' \<longrightarrow>
                       ny = y \<and> (str_includes h ''bottom'' \<longrightarrow> 40 \<le> nh') \<and>
                       (\<not> str_includes h ''bottom'' \<longrightarrow> nh' = sh)))) \<and>
              (ht = None \<longrightarrow> ny = y \<and> nh = None))) \<and>
         map_option (\<lambda>b. (position b, block_size b))
           (getBlockById (gesture Resize ''a'' drag_bottom_right three_blocks) ''a'')
           = Some (Some (Position 10 10), Some (Size (Some 70) (Some 50))) \<and>
         length (undoStack (gesture Resize ''a'' drag_bottom_right three_blocks)) = 1 \<and>
         map_option (\<lambda>b. (position b, block_size b))
           (getBlockById (undo (gesture Resize ''a'' drag_bottom_right three_blocks)) ''a'')
           = Some (Some (Position 10 10), Some (Size (Some 50) (Some 50)))"
proof (intro conjI)
  show "\<exists>nx ny nw nh.
           p_position (resize_patch cr snap h dx dy) = Some (Position nx ny) \<and>
           p_size (resize_patch cr snap h dx dy) = Some (Some (Size (Some nw) nh)) \<and>
           (bs_type snap = ''text'' \<and> h = ''top-left'' \<longrightarrow>
              nx + nw = x + w \<and> 0 \<le> nx \<and> ny = y \<and> nh = ht \<and> (20 \<le> x + w \<longrightarrow> 20 \<le> nw) \<and>
              (w \<noteq> 0 \<longrightarrow>
                 p_fontSize (resize_patch cr snap h dx dy)
                   = Some ((case bs_fontSize snap of Some f \<Rightarrow> f | None \<Rightarrow> 16)
                             * max (1 / 2) (min (nw / w) 3)))) \<and>
           (\<not> (bs_type snap = ''text'' \<and> h = ''top-left'') \<longrightarrow>
              p_fontSize (resize_patch cr snap h dx dy) = None \<and>
              (str_includes h ''left'' \<longrightarrow>
                 nx + nw = x + w \<and> 0 \<le> nx \<and> (40 \<le> x + w \<longrightarrow> 40 \<le> nw)) \<and>
              (\<not> str_includes h ''left'' \<longrightarrow>
                 nx = x \<and> (str_includes h ''right'' \<longrightarrow> 40 \<le> nw) \<and>
                 (\<not> str_includes h ''right'' \<longrightarrow> nw = w)) \<and>
              (\<forall>sh. ht = Some sh \<longrightarrow>
                 (\<exists>nh'. nh = Some nh' \<and>
                    (str_includes h ''top'' \<longrightarrow>
                       ny + nh' = y + sh \<and> 0 \<le> ny \<and> (40 \<le> y + sh \<longrightarrow> 40 \<le> nh')) \<and>
                    (\<not> str_includes h ''top'' \<longrightarrow>
                       ny = y \<and> (str_includes h ''bottom'' \<longrightarrow> 40 \<le> nh') \<and>
                       (\<not> str_includes h ''bottom'' \<longrightarrow> nh' = sh)))) \<and>
              (ht = None \<longrightarrow> ny = y \<and> nh = None))"
  proof (cases "bs_type snap = ''text'' \<and> h = ''top-left''")
    case True
    let ?nx = "max 0 (min (x + dx) (x + w - 20))"
    let ?nw = "x + w - ?nx"
    let ?font = "case clamped_scale ?nw w of
                   Some scale \<Rightarrow> (case bs_fontSize snap of Some f \<Rightarrow> f | None \<Rightarrow> 16) * scale
                 | None \<Rightarrow> NaN"
    have e: "resize_patch cr snap h dx dy =
        no_patch\<lparr>p_position := Some (Position ?nx y),
                 p_size := Some (Some (Size (Some ?nw) ht)),
                 p_fontSize := Some ?font\<rparr>"
      using assms True by (simp add: resize_patch_def or0_def Let_def)
    define nx where "nx = ?nx"
    define nw where "nw = ?nw"
    have f: "p_position (resize_patch cr snap h dx dy) = Some (Position nx y)"
      "p_size (resize_patch cr snap h dx dy) = Some (Some (Size (Some nw) ht))"
      unfolding e nx_def nw_def by (simp_all add: no_patch_def)
    have ft: "w \<noteq> 0 \<longrightarrow>
        p_fontSize (resize_patch cr snap h dx dy)
         = Some ((case bs_fontSize snap of Some f \<Rightarrow> f | None \<Rightarrow> 16)
                   * max (1 / 2) (min (nw / w) 3))"
      unfolding e nw_def by (simp add: no_patch_def clamped_scale_def)
    have p: "nx + nw = x + w" "0 \<le> nx" "20 \<le> x + w \<longrightarrow> 20 \<le> nw"
      unfolding nx_def nw_def by auto
    have q: "nx + nw = x + w \<and> 0 \<le> nx \<and> y = y \<and> ht = ht \<and> (20 \<le> x + w \<longrightarrow> 20 \<le> nw) \<and>
        (w \<noteq> 0 \<longrightarrow>
           p_fontSize (resize_patch cr snap h dx dy)
             = Some ((case bs_fontSize snap of Some f \<Rightarrow> f | None \<Rightarrow> 16)
                       * max (1 / 2) (min (nw / w) 3)))"
      using p ft by simp
    show ?thesis
      unfolding f using True q
      by (rule_tac x = nx in exI, rule_tac x = y in exI, rule_tac x = nw in exI,
          rule_tac x = ht in exI) simp
  next
    case False
    let ?L = "str_includes h ''left''"
    let ?R = "str_includes h ''right''"
    let ?T = "str_includes h ''top''"
    let ?B = "str_includes h ''bottom''"
    obtain nx nw where hz: "resize_axis (rect_width cr) x w ?R ?L dx = (nx, nw)"
      by (cases "resize_axis (rect_width cr) x w ?R ?L dx")
    define ny where "ny = (case ht of
        Some sh \<Rightarrow> fst (resize_axis (rect_height cr) y sh ?B ?T dy) | None \<Rightarrow> y)"
    define nh where "nh = (case ht of
        Some sh \<Rightarrow> Some (snd (resize_axis (rect_height cr) y sh ?B ?T dy)) | None \<Rightarrow> None)"
    have nc: "(bs_type snap = ''text'' \<and> h = ''top-left'') = False"
      using False by simp
    have e: "resize_patch cr snap h dx dy =
        no_patch\<lparr>p_position :=
                   Some (Position (fst (resize_axis (rect_width cr) x w ?R ?L dx)) ny),
                 p_size :=
                   Some (Some (Size (Some (snd (resize_axis (rect_width cr) x w ?R ?L dx)))
                                 nh))\<rparr>"
      using assms unfolding ny_def nh_def
      by (cases ht) (simp_all add: resize_patch_def nc or0_def split_def Let_def)
    have f: "p_position (resize_patch cr snap h dx dy) = Some (Position nx ny)"
      "p_size (resize_patch cr snap h dx dy) = Some (Some (Size (Some nw) nh))"
      "p_fontSize (resize_patch cr snap h dx dy) = None"
      unfolding e hz by (simp_all add: no_patch_def)
    note a = resize_axis_props [OF hz]
    have l: "?L \<longrightarrow> nx + nw = x + w \<and> 0 \<le> nx \<and> (40 \<le> x + w \<longrightarrow> 40 \<le> nw)"
      using a by simp
    have nl: "\<not> ?L \<longrightarrow> nx = x \<and> (?R \<longrightarrow> 40 \<le> nw) \<and> (\<not> ?R \<longrightarrow> nw = w)"
      using a by simp
    have v: "\<forall>sh. ht = Some sh \<longrightarrow>
                 (\<exists>nh'. nh = Some nh' \<and>
                    (?T \<longrightarrow> ny + nh' = y + sh \<and> 0 \<le> ny \<and> (40 \<le> y + sh \<longrightarrow> 40 \<le> nh')) \<and>
                    (\<not> ?T \<longrightarrow> ny = y \<and> (?B \<longrightarrow> 40 \<le> nh') \<and> (\<not> ?B \<longrightarrow> nh' = sh)))"
    proof (intro allI impI)
      fix sh
      assume s: "ht = Some sh"
      obtain m k where vt: "resize_axis (rect_height cr) y sh ?B ?T dy = (m, k)"
        by (cases "resize_axis (rect_height cr) y sh ?B ?T dy")
      have "ny = m" "nh = Some k"
        by (simp_all add: ny_def nh_def s vt)
      with resize_axis_props [OF vt]
      show "\<exists>nh'. nh = Some nh' \<and>
                    (?T \<longrightarrow> ny + nh' = y + sh \<and> 0 \<le> ny \<and> (40 \<le> y + sh \<longrightarrow> 40 \<le> nh')) \<and>
                    (\<not> ?T \<longrightarrow> ny = y \<and> (?B \<longrightarrow> 40 \<le> nh') \<and> (\<not> ?B \<longrightarrow> nh' = sh))"
        by simp
    qed
    have n: "ht = None \<longrightarrow> ny = y \<and> nh = None"
      unfolding ny_def nh_def by simp
    show ?thesis
      unfolding f nc using l nl v n
      by (rule_tac x = nx in exI, rule_tac x = ny in exI, rule_tac x = nw in exI,
          rule_tac x = nh in exI) simp
  qed
  show "map_option (\<lambda>b. (position b, block_size b))
           (getBlockById (gesture Resize ''a'' drag_bottom_right three_blocks) ''a'')
           = Some (Some (Position 10 10), Some (Size (Some 70) (Some 50)))"
    by (simp add: drag_bottom_right_def three_blocks_def sample_store_def sample_block_def
        createInfographicsStore_def sample_canvas_def sample_workspace_def pointer_def
        gesture_def beginInteraction_def handlePointerMove_def endInteraction_def
        pointer_moves_def isGroupId_def or0_def snapshot_block_def hasNumericSize_def
        resize_patch_def resize_axis_def getBlockById_def updateBlock_def modify_block_def assign_def
        no_patch_def applyCommand_def Let_def)
  show "length (undoStack (gesture Resize ''a'' drag_bottom_right three_blocks)) = 1"
    by (simp add: drag_bottom_right_def three_blocks_def sample_store_def sample_block_def
        createInfographicsStore_def sample_canvas_def sample_workspace_def pointer_def
        gesture_def beginInteraction_def handlePointerMove_def endInteraction_def
        pointer_moves_def isGroupId_def or0_def snapshot_block_def hasNumericSize_def
        resize_patch_def resize_axis_def getBlockById_def updateBlock_def modify_block_def assign_def
        no_patch_def applyCommand_def Let_def)
  show "map_option (\<lambda>b. (position b, block_size b))
           (getBlockById (undo (gesture Resize ''a'' drag_bottom_right three_blocks)) ''a'')
           = Some (Some (Position 10 10), Some (Size (Some 50) (Some 50)))"
    by (simp add: drag_bottom_right_def three_blocks_def sample_store_def sample_block_def
        createInfographicsStore_def sample_canvas_def sample_workspace_def pointer_def
        gesture_def beginInteraction_def handlePointerMove_def endInteraction_def
        pointer_moves_def isGroupId_def or0_def snapshot_block_def hasNumericSize_def
        resize_patch_def resize_axis_def getBlockById_def updateBlock_def modify_block_def assign_def
        no_patch_def applyCommand_def undo_def Let_def)
qed

theorem axis_resize_postcondition_witness:
  "bs_size (snapshot_block (sample_block ''a'' None)) = Size (Some 50) (Some 50) \<and>
   bs_position (snapshot_block (sample_block ''a'' None)) = Position 10 10 \<and>
   p_position (resize_patch sample_canvas (snapshot_block (sample_block ''a'' None))
                 ''bottom-right'' 20 0) = Some (Position 10 10) \<and>
   p_size (resize_patch sample_canvas (snapshot_block (sample_block ''a'' None))
             ''bottom-right'' 20 0) = Some (Some (Size (Some 70) (Some 50))) \<and>
   map_option (\<lambda>b. (position b, block_size b))
     (getBlockById (undo (gesture Resize ''a'' drag_bottom_right three_blocks)) ''a'')
     = Some (Some (Position 10 10), Some (Size (Some 50) (Some 50)))"
proof -
  have h1: "bs_size (snapshot_block (sample_block ''a'' None)) = Size (Some 50) (Some 50)"
    by (simp add: snapshot_block_def sample_block_def)
  have h2: "bs_position (snapshot_block (sample_block ''a'' None)) = Position 10 10"
    by (simp add: snapshot_block_def sample_block_def)
  have p: "p_position (resize_patch sample_canvas (snapshot_block (sample_block ''a'' None))
                 ''bottom-right'' 20 0) = Some (Position 10 10)"
    "p_size (resize_patch sample_canvas (snapshot_block (sample_block ''a'' None))
             ''bottom-right'' 20 0) = Some (Some (Size (Some 70) (Some 50)))"
    by (simp_all add: resize_patch_def resize_axis_def snapshot_block_def sample_block_def sample_canvas_def
        or0_def no_patch_def Let_def)
  note t = axis_resize_postcondition [OF h1 h2, of sample_canvas "''bottom-right''" 20 0]
  note u = t [THEN conjunct2, THEN conjunct2, THEN conjunct2]
  from h1 h2 p u show ?thesis
    by (intro conjI)
qed

subsection \<open>A press and release without a move\<close>

lemma begin_press_session:
  "beginInteraction (Some sample_canvas) (pointer 200 200) Move ''g-1'' None unrotated_child_store
     = Some press_session"
  "beginInteraction (Some sample_canvas) (pointer 200 200) Move ''g-1'' None offsets_store
     = Some press_session"
  by (simp_all add: press_session_def unrotated_child_store_def offsets_store_def
      sample_store_def sample_block_def sample_group_def createInfographicsStore_def
      pointer_def beginInteraction_def isGroupId_def or0_def snapshot_child_def
      List.map_filter_def getGroupById_def getBlockById_def computedOffsets_def Let_def)

lemma move_press_session:
  "handlePointerMove sample_workspace (pointer 200 200) (Some press_session)
     unrotated_child_store = unrotated_child_store"
  "handlePointerMove sample_workspace (pointer 200 200) (Some press_session)
     offsets_store = offsets_store"
  by (simp_all add: press_session_def unrotated_child_store_def offsets_store_def
      sample_store_def sample_block_def sample_group_def createInfographicsStore_def
      sample_canvas_def sample_workspace_def pointer_def handlePointerMove_def
      group_move_def clamp_to_workspace_def offset_of_def position_patch_def isGroupId_def
      or0_def getGroupById_def getBlockById_def updateBlock_def updateGroup_def
      modify_block_def normalize_ids_def assign_allowed_def assign_def no_patch_def Let_def)

lemma end_press_session:
  "endInteraction (Some press_session) unrotated_child_store =
     unrotated_child_store
       \<lparr>undoStack :=
          [GroupTransformCommand ''g-1'' (groupSnapshot press_session)
             (groupSnapshot press_session)
             [(''a'', \<lparr>p_position = Some (Position 10 10),
                       p_size = Some (Some (Size (Some 50) (Some 50))),
                       p_rotation = Some 0, p_fontSize = None, p_crop = None\<rparr>),
              (''b'', \<lparr>p_position = Some (Position 40 10),
                       p_size = Some (Some (Size (Some 50) (Some 50))),
                       p_rotation = Some 0, p_fontSize = None, p_crop = None\<rparr>)]
             [(''a'', \<lparr>p_position = Some (Position 10 10),
                       p_size = Some (Some (Size (Some 50) (Some 50))),
                       p_rotation = None, p_fontSize = None, p_crop = None\<rparr>),
              (''b'', \<lparr>p_position = Some (Position 40 10),
                       p_size = Some (Some (Size (Some 50) (Some 50))),
                       p_rotation = Some 0, p_fontSize = None, p_crop = None\<rparr>)]]\<rparr>"
  "endInteraction (Some press_session) offsets_store = offsets_store"
  by (simp_all add: press_session_def unrotated_child_store_def offsets_store_def
      sample_store_def sample_block_def sample_group_def createInfographicsStore_def
      sample_canvas_def endInteraction_def isGroupId_def before_patch_def after_patch_def
      getGroupById_def getBlockById_def updateBlock_def updateBlocks_def updateGroup_def
      modify_block_def normalize_ids_def sync_members_def set_order_def assign_allowed_def
      assign_def no_patch_def patch_of_group_def applyCommand_def Let_def)

text \<open>
  Claim C4 (a drag that ends where it started produces no history entry: pointer-down,
  a move to the same point and pointer-up leave the length of the undo list unchanged)
  does not hold of a group with a child that has no \<^verbatim>\<open>rotation\<close> property. Pointer-down
  records the rotation 0 for that child; pointer-up reads \<^verbatim>\<open>undefined\<close> from the block
  and compares the two. In \<^verbatim>\<open>unrotated_child_store\<close>, whose undo list is empty, the press
  and release on one point leave every block and the group as they were and push one
  \<^verbatim>\<open>GroupTransformCommand\<close>, whose before and after differ in the rotation of child
  \<^verbatim>\<open>a\<close> only: 0 against none. In \<^verbatim>\<open>offsets_store\<close>, where both children have a rotation,
  the same gesture pushes nothing.
\<close>

theorem noop_group_drag_recorded:
  "undoStack unrotated_child_store = [] \<and>
   gesture Move ''g-1'' press_and_release unrotated_child_store =
     unrotated_child_store
       \<lparr>undoStack :=
          [GroupTransformCommand ''g-1'' (getGroupById unrotated_child_store ''g-1'')
             (getGroupById unrotated_child_store ''g-1'')
             [(''a'', \<lparr>p_position = Some (Position 10 10),
                       p_size = Some (Some (Size (Some 50) (Some 50))),
                       p_rotation = Some 0, p_fontSize = None, p_crop = None\<rparr>),
              (''b'', \<lparr>p_position = Some (Position 40 10),
                       p_size = Some (Some (Size (Some 50) (Some 50))),
                       p_rotation = Some 0, p_fontSize = None, p_crop = None\<rparr>)]
             [(''a'', \<lparr>p_position = Some (Position 10 10),
                       p_size = Some (Some (Size (Some 50) (Some 50))),
                       p_rotation = None, p_fontSize = None, p_crop = None\<rparr>),
              (''b'', \<lparr>p_position = Some (Position 40 10),
                       p_size = Some (Some (Size (Some 50) (Some 50))),
                       p_rotation = Some 0, p_fontSize = None, p_crop = None\<rparr>)]]\<rparr> \<and>
   gesture Move ''g-1'' press_and_release offsets_store = offsets_store"
proof -
  have g: "getGroupById unrotated_child_store ''g-1'' = groupSnapshot press_session"
    by (simp add: press_session_def unrotated_child_store_def sample_store_def
        sample_group_def getGroupById_def)
  have e: "undoStack unrotated_child_store = []"
    by (simp add: unrotated_child_store_def sample_store_def createInfographicsStore_def)
  show ?thesis
    unfolding g
    by (simp add: e gesture_def press_and_release_def pointer_moves_def begin_press_session
        move_press_session end_press_session)
qed

end
